theory Spec2Isabelle
  imports Main "HOL-Library.Word" "HOL-Library.Monad_Syntax"
begin

unbundle bit_operations_syntax

section \<open>Error types (error-types.h)\<close>

text \<open>The scoped enumerations of the error categories and error identifiers. All of them
  have \<open>std::uint32_t\<close> as underlying type; \<open>to_underlying\<close> is the position in the
  declaration.\<close>

datatype category = cat_unspecified | cat_parsing | cat_validation | cat_verification

datatype parsing_error =
    pe_unspecified | missing_opening_tag | missing_closing_tag | exceeds_max_value_length
  | empty_config | no_tags_found | invalid_message_pointer | insufficient_message_size

datatype validation_error =
    ve_unspecified | setting_unset | contains_invalid_character | missing_value
  | negative_value | exceeds_max_length | out_of_type_range | below_type_range
  | above_type_range | below_min_threshold | above_max_threshold | invalid_option

datatype verification_error =
    vf_unspecified | no_trigger_enabled | no_data_destination_enabled

fun category_underlying :: "category \<Rightarrow> 32 word" where
  "category_underlying cat_unspecified = 0"
| "category_underlying cat_parsing = 1"
| "category_underlying cat_validation = 2"
| "category_underlying cat_verification = 3"

fun parsing_underlying :: "parsing_error \<Rightarrow> 32 word" where
  "parsing_underlying pe_unspecified = 0"
| "parsing_underlying missing_opening_tag = 1"
| "parsing_underlying missing_closing_tag = 2"
| "parsing_underlying exceeds_max_value_length = 3"
| "parsing_underlying empty_config = 4"
| "parsing_underlying no_tags_found = 5"
| "parsing_underlying invalid_message_pointer = 6"
| "parsing_underlying insufficient_message_size = 7"

fun validation_underlying :: "validation_error \<Rightarrow> 32 word" where
  "validation_underlying ve_unspecified = 0"
| "validation_underlying setting_unset = 1"
| "validation_underlying contains_invalid_character = 2"
| "validation_underlying missing_value = 3"
| "validation_underlying negative_value = 4"
| "validation_underlying exceeds_max_length = 5"
| "validation_underlying out_of_type_range = 6"
| "validation_underlying below_type_range = 7"
| "validation_underlying above_type_range = 8"
| "validation_underlying below_min_threshold = 9"
| "validation_underlying above_max_threshold = 10"
| "validation_underlying invalid_option = 11"

fun verification_underlying :: "verification_error \<Rightarrow> 32 word" where
  "verification_underlying vf_unspecified = 0"
| "verification_underlying no_trigger_enabled = 1"
| "verification_underlying no_data_destination_enabled = 2"

section \<open>Error code (error-code.h)\<close>

text \<open>\<open>make_bitmask\<close> of bitwise.h at type \<open>std::uint32_t\<close>: \<open>~(~U{} << size)\<close>.\<close>

definition make_bitmask :: "nat \<Rightarrow> 32 word" where
  "make_bitmask size_arg = NOT (push_bit size_arg (NOT 0))"

definition segment_size_category :: nat where "segment_size_category = 3"
definition segment_size_type :: nat where "segment_size_type = 5"
definition segment_size_data :: nat where "segment_size_data = 24"

definition segment_mask_category :: "32 word" where
  "segment_mask_category = make_bitmask segment_size_category"
definition segment_mask_type :: "32 word" where
  "segment_mask_type = make_bitmask segment_size_type"
definition segment_mask_data :: "32 word" where
  "segment_mask_data = make_bitmask segment_size_data"

definition data_size_byte :: nat where "data_size_byte = 8"
definition data_size_half :: nat where "data_size_half = 12"
definition data_size_dbyte :: nat where "data_size_dbyte = data_size_byte * 2"

definition data_mask_byte :: "32 word" where "data_mask_byte = make_bitmask data_size_byte"
definition data_mask_half :: "32 word" where "data_mask_half = make_bitmask data_size_half"

text \<open>An error code is its 32-bit value (\<open>data.value.bits\<close>); two codes are equal when
  their values are.\<close>

type_synonym code = "32 word"

text \<open>The private constructor \<open>code(category, ErrorType)\<close>, on the underlying values of
  the two enumerations.\<close>

definition code_ctor :: "32 word \<Rightarrow> 32 word \<Rightarrow> code" where
  "code_ctor category_id error_id =
     (let bits = category_id AND segment_mask_category;
          bits = push_bit segment_size_type bits;
          bits = bits OR (error_id AND segment_mask_type);
          bits = push_bit segment_size_data bits
      in bits)"

text \<open>The constructor \<open>code(ErrorType, error_data)\<close>: the code of the error type, with
  the low 24 bits of the data or-ed in. \<open>error_data\<close> is the \<open>int_fast32_t\<close> argument
  after its cast to \<open>std::uint32_t\<close>.\<close>

definition code_with_data :: "32 word \<Rightarrow> 32 word \<Rightarrow> 32 word \<Rightarrow> code" where
  "code_with_data category_id error_id error_data =
     code_ctor category_id error_id OR (error_data AND segment_mask_data)"

definition code_parsing :: "parsing_error \<Rightarrow> 32 word \<Rightarrow> code" where
  "code_parsing error_id error_data =
     code_with_data (category_underlying cat_parsing) (parsing_underlying error_id) error_data"

definition code_validation :: "validation_error \<Rightarrow> 32 word \<Rightarrow> code" where
  "code_validation error_id error_data =
     code_with_data (category_underlying cat_validation) (validation_underlying error_id)
       error_data"

definition code_verification :: "verification_error \<Rightarrow> 32 word \<Rightarrow> code" where
  "code_verification error_id error_data =
     code_with_data (category_underlying cat_verification)
       (verification_underlying error_id) error_data"

text \<open>\<open>data_segment<Mask, Offset>::operator=\<close>: replaces one part of the data segment.\<close>

definition data_segment_assign :: "32 word \<Rightarrow> nat \<Rightarrow> 32 word \<Rightarrow> code \<Rightarrow> code" where
  "data_segment_assign msk offset error_data bits =
     (bits AND NOT (push_bit offset msk)) OR push_bit offset (error_data AND msk)"

text \<open>\<open>data_segment<Mask, Offset>::operator std::uint32_t\<close>: reads one part.\<close>

definition data_segment_read :: "32 word \<Rightarrow> nat \<Rightarrow> code \<Rightarrow> 32 word" where
  "data_segment_read msk offset bits = drop_bit offset bits AND msk"

text \<open>The three segments of the wire layout: bits 31..29 hold the category, bits 28..24
  the error type, bits 23..0 the data.\<close>

definition code_category :: "code \<Rightarrow> 32 word" where
  "code_category v = drop_bit 29 v"

definition code_kind :: "code \<Rightarrow> 32 word" where
  "code_kind v = drop_bit 24 v AND 31"

definition code_data :: "code \<Rightarrow> 32 word" where
  "code_data v = v AND 16777215"

section \<open>Bit spans and bit extraction (bitwise.h)\<close>

text \<open>A span of bits: the position (\<open>pos_\<close>, a \<open>uint_least16_t\<close>) and the size (\<open>size_\<close>, a
  \<open>uint_least8_t\<close>). The
  default constructor gives position and size zero, "no bit mapping".\<close>

record bitspan =
  span_pos :: nat
  span_size :: nat

definition bitspan_min_size :: nat where "bitspan_min_size = 1"
definition bitspan_max_size :: nat where "bitspan_max_size = 64"
definition byte_boundary :: nat where "byte_boundary = 64"

definition default_bitspan :: bitspan where
  "default_bitspan = \<lparr>span_pos = 0, span_size = 0\<rparr>"

text \<open>\<open>bitspan::make<Pos, Size>\<close>: the constructor exists only when
  \<open>min_size \<le> Size \<le> max_size\<close> and \<open>Pos + Size \<le> byte_boundary * 8\<close>.\<close>

definition make_bitspan :: "nat \<Rightarrow> nat \<Rightarrow> bitspan option" where
  "make_bitspan p sz =
     (if bitspan_min_size \<le> sz \<and> sz \<le> bitspan_max_size \<and> p + sz \<le> byte_boundary * 8
      then Some \<lparr>span_pos = p, span_size = sz\<rparr> else None)"


text \<open>Arithmetic on \<open>unsigned\<close> (32 bits) wraps around: \<open>u32\<close> reduces the
  mathematical result to the value the machine keeps.\<close>

definition u32 :: "int \<Rightarrow> nat" where
  "u32 i = nat (i mod 4294967296)"

text \<open>The \<open>for\<close> loop of \<open>extract_bits\<close>. The first argument counts the iterations
  still to run (\<open>count - idx\<close>); the state is \<open>(result, pos, size, offset)\<close>. A read
  outside \<open>source\<close> is undefined.\<close>

fun extract_bits_loop ::
  "8 word list \<Rightarrow> nat \<Rightarrow> nat \<Rightarrow> nat \<Rightarrow> 64 word \<times> nat \<times> nat \<times> nat
     \<Rightarrow> (64 word \<times> nat \<times> nat \<times> nat) option" where
  "extract_bits_loop source start 0 idx st = Some st"
| "extract_bits_loop source start (Suc remaining) idx (result, pos, sz, offset) =
     (if start + idx < length source then
        (let result = result OR (ucast (source ! (start + idx)) AND drop_bit offset 255);
             diff = u32 (8 - int offset);
             pos = u32 (int pos + int diff);
             sz = u32 (int sz - int diff);
             result = push_bit (min sz 8) result;
             offset = pos mod 8
         in extract_bits_loop source start remaining (Suc idx) (result, pos, sz, offset))
      else None)"

definition extract_bits :: "8 word list \<Rightarrow> bitspan \<Rightarrow> 64 word option" where
  "extract_bits source bits =
     (let pos = span_pos bits;
          sz = span_size bits;
          offset = pos mod 8;
          count = u32 (int sz + int offset - 1) div 8;
          start = pos div 8
      in case extract_bits_loop source start count 0 (0, pos, sz, offset) of
           None \<Rightarrow> None
         | Some (result, pos, sz, offset) \<Rightarrow>
             (let span = u32 (8 - (int offset + int sz)) in
              if start + count < length source then
                (let last = ucast (source ! (start + count)) AND drop_bit offset (255 :: 64 word)
                 in Some (result OR drop_bit span last))
              else None))"

text \<open>Bit \<open>k\<close> of a byte range read as a big-endian bit stream: bit 0 is the most
  significant bit of byte 0.\<close>

definition stream_bit :: "8 word list \<Rightarrow> nat \<Rightarrow> bool" where
  "stream_bit source k \<longleftrightarrow> bit (source ! (k div 8)) (7 - k mod 8)"

text \<open>Modelled from the spec: the writer of the bit round-trip property, which the
  repository does not have. It writes the low \<open>w\<close> bits of \<open>v\<close> most significant bit
  first at stream positions \<open>p, ..., p + w - 1\<close> of a zeroed buffer of 64 bytes; bit \<open>b\<close>
  of byte \<open>i\<close> is stream position \<open>8 * i + (7 - b)\<close>.\<close>

definition write_bits :: "64 word \<Rightarrow> nat \<Rightarrow> nat \<Rightarrow> 8 word list" where
  "write_bits v p w =
     map (\<lambda>i. horner_sum of_bool 2
                (map (\<lambda>b. p \<le> 8 * i + (7 - b) \<and> 8 * i + (7 - b) < p + w
                            \<and> bit (v AND mask w) (p + w - 1 - (8 * i + (7 - b)))) [0..<8]))
       [0..<64]"

text \<open>What \<open>n\<close> byte-aligned iterations of the loop, started at byte \<open>a\<close> with
  accumulator \<open>r\<close> and \<open>sz\<close> bits still to read, leave in the accumulator \<open>R\<close>. Used in
  the proofs only.\<close>
definition acc_bits :: "8 word list \<Rightarrow> nat \<Rightarrow> nat \<Rightarrow> nat \<Rightarrow> 64 word \<Rightarrow> 64 word \<Rightarrow> bool" where
  "acc_bits src a n sz r R \<longleftrightarrow>
     (\<forall>j. bit R j \<longleftrightarrow>
        j < 64 \<and> min (sz - 8 * n) 8 \<le> j
        \<and> ((j - min (sz - 8 * n) 8 < 8 * n
               \<and> stream_bit src (8 * (a + n) - 1 - (j - min (sz - 8 * n) 8)))
            \<or> (8 * (n - 1) \<le> j - min (sz - 8 * n) 8
               \<and> bit r (j - min (sz - 8 * n) 8 - 8 * (n - 1)))))"

section \<open>Validation (validation-mode.h, validation-rules.h, string-scanning.h)\<close>

datatype validation_mode = config_file | config_message

text \<open>The arithmetic types a validator is instantiated with.\<close>

datatype int_type = T_bool | T_int8 | T_uint8 | T_int16 | T_uint16 | T_int32 | T_uint32

fun sizeof :: "int_type \<Rightarrow> nat" where
  "sizeof T_bool = 1"
| "sizeof T_int8 = 1"
| "sizeof T_uint8 = 1"
| "sizeof T_int16 = 2"
| "sizeof T_uint16 = 2"
| "sizeof T_int32 = 4"
| "sizeof T_uint32 = 4"

fun is_signed :: "int_type \<Rightarrow> bool" where
  "is_signed T_int8 = True"
| "is_signed T_int16 = True"
| "is_signed T_int32 = True"
| "is_signed _ = False"

text \<open>\<open>std::numeric_limits<T>::min()\<close> and \<open>max()\<close>; \<open>false\<close> is 0 and \<open>true\<close> is 1.\<close>

fun type_min :: "int_type \<Rightarrow> int" where
  "type_min T_int8 = - 128"
| "type_min T_int16 = - 32768"
| "type_min T_int32 = - 2147483648"
| "type_min _ = 0"

fun type_max :: "int_type \<Rightarrow> int" where
  "type_max T_bool = 1"
| "type_max T_int8 = 127"
| "type_max T_uint8 = 255"
| "type_max T_int16 = 32767"
| "type_max T_uint16 = 65535"
| "type_max T_int32 = 2147483647"
| "type_max T_uint32 = 4294967295"

text \<open>\<open>validate_result<T>\<close>: optional data and an optional validation error.\<close>

type_synonym 'a validate_result = "'a option \<times> validation_error option"

text \<open>\<open>validate_value_range<T>\<close>: the data member always holds the value, also when the
  value is outside the thresholds. Booleans are excluded from the range check.\<close>

definition validate_value_range :: "int_type \<Rightarrow> int \<Rightarrow> int \<Rightarrow> int \<Rightarrow> int validate_result" where
  "validate_value_range T v mn mx =
     (if T \<noteq> T_bool then
        (if v < mn then (Some v, Some below_min_threshold)
         else if v > mx then (Some v, Some above_max_threshold)
         else (Some v, None))
      else (Some v, None))"

text \<open>\<open>std::from_chars\<close> of the C++ standard library for base 10, which the repository
  only calls: an optional minus sign (signed types only) and the longest run of decimal
  digits are read from the front of the input. No digit gives \<open>invalid_argument\<close>, a
  value outside the type \<open>result_out_of_range\<close>; in both cases the output stays as it was
  (zero-initialised by the caller).\<close>

datatype errc = errc_none | invalid_argument | result_out_of_range

definition is_digit :: "char \<Rightarrow> bool" where
  "is_digit c \<longleftrightarrow> 48 \<le> (of_char c :: nat) \<and> (of_char c :: nat) \<le> 57"

definition digits_value :: "string \<Rightarrow> nat" where
  "digits_value ds = foldl (\<lambda>acc c. 10 * acc + (of_char c - 48)) 0 ds"

definition from_chars :: "int_type \<Rightarrow> string \<Rightarrow> int \<times> errc" where
  "from_chars T input =
     (let negative = (is_signed T \<and> input \<noteq> [] \<and> hd input = CHR ''-'');
          ds = takeWhile is_digit (if negative then tl input else input);
          v = (if negative then - int (digits_value ds) else int (digits_value ds))
      in if ds = [] then (0, invalid_argument)
         else if v < type_min T \<or> type_max T < v then (0, result_out_of_range)
         else (v, errc_none))"

text \<open>\<open>validate_value<T>\<close>: the value of a string. A boolean is read as a
  \<open>std::uint8_t\<close> that must not exceed 1.\<close>

definition validate_value :: "int_type \<Rightarrow> string \<Rightarrow> int \<Rightarrow> int \<Rightarrow> int validate_result" where
  "validate_value T v mn mx =
     (if v = [] then (None, Some missing_value)
      else (let (result, error) = from_chars (if T = T_bool then T_uint8 else T) v in
            if error = invalid_argument then (None, Some contains_invalid_character)
            else if error = result_out_of_range then (None, Some out_of_type_range)
            else if T = T_bool \<and> result > 1 then (None, Some out_of_type_range)
            else validate_value_range T result mn mx))"

text \<open>\<open>contains_special_character\<close> with its default exceptions \<open>()-_\<close>; \<open>std::isalnum\<close>
  in the "C" locale.\<close>

definition is_alnum :: "char \<Rightarrow> bool" where
  "is_alnum c \<longleftrightarrow> (let n = (of_char c :: nat) in
     (48 \<le> n \<and> n \<le> 57) \<or> (65 \<le> n \<and> n \<le> 90) \<or> (97 \<le> n \<and> n \<le> 122))"

definition contains_special_character :: "string \<Rightarrow> bool" where
  "contains_special_character source \<longleftrightarrow>
     \<not> list_all (\<lambda>c. is_alnum c \<or> c \<in> set ''()-_'') source"

definition validate_name :: "string \<Rightarrow> string validate_result" where
  "validate_name name =
     (if name = [] then (None, Some missing_value)
      else if contains_special_character name then (None, Some contains_invalid_character)
      else (Some name, None))"

text \<open>The enumeration \<open>USB_DETECTION\<close> belongs to the framework header, which is not part
  of the repository. Its underlying values are a parameter, \<open>usb\<close>.\<close>

datatype USB_DETECTION = ON | OFF | INTERVAL

definition validate_usb :: "(USB_DETECTION \<Rightarrow> int) \<Rightarrow> string \<Rightarrow> int validate_result" where
  "validate_usb usb option_arg =
     (if option_arg = [] then (None, Some missing_value)
      else if option_arg = ''on'' then (Some (usb ON), None)
      else if option_arg = ''interval'' then (Some (usb INTERVAL), None)
      else if option_arg = ''off'' then (Some (usb OFF), None)
      else (None, Some invalid_option))"

text \<open>\<open>convert_bits<T>\<close> of bitwise.h: a view longer than \<open>T\<close> gives \<open>T{}\<close>; otherwise
  the bytes of the view are copied to the front of a zero-initialised \<open>T\<close>. The value of
  the object is read in the byte order of the target, little-endian; a boolean is true
  when its byte is not zero.\<close>

definition le_bytes_value :: "string \<Rightarrow> nat" where
  "le_bytes_value bytes = foldr (\<lambda>c acc. of_char c + 256 * acc) bytes 0"

definition object_value :: "int_type \<Rightarrow> nat \<Rightarrow> int" where
  "object_value T n =
     (if T = T_bool then (if n = 0 then 0 else 1)
      else if is_signed T \<and> 2 ^ (8 * sizeof T - 1) \<le> n then int n - 2 ^ (8 * sizeof T)
      else int n)"

definition convert_bits :: "int_type \<Rightarrow> string \<Rightarrow> int" where
  "convert_bits T v =
     (if sizeof T < length v then 0 else object_value T (le_bytes_value v))"

section \<open>Setting identifiers (default-setting-ids.h)\<close>

text \<open>The enumeration \<open>setting_identifier\<close>, its members prefixed with \<open>id_\<close>, and
  \<open>to_underlying\<close> on it.\<close>

datatype setting_identifier =
    id_unspecified
  | id_device_name
  | id_usb_detection
  | id_usb_interval_ms
  | id_time_trigger_enabled
  | id_time_trigger_interval
  | id_time_trigger_thp
  | id_time_trigger_acc_gyro
  | id_time_trigger_magnetometer
  | id_time_trigger_light_intensity
  | id_time_trigger_lora_priority
  | id_time_trigger_write_to_lora
  | id_time_trigger_write_to_sd
  | id_light_trigger_enabled
  | id_light_trigger_low_threshold
  | id_light_trigger_high_threshold
  | id_light_trigger_thp
  | id_light_trigger_acc_gyro
  | id_light_trigger_magnetometer
  | id_light_trigger_light_intensity
  | id_light_trigger_lora_priority
  | id_light_trigger_write_to_lora
  | id_light_trigger_write_to_sd
  | id_acceleration_trigger_enabled
  | id_acceleration_trigger_thp
  | id_acceleration_trigger_acc_gyro
  | id_acceleration_trigger_magnetometer
  | id_acceleration_trigger_light_intensity
  | id_acceleration_trigger_lora_priority
  | id_acceleration_trigger_write_to_lora
  | id_acceleration_trigger_write_to_sd
  | id_orientation_trigger_enabled
  | id_orientation_trigger_thp
  | id_orientation_trigger_acc_gyro
  | id_orientation_trigger_magnetometer
  | id_orientation_trigger_light_intensity
  | id_orientation_trigger_lora_priority
  | id_orientation_trigger_write_to_lora
  | id_orientation_trigger_write_to_sd

fun setting_underlying :: "setting_identifier \<Rightarrow> int" where
  "setting_underlying id_unspecified = 0"
| "setting_underlying id_device_name = 1"
| "setting_underlying id_usb_detection = 2"
| "setting_underlying id_usb_interval_ms = 3"
| "setting_underlying id_time_trigger_enabled = 4"
| "setting_underlying id_time_trigger_interval = 5"
| "setting_underlying id_time_trigger_thp = 6"
| "setting_underlying id_time_trigger_acc_gyro = 7"
| "setting_underlying id_time_trigger_magnetometer = 8"
| "setting_underlying id_time_trigger_light_intensity = 9"
| "setting_underlying id_time_trigger_lora_priority = 10"
| "setting_underlying id_time_trigger_write_to_lora = 11"
| "setting_underlying id_time_trigger_write_to_sd = 12"
| "setting_underlying id_light_trigger_enabled = 13"
| "setting_underlying id_light_trigger_low_threshold = 14"
| "setting_underlying id_light_trigger_high_threshold = 15"
| "setting_underlying id_light_trigger_thp = 16"
| "setting_underlying id_light_trigger_acc_gyro = 17"
| "setting_underlying id_light_trigger_magnetometer = 18"
| "setting_underlying id_light_trigger_light_intensity = 19"
| "setting_underlying id_light_trigger_lora_priority = 20"
| "setting_underlying id_light_trigger_write_to_lora = 21"
| "setting_underlying id_light_trigger_write_to_sd = 22"
| "setting_underlying id_acceleration_trigger_enabled = 23"
| "setting_underlying id_acceleration_trigger_thp = 24"
| "setting_underlying id_acceleration_trigger_acc_gyro = 25"
| "setting_underlying id_acceleration_trigger_magnetometer = 26"
| "setting_underlying id_acceleration_trigger_light_intensity = 27"
| "setting_underlying id_acceleration_trigger_lora_priority = 28"
| "setting_underlying id_acceleration_trigger_write_to_lora = 29"
| "setting_underlying id_acceleration_trigger_write_to_sd = 30"
| "setting_underlying id_orientation_trigger_enabled = 31"
| "setting_underlying id_orientation_trigger_thp = 32"
| "setting_underlying id_orientation_trigger_acc_gyro = 33"
| "setting_underlying id_orientation_trigger_magnetometer = 34"
| "setting_underlying id_orientation_trigger_light_intensity = 35"
| "setting_underlying id_orientation_trigger_lora_priority = 36"
| "setting_underlying id_orientation_trigger_write_to_lora = 37"
| "setting_underlying id_orientation_trigger_write_to_sd = 38"

section \<open>Main configuration (main-config.h)\<close>

text \<open>The members of the framework configuration that the default settings and the
  default verification rules read or write. The structure itself is declared in a header
  of the framework, outside the repository; numbers are kept as their values. The member
  \<open>light\<close> of \<open>measure\<close> is \<open>light_intensity\<close> here, to tell it from the light trigger.\<close>

record measure_config =
  thp :: bool
  accel_gyro :: bool
  magnet :: bool
  light_intensity :: bool

record write_to_config =
  lora :: bool
  sd :: bool

record trigger_config =
  enable :: bool
  measure :: measure_config
  lorawan_priority :: int
  write_to :: write_to_config

record time_trigger_config = trigger_config +
  interval_ms :: int

record light_trigger_config = trigger_config +
  low_threshold :: int
  high_threshold :: int

record trigger_set =
  time :: time_trigger_config
  light :: light_trigger_config
  acceleration :: trigger_config
  orientation :: trigger_config

record bme280_config =
  measure_temperature :: bool
  measure_humidity :: bool
  measure_pressure :: bool

record bmx160_config =
  measure_accelerometer :: bool
  measure_gyroscope :: bool
  measure_magnetometer :: bool

record veml6030_config =
  measure_light :: bool

record framework_config =
  usb_detection :: int
  usb_detection_interval_ms :: int
  bme280 :: bme280_config
  bmx160 :: bmx160_config
  veml6030 :: veml6030_config
  trigger :: trigger_set

record main_config =
  device_name :: string
  framework :: framework_config

text \<open>The constructor \<open>main_configuration()\<close>, for the members above. The device name it
  writes is the hexadecimal form of \<open>LORAWAN_DEVICE_EUI_D\<close>, a constant of the LoRaWAN
  headers: the resulting contents of the name buffer are a parameter.\<close>

definition main_configuration :: "(USB_DETECTION \<Rightarrow> int) \<Rightarrow> string \<Rightarrow> main_config" where
  "main_configuration usb name =
     \<lparr>device_name = name,
      framework =
        \<lparr>usb_detection = usb INTERVAL,
         usb_detection_interval_ms = 10000,
         bme280 = \<lparr>measure_temperature = False, measure_humidity = False,
                    measure_pressure = False\<rparr>,
         bmx160 = \<lparr>measure_accelerometer = False, measure_gyroscope = False,
                    measure_magnetometer = False\<rparr>,
         veml6030 = \<lparr>measure_light = False\<rparr>,
         trigger =
           \<lparr>time = \<lparr>enable = True,
                     measure = \<lparr>thp = True, accel_gyro = True, magnet = True,
                                 light_intensity = True\<rparr>,
                     lorawan_priority = 4,
                     write_to = \<lparr>lora = True, sd = True\<rparr>,
                     interval_ms = 20000\<rparr>,
            light = \<lparr>enable = True,
                      measure = \<lparr>thp = True, accel_gyro = True, magnet = True,
                                  light_intensity = True\<rparr>,
                      lorawan_priority = 4,
                      write_to = \<lparr>lora = True, sd = True\<rparr>,
                      low_threshold = 1000,
                      high_threshold = 20000\<rparr>,
            acceleration = \<lparr>enable = True,
                             measure = \<lparr>thp = True, accel_gyro = True, magnet = True,
                                         light_intensity = True\<rparr>,
                             lorawan_priority = 4,
                             write_to = \<lparr>lora = True, sd = True\<rparr>\<rparr>,
            orientation = \<lparr>enable = True,
                            measure = \<lparr>thp = True, accel_gyro = True, magnet = True,
                                        light_intensity = True\<rparr>,
                            lorawan_priority = 4,
                            write_to = \<lparr>lora = True, sd = True\<rparr>\<rparr>\<rparr>\<rparr>\<rparr>"

section \<open>Algorithms (algorithm.h)\<close>

text \<open>\<open>copy_n\<close>, \<open>zcopy_n\<close> and \<open>zcopy_max\<close> on a destination array given by its
  contents. Writing past the end of the destination is undefined.\<close>

definition copy_n :: "'a list \<Rightarrow> nat \<Rightarrow> 'a list \<Rightarrow> 'a list option" where
  "copy_n source count dest =
     (if count \<le> length source \<and> count \<le> length dest
      then Some (take count source @ drop count dest) else None)"

definition zcopy_n :: "char list \<Rightarrow> nat \<Rightarrow> char list \<Rightarrow> char list option" where
  "zcopy_n source count dest =
     (if 0 < count then
        (case copy_n source (count - 1) dest of
           None \<Rightarrow> None
         | Some d \<Rightarrow> if count - 1 < length d then Some (d[count - 1 := CHR 0x00]) else None)
      else Some dest)"

definition zcopy_max :: "char list \<Rightarrow> nat \<Rightarrow> char list \<Rightarrow> char list option" where
  "zcopy_max source count dest =
     (let count_max = min (length source + 1) count in zcopy_n source count_max dest)"

text \<open>\<open>fill_n\<close> on a container: the first \<open>count\<close> elements receive the value.\<close>

definition fill_n :: "'a list \<Rightarrow> nat \<Rightarrow> 'a \<Rightarrow> 'a list option" where
  "fill_n result count v =
     (if count \<le> length result then Some (replicate count v @ drop count result) else None)"

section \<open>Settings (setting.h)\<close>

datatype setting_type = required | optional

text \<open>The union \<open>setting_data\<close> with its active member. Reading another member than the
  active one is undefined.\<close>

datatype setting_data =
    SD_string string
  | SD_int32 int
  | SD_uint32 int
  | SD_int16 int
  | SD_uint16 int
  | SD_int8 int
  | SD_uint8 int
  | SD_flag bool

fun data_string :: "setting_data \<Rightarrow> string option" where
  "data_string (SD_string v) = Some v" | "data_string _ = None"
fun data_int32 :: "setting_data \<Rightarrow> int option" where
  "data_int32 (SD_int32 v) = Some v" | "data_int32 _ = None"
fun data_uint32 :: "setting_data \<Rightarrow> int option" where
  "data_uint32 (SD_uint32 v) = Some v" | "data_uint32 _ = None"
fun data_uint16 :: "setting_data \<Rightarrow> int option" where
  "data_uint16 (SD_uint16 v) = Some v" | "data_uint16 _ = None"
fun data_int8 :: "setting_data \<Rightarrow> int option" where
  "data_int8 (SD_int8 v) = Some v" | "data_int8 _ = None"
fun data_flag :: "setting_data \<Rightarrow> bool option" where
  "data_flag (SD_flag v) = Some v" | "data_flag _ = None"

text \<open>The constructor of \<open>setting_data\<close> that a value of type \<open>T\<close> selects.\<close>

fun to_setting_data :: "int_type \<Rightarrow> int \<Rightarrow> setting_data" where
  "to_setting_data T_bool v = SD_flag (v \<noteq> 0)"
| "to_setting_data T_int8 v = SD_int8 v"
| "to_setting_data T_uint8 v = SD_uint8 v"
| "to_setting_data T_int16 v = SD_int16 v"
| "to_setting_data T_uint16 v = SD_uint16 v"
| "to_setting_data T_int32 v = SD_int32 v"
| "to_setting_data T_uint32 v = SD_uint32 v"

text \<open>A setting. \<open>value\<close> is the buffer of 32 bytes, \<open>value_size\<close> the length of
  \<open>value_view\<close>, which is empty until a value is set and views the front of the buffer
  afterwards. \<open>tags\<close> holds the tag names as \<open>char const*\<close>, \<open>None\<close> for a null pointer.
  The members \<open>id_\<close> and \<open>type_\<close> are \<open>ident\<close> and \<open>stype\<close>.\<close>

definition max_value_size :: nat where "max_value_size = 32"

record setting =
  "value" :: string
  tags :: "string option list"
  cache :: "setting_data option"
  value_size :: nat
  ident :: setting_identifier
  validator_fn :: "string \<Rightarrow> validation_mode \<Rightarrow> setting_data validate_result"
  action_fn :: "setting_data \<Rightarrow> main_config \<Rightarrow> main_config option"
  cfg_bits :: bitspan
  stype :: setting_type

definition view_value :: "setting \<Rightarrow> string" where
  "view_value s = take (value_size s) (value s)"

definition is_set :: "setting \<Rightarrow> bool" where
  "is_set s \<longleftrightarrow> view_value s \<noteq> []"

definition is_tag_empty :: "setting \<Rightarrow> nat \<Rightarrow> bool" where
  "is_tag_empty s index \<longleftrightarrow> tags s ! index = None"

text \<open>The constructors: the full one, the one for a required setting, and the one without
  a bit span. The value buffer starts zeroed, the view empty, the cache empty.\<close>

definition make_setting ::
  "setting_identifier \<Rightarrow> string option list \<Rightarrow> setting_type \<Rightarrow> bitspan
     \<Rightarrow> (string \<Rightarrow> validation_mode \<Rightarrow> setting_data validate_result)
     \<Rightarrow> (setting_data \<Rightarrow> main_config \<Rightarrow> main_config option) \<Rightarrow> setting" where
  "make_setting i tgs ty bits validator action =
     \<lparr>value = replicate max_value_size (CHR 0x00), tags = tgs, cache = None, value_size = 0,
      ident = i, validator_fn = validator, action_fn = action, cfg_bits = bits, stype = ty\<rparr>"

definition required_setting ::
  "setting_identifier \<Rightarrow> string option list \<Rightarrow> bitspan
     \<Rightarrow> (string \<Rightarrow> validation_mode \<Rightarrow> setting_data validate_result)
     \<Rightarrow> (setting_data \<Rightarrow> main_config \<Rightarrow> main_config option) \<Rightarrow> setting" where
  "required_setting i tgs bits validator action = make_setting i tgs required bits validator action"

definition file_only_setting ::
  "setting_identifier \<Rightarrow> string option list \<Rightarrow> setting_type
     \<Rightarrow> (string \<Rightarrow> validation_mode \<Rightarrow> setting_data validate_result)
     \<Rightarrow> (setting_data \<Rightarrow> main_config \<Rightarrow> main_config option) \<Rightarrow> setting" where
  "file_only_setting i tgs ty validator action =
     make_setting i tgs ty default_bitspan validator action"

text \<open>\<open>set_value(std::string_view)\<close>: at most 32 characters are copied.\<close>

definition set_value :: "string \<Rightarrow> setting \<Rightarrow> setting" where
  "set_value content s =
     (let n = min (length content) max_value_size
      in s\<lparr>value := take n content @ drop n (value s), value_size := n\<rparr>)"

text \<open>\<open>set_value(std::uint_fast64_t)\<close>: the eight bytes of the integer, in the byte order
  of the target (little-endian), and a view of \<open>sizeof(content) = 8\<close> characters.\<close>

definition u64_bytes :: "64 word \<Rightarrow> string" where
  "u64_bytes content = map (\<lambda>i. char_of (unat (drop_bit (8 * i) content))) [0..<8]"

definition set_value_u64 :: "64 word \<Rightarrow> setting \<Rightarrow> setting" where
  "set_value_u64 content s =
     s\<lparr>value := u64_bytes content @ drop 8 (value s), value_size := 8\<rparr>"

text \<open>\<open>setting::validate\<close>: an unset value gives \<open>setting_unset\<close> and leaves the cache
  alone; otherwise the data of the validator's result goes to the cache and its status is
  returned. The cache is \<open>mutable\<close>, so the setting is returned with it.\<close>

definition setting_validate :: "validation_mode \<Rightarrow> setting \<Rightarrow> setting \<times> validation_error option" where
  "setting_validate mode s =
     (if \<not> is_set s then (s, Some setting_unset)
      else (let (data, status) = validator_fn s (view_value s) mode
            in (s\<lparr>cache := data\<rparr>, status)))"

text \<open>\<open>setting::apply\<close>: \<open>action_fn(*cache, config)\<close>. Dereferencing an empty cache is
  undefined.\<close>

definition setting_apply :: "setting \<Rightarrow> main_config \<Rightarrow> main_config option" where
  "setting_apply s config =
     (case cache s of None \<Rightarrow> None | Some data \<Rightarrow> action_fn s data config)"

section \<open>Validator dispatch (setting-validators.h)\<close>

definition convert_result :: "('a \<Rightarrow> setting_data) \<Rightarrow> 'a validate_result \<Rightarrow> setting_data validate_result" where
  "convert_result f r = (map_option f (fst r), snd r)"

text \<open>\<open>invoke_validator\<close>: the file action for \<open>config_file\<close>, the message action for
  \<open>config_message\<close>.\<close>

definition invoke_validator :: "validation_mode \<Rightarrow> 'a \<Rightarrow> 'a \<Rightarrow> 'a" where
  "invoke_validator mode file_action message_action =
     (case mode of config_file \<Rightarrow> file_action | config_message \<Rightarrow> message_action)"

text \<open>\<open>validate<T, MinMax...>\<close>: \<open>minmax\<close> holds the zero, one or two template arguments
  after \<open>T\<close>; a missing threshold is the limit of the type.\<close>

definition validate :: "int_type \<Rightarrow> int list \<Rightarrow> string \<Rightarrow> validation_mode \<Rightarrow> setting_data validate_result" where
  "validate T minmax v mode =
     (let mn = (if 0 < length minmax then minmax ! 0 else type_min T);
          mx = (if 1 < length minmax then minmax ! 1 else type_max T)
      in convert_result (to_setting_data T)
           (invoke_validator mode
              (validate_value T v mn mx)
              (validate_value_range T (convert_bits T v) mn mx)))"

text \<open>\<open>dispatch_validator<Validator>\<close> for \<open>validate_name\<close> and for \<open>validate_usb\<close>: the
  mode is discarded.\<close>

definition dispatch_validate_name :: "string \<Rightarrow> validation_mode \<Rightarrow> setting_data validate_result" where
  "dispatch_validate_name v mode = convert_result SD_string (validate_name v)"

definition dispatch_validate_usb ::
  "(USB_DETECTION \<Rightarrow> int) \<Rightarrow> string \<Rightarrow> validation_mode \<Rightarrow> setting_data validate_result" where
  "dispatch_validate_usb usb v mode = convert_result SD_int32 (validate_usb usb v)"

section \<open>File pointer (file-pointer.h)\<close>

text \<open>\<open>file_ptr = file_pointer<int>\<close>: a column and a line number, both starting at 1.\<close>

record file_ptr =
  col_nr :: int
  line_nr :: int

definition begin_pos :: int where "begin_pos = 1"

definition new_file_ptr :: file_ptr where
  "new_file_ptr = \<lparr>col_nr = begin_pos, line_nr = begin_pos\<rparr>"

definition next_column :: "file_ptr \<Rightarrow> file_ptr" where
  "next_column p = p\<lparr>col_nr := col_nr p + 1\<rparr>"

definition next_line :: "file_ptr \<Rightarrow> file_ptr" where
  "next_line p = (p\<lparr>line_nr := line_nr p + 1\<rparr>)\<lparr>col_nr := begin_pos\<rparr>"

definition reset_file_ptr :: "file_ptr \<Rightarrow> file_ptr" where
  "reset_file_ptr p = (p\<lparr>col_nr := begin_pos\<rparr>)\<lparr>line_nr := begin_pos\<rparr>"

section \<open>Error handler (error-handler.h)\<close>

text \<open>\<open>error_handler<MaxErrors>\<close>: the array \<open>errors\<close> of \<open>MaxErrors\<close> codes and the
  iterator \<open>top_error\<close>, kept as its distance from \<open>errors.begin()\<close>. A freshly constructed
  handler holds zero-initialised codes and \<open>top_error = errors.begin()\<close>.

  A function that can run into undefined behaviour of the C++ abstract machine (a write
  or read outside an array, dereferencing an empty \<open>std::optional\<close>, reading an inactive
  union member) returns an \<open>option\<close>: \<open>None\<close> stands for the undefined behaviour.\<close>

record error_handler =
  errors :: "code list"
  top_error :: nat

definition new_error_handler :: "nat \<Rightarrow> error_handler" where
  "new_error_handler max_errors = \<lparr>errors = replicate max_errors 0, top_error = 0\<rparr>"

definition error_capacity :: "error_handler \<Rightarrow> nat" where
  "error_capacity h = length (errors h)"

definition error_count :: "error_handler \<Rightarrow> nat" where
  "error_count h = top_error h"

definition contains_errors :: "error_handler \<Rightarrow> bool" where
  "contains_errors h \<longleftrightarrow> top_error h \<noteq> 0"

definition is_error_limit_reached :: "error_handler \<Rightarrow> bool" where
  "is_error_limit_reached h \<longleftrightarrow> top_error h = length (errors h)"

definition clear_errors :: "error_handler \<Rightarrow> error_handler" where
  "clear_errors h = h\<lparr>top_error := 0\<rparr>"

text \<open>\<open>add_error(error::code)\<close>: \<open>*top_error = error_code\<close> comes first, the test for
  the limit second, the increment last. The write is inside the array only while
  \<open>top_error\<close> is not \<open>errors.end()\<close>.\<close>

definition add_error :: "code \<Rightarrow> error_handler \<Rightarrow> error_handler option" where
  "add_error error_code h =
     (if top_error h < length (errors h) then
        (let h1 = h\<lparr>errors := (errors h)[top_error h := error_code]\<rparr>
         in if is_error_limit_reached h1 then Some h1
            else Some (h1\<lparr>top_error := Suc (top_error h1)\<rparr>))
      else None)"

text \<open>\<open>add_error(parsing_error, T data)\<close>.\<close>

definition add_parsing_error :: "parsing_error \<Rightarrow> 32 word \<Rightarrow> error_handler \<Rightarrow> error_handler option" where
  "add_parsing_error error_id error_data h = add_error (code_parsing error_id error_data) h"

text \<open>\<open>add_error(parsing_error, file_ptr)\<close>: the column goes to the high 12 data bits, the
  line to the low 12.\<close>

definition code_at :: "parsing_error \<Rightarrow> file_ptr \<Rightarrow> code" where
  "code_at error_id pos =
     (let error_code = code_ctor (category_underlying cat_parsing) (parsing_underlying error_id);
          error_code = data_segment_assign data_mask_half data_size_half
                         (word_of_int (col_nr pos)) error_code;
          error_code = data_segment_assign data_mask_half 0 (word_of_int (line_nr pos)) error_code
      in error_code)"

definition add_parsing_error_at :: "parsing_error \<Rightarrow> file_ptr \<Rightarrow> error_handler \<Rightarrow> error_handler option" where
  "add_parsing_error_at error_id pos h = add_error (code_at error_id pos) h"

text \<open>\<open>add_error(ErrorType, Identifier)\<close> for validation and verification errors, with
  the identifier already converted by \<open>to_underlying\<close>.\<close>

definition add_validation_error :: "validation_error \<Rightarrow> 32 word \<Rightarrow> error_handler \<Rightarrow> error_handler option" where
  "add_validation_error error_id identifier h = add_error (code_validation error_id identifier) h"

definition add_verification_error :: "verification_error \<Rightarrow> 32 word \<Rightarrow> error_handler \<Rightarrow> error_handler option" where
  "add_verification_error error_id identifier h = add_error (code_verification error_id identifier) h"

text \<open>The codes a handler holds: the range \<open>[errors.begin(), top_error)\<close>.\<close>

definition stored_errors :: "error_handler \<Rightarrow> code list" where
  "stored_errors h = take (top_error h) (errors h)"

text \<open>A sequence of \<open>add_error\<close> calls, in order.\<close>

fun add_errors :: "code list \<Rightarrow> error_handler \<Rightarrow> error_handler option" where
  "add_errors [] h = Some h"
| "add_errors (c # cs) h = (case add_error c h of None \<Rightarrow> None | Some h1 \<Rightarrow> add_errors cs h1)"

section \<open>Tag paths (node.h)\<close>

text \<open>\<open>node_sz<Depth>\<close>: a path of tag names. \<open>node_child\<close> is \<open>operator/\<close> with a tag;
  \<open>node_resize\<close> is the converting constructor, which cuts the path on the right or fills
  it with null pointers.\<close>

definition node :: "string \<Rightarrow> string option list" where
  "node tag = [Some tag]"

definition node_child :: "string option list \<Rightarrow> string \<Rightarrow> string option list" where
  "node_child parent tag = parent @ [Some tag]"

definition node_resize :: "nat \<Rightarrow> string option list \<Rightarrow> string option list" where
  "node_resize depth other = take depth other @ replicate (depth - length other) None"

text \<open>\<open>make_settings\<close>: every setting is copied to the greatest tag depth.\<close>

definition make_settings :: "setting list \<Rightarrow> setting list" where
  "make_settings settings =
     (let depth = foldr max (map (\<lambda>s. length (tags s)) settings) 0
      in map (\<lambda>s. s\<lparr>tags := node_resize depth (tags s)\<rparr>) settings)"

section \<open>Default settings (default-settings.h)\<close>

text \<open>Assignment to one member of the configuration, by its access path.\<close>

definition upd_trigger :: "(trigger_set \<Rightarrow> trigger_set) \<Rightarrow> main_config \<Rightarrow> main_config" where
  "upd_trigger f = framework_update (trigger_update f)"

definition upd_time :: "(time_trigger_config \<Rightarrow> time_trigger_config) \<Rightarrow> main_config \<Rightarrow> main_config" where
  "upd_time f = upd_trigger (time_update f)"

definition upd_light :: "(light_trigger_config \<Rightarrow> light_trigger_config) \<Rightarrow> main_config \<Rightarrow> main_config" where
  "upd_light f = upd_trigger (light_update f)"

definition upd_acceleration :: "(trigger_config \<Rightarrow> trigger_config) \<Rightarrow> main_config \<Rightarrow> main_config" where
  "upd_acceleration f = upd_trigger (acceleration_update f)"

definition upd_orientation :: "(trigger_config \<Rightarrow> trigger_config) \<Rightarrow> main_config \<Rightarrow> main_config" where
  "upd_orientation f = upd_trigger (orientation_update f)"

definition upd_bme280 :: "(bme280_config \<Rightarrow> bme280_config) \<Rightarrow> main_config \<Rightarrow> main_config" where
  "upd_bme280 f = framework_update (bme280_update f)"

definition upd_bmx160 :: "(bmx160_config \<Rightarrow> bmx160_config) \<Rightarrow> main_config \<Rightarrow> main_config" where
  "upd_bmx160 f = framework_update (bmx160_update f)"

definition upd_veml6030 :: "(veml6030_config \<Rightarrow> veml6030_config) \<Rightarrow> main_config \<Rightarrow> main_config" where
  "upd_veml6030 f = framework_update (veml6030_update f)"

text \<open>\<open>bitspan::make<Pos, Size>\<close> as used by the default settings, whose spans all
  satisfy the constraints of the constructor.\<close>

definition bitspan_make :: "nat \<Rightarrow> nat \<Rightarrow> bitspan" where
  "bitspan_make p sz = \<lparr>span_pos = p, span_size = sz\<rparr>"

definition aether_node :: "string option list" where "aether_node = node ''aether''"
definition properties_node :: "string option list" where
  "properties_node = node_child aether_node ''properties''"
definition usb_node :: "string option list" where "usb_node = node_child aether_node ''usb''"
definition trigger_node :: "string option list" where
  "trigger_node = node_child aether_node ''trigger''"
definition time_node :: "string option list" where
  "time_node = node_child trigger_node ''time''"
definition time_sensors :: "string option list" where
  "time_sensors = node_child time_node ''activate-sensors''"
definition light_node :: "string option list" where
  "light_node = node_child trigger_node ''light''"
definition light_sensors :: "string option list" where
  "light_sensors = node_child light_node ''activate-sensors''"
definition acceleration_node :: "string option list" where
  "acceleration_node = node_child trigger_node ''acceleration''"
definition accel_sensors :: "string option list" where
  "accel_sensors = node_child acceleration_node ''activate-sensors''"
definition orientation_node :: "string option list" where
  "orientation_node = node_child trigger_node ''orientation''"
definition orien_sensors :: "string option list" where
  "orien_sensors = node_child orientation_node ''activate-sensors''"

text \<open>\<open>get_default_settings\<close>, in the order of the source. \<open>usb\<close> gives the underlying
  values of \<open>USB_DETECTION\<close>.\<close>

definition default_settings_list :: "(USB_DETECTION \<Rightarrow> int) \<Rightarrow> setting list" where
  "default_settings_list usb =
    [file_only_setting id_device_name
       (node_child properties_node ''name'') optional
       dispatch_validate_name
       (\<lambda>data config. case data_string data of None \<Rightarrow> None
          | Some v \<Rightarrow>
              (case zcopy_max v (length (device_name config)) (device_name config) of
                 None \<Rightarrow> None
               | Some d \<Rightarrow> Some (config\<lparr>device_name := d\<rparr>))),
     required_setting id_usb_detection
       (node_child usb_node ''detection'')
       (bitspan_make 24 2)
       (dispatch_validate_usb usb)
       (\<lambda>data config. case data_int32 data of None \<Rightarrow> None
          | Some v \<Rightarrow> Some (framework_update (usb_detection_update (\<lambda>_. v)) config)),
     required_setting id_usb_interval_ms
       (node_child usb_node ''detection-interval-ms'')
       (bitspan_make 32 32)
       (validate T_uint32 [1000])
       (\<lambda>data config. case data_uint32 data of None \<Rightarrow> None
          | Some v \<Rightarrow> Some (framework_update (usb_detection_interval_ms_update (\<lambda>_. v)) config)),
     required_setting id_time_trigger_enabled
       (node_child time_node ''enabled'')
       (bitspan_make 26 1)
       (validate T_bool [])
       (\<lambda>data config. case data_flag data of None \<Rightarrow> None
          | Some v \<Rightarrow> Some (upd_time (enable_update (\<lambda>_. v)) config)),
     required_setting id_time_trigger_interval
       (node_child time_node ''interval-ms'')
       (bitspan_make 64 32)
       (validate T_uint32 [1000])
       (\<lambda>data config. case data_uint32 data of None \<Rightarrow> None
          | Some v \<Rightarrow> Some (upd_time (interval_ms_update (\<lambda>_. v)) config)),
     required_setting id_time_trigger_thp
       (node_child time_sensors ''thp'')
       (bitspan_make 8 1)
       (validate T_bool [])
       (\<lambda>data config.
          if enable (time (trigger (framework config))) then
            (case data_flag data of None \<Rightarrow> None
             | Some v \<Rightarrow> Some (upd_time (measure_update (thp_update (\<lambda>_. v))) (upd_bme280 (measure_pressure_update (\<lambda>_. v)) (upd_bme280 (measure_humidity_update (\<lambda>_. v)) (upd_bme280 (measure_temperature_update (\<lambda>_. v)) (config))))))
          else Some (upd_time (measure_update (thp_update (\<lambda>_. False))) (upd_bme280 (measure_pressure_update (\<lambda>_. False)) (upd_bme280 (measure_humidity_update (\<lambda>_. False)) (upd_bme280 (measure_temperature_update (\<lambda>_. False)) (config)))))),
     required_setting id_time_trigger_acc_gyro
       (node_child time_sensors ''accel-gyro'')
       (bitspan_make 9 1)
       (validate T_bool [])
       (\<lambda>data config.
          if enable (time (trigger (framework config))) then
            (case data_flag data of None \<Rightarrow> None
             | Some v \<Rightarrow> Some (upd_time (measure_update (accel_gyro_update (\<lambda>_. v))) (upd_bmx160 (measure_gyroscope_update (\<lambda>_. v)) (upd_bmx160 (measure_accelerometer_update (\<lambda>_. v)) (config)))))
          else Some (upd_time (measure_update (accel_gyro_update (\<lambda>_. False))) (upd_bmx160 (measure_gyroscope_update (\<lambda>_. False)) (upd_bmx160 (measure_accelerometer_update (\<lambda>_. False)) (config))))),
     required_setting id_time_trigger_magnetometer
       (node_child time_sensors ''magnet'')
       (bitspan_make 10 1)
       (validate T_bool [])
       (\<lambda>data config.
          if enable (time (trigger (framework config))) then
            (case data_flag data of None \<Rightarrow> None
             | Some v \<Rightarrow> Some (upd_time (measure_update (magnet_update (\<lambda>_. v))) (upd_bmx160 (measure_magnetometer_update (\<lambda>_. v)) (config))))
          else Some (upd_time (measure_update (magnet_update (\<lambda>_. False))) (upd_bmx160 (measure_magnetometer_update (\<lambda>_. False)) (config)))),
     required_setting id_time_trigger_light_intensity
       (node_child time_sensors ''light'')
       (bitspan_make 11 1)
       (validate T_bool [])
       (\<lambda>data config.
          if enable (time (trigger (framework config))) then
            (case data_flag data of None \<Rightarrow> None
             | Some v \<Rightarrow> Some (upd_time (measure_update (light_intensity_update (\<lambda>_. v))) (upd_veml6030 (measure_light_update (\<lambda>_. v)) (config))))
          else Some (upd_time (measure_update (light_intensity_update (\<lambda>_. False))) (upd_veml6030 (measure_light_update (\<lambda>_. False)) (config)))),
     required_setting id_time_trigger_lora_priority
       (node_child (node_child time_node ''write-to'') ''lorawan-priority'')
       (bitspan_make 128 2)
       (validate T_int8 [0, 3])
       (\<lambda>data config. case data_int8 data of None \<Rightarrow> None
          | Some v \<Rightarrow> Some (upd_time (lorawan_priority_update (\<lambda>_. v)) config)),
     required_setting id_time_trigger_write_to_lora
       (node_child (node_child time_node ''write-to'') ''lora'')
       (bitspan_make 130 1)
       (validate T_bool [])
       (\<lambda>data config. case data_flag data of None \<Rightarrow> None
          | Some v \<Rightarrow> Some (upd_time (write_to_update (lora_update (\<lambda>_. v))) config)),
     required_setting id_time_trigger_write_to_sd
       (node_child (node_child time_node ''write-to'') ''sd'')
       (bitspan_make 131 1)
       (validate T_bool [])
       (\<lambda>data config. case data_flag data of None \<Rightarrow> None
          | Some v \<Rightarrow> Some (upd_time (write_to_update (sd_update (\<lambda>_. v))) config)),
     required_setting id_light_trigger_enabled
       (node_child light_node ''enabled'')
       (bitspan_make 27 1)
       (validate T_bool [])
       (\<lambda>data config. case data_flag data of None \<Rightarrow> None
          | Some v \<Rightarrow> Some (upd_light (enable_update (\<lambda>_. v)) config)),
     required_setting id_light_trigger_low_threshold
       (node_child light_node ''low-threshold'')
       (bitspan_make 112 16)
       (validate T_uint16 [])
       (\<lambda>data config. case data_uint16 data of None \<Rightarrow> None
          | Some v \<Rightarrow> Some (upd_light (low_threshold_update (\<lambda>_. v)) config)),
     required_setting id_light_trigger_high_threshold
       (node_child light_node ''high-threshold'')
       (bitspan_make 96 16)
       (validate T_uint16 [])
       (\<lambda>data config. case data_uint16 data of None \<Rightarrow> None
          | Some v \<Rightarrow> Some (upd_light (high_threshold_update (\<lambda>_. v)) config)),
     required_setting id_light_trigger_thp
       (node_child light_sensors ''thp'')
       (bitspan_make 12 1)
       (validate T_bool [])
       (\<lambda>data config.
          if enable (light (trigger (framework config))) then
            (case data_flag data of None \<Rightarrow> None
             | Some v \<Rightarrow> Some (upd_light (measure_update (thp_update (\<lambda>_. v))) (config)))
          else Some (upd_light (measure_update (thp_update (\<lambda>_. False))) (config))),
     required_setting id_light_trigger_acc_gyro
       (node_child light_sensors ''accel-gyro'')
       (bitspan_make 13 1)
       (validate T_bool [])
       (\<lambda>data config.
          if enable (light (trigger (framework config))) then
            (case data_flag data of None \<Rightarrow> None
             | Some v \<Rightarrow> Some (upd_light (measure_update (accel_gyro_update (\<lambda>_. v))) (config)))
          else Some (upd_light (measure_update (accel_gyro_update (\<lambda>_. False))) (config))),
     required_setting id_light_trigger_magnetometer
       (node_child light_sensors ''magnet'')
       (bitspan_make 14 1)
       (validate T_bool [])
       (\<lambda>data config.
          if enable (light (trigger (framework config))) then
            (case data_flag data of None \<Rightarrow> None
             | Some v \<Rightarrow> Some (upd_light (measure_update (magnet_update (\<lambda>_. v))) (config)))
          else Some (upd_light (measure_update (magnet_update (\<lambda>_. False))) (config))),
     required_setting id_light_trigger_light_intensity
       (node_child light_sensors ''light'')
       (bitspan_make 15 1)
       (validate T_bool [])
       (\<lambda>data config.
          if enable (light (trigger (framework config))) then
            (case data_flag data of None \<Rightarrow> None
             | Some v \<Rightarrow> Some (upd_light (measure_update (light_intensity_update (\<lambda>_. v))) (config)))
          else Some (upd_light (measure_update (light_intensity_update (\<lambda>_. False))) (config))),
     required_setting id_light_trigger_lora_priority
       (node_child (node_child light_node ''write-to'') ''lorawan-priority'')
       (bitspan_make 132 2)
       (validate T_int8 [0, 3])
       (\<lambda>data config. case data_int8 data of None \<Rightarrow> None
          | Some v \<Rightarrow> Some (upd_light (lorawan_priority_update (\<lambda>_. v)) config)),
     required_setting id_light_trigger_write_to_lora
       (node_child (node_child light_node ''write-to'') ''lora'')
       (bitspan_make 134 1)
       (validate T_bool [])
       (\<lambda>data config. case data_flag data of None \<Rightarrow> None
          | Some v \<Rightarrow> Some (upd_light (write_to_update (lora_update (\<lambda>_. v))) config)),
     required_setting id_light_trigger_write_to_sd
       (node_child (node_child light_node ''write-to'') ''sd'')
       (bitspan_make 135 1)
       (validate T_bool [])
       (\<lambda>data config. case data_flag data of None \<Rightarrow> None
          | Some v \<Rightarrow> Some (upd_light (write_to_update (sd_update (\<lambda>_. v))) config)),
     required_setting id_acceleration_trigger_enabled
       (node_child acceleration_node ''enabled'')
       (bitspan_make 28 1)
       (validate T_bool [])
       (\<lambda>data config. case data_flag data of None \<Rightarrow> None
          | Some v \<Rightarrow> Some (upd_acceleration (enable_update (\<lambda>_. v)) config)),
     required_setting id_acceleration_trigger_thp
       (node_child accel_sensors ''thp'')
       (bitspan_make 16 1)
       (validate T_bool [])
       (\<lambda>data config.
          if enable (acceleration (trigger (framework config))) then
            (case data_flag data of None \<Rightarrow> None
             | Some v \<Rightarrow> Some (upd_acceleration (measure_update (thp_update (\<lambda>_. v))) (config)))
          else Some (upd_acceleration (measure_update (thp_update (\<lambda>_. False))) (config))),
     required_setting id_acceleration_trigger_acc_gyro
       (node_child accel_sensors ''accel-gyro'')
       (bitspan_make 17 1)
       (validate T_bool [])
       (\<lambda>data config.
          if enable (acceleration (trigger (framework config))) then
            (case data_flag data of None \<Rightarrow> None
             | Some v \<Rightarrow> Some (upd_acceleration (measure_update (accel_gyro_update (\<lambda>_. v))) (config)))
          else Some (upd_acceleration (measure_update (accel_gyro_update (\<lambda>_. False))) (config))),
     required_setting id_acceleration_trigger_magnetometer
       (node_child accel_sensors ''magnet'')
       (bitspan_make 18 1)
       (validate T_bool [])
       (\<lambda>data config.
          if enable (acceleration (trigger (framework config))) then
            (case data_flag data of None \<Rightarrow> None
             | Some v \<Rightarrow> Some (upd_acceleration (measure_update (magnet_update (\<lambda>_. v))) (config)))
          else Some (upd_acceleration (measure_update (magnet_update (\<lambda>_. False))) (config))),
     required_setting id_acceleration_trigger_light_intensity
       (node_child accel_sensors ''light'')
       (bitspan_make 19 1)
       (validate T_bool [])
       (\<lambda>data config.
          if enable (acceleration (trigger (framework config))) then
            (case data_flag data of None \<Rightarrow> None
             | Some v \<Rightarrow> Some (upd_acceleration (measure_update (light_intensity_update (\<lambda>_. v))) (config)))
          else Some (upd_acceleration (measure_update (light_intensity_update (\<lambda>_. False))) (config))),
     required_setting id_acceleration_trigger_lora_priority
       (node_child (node_child acceleration_node ''write-to'') ''lorawan-priority'')
       (bitspan_make 136 2)
       (validate T_int8 [0, 3])
       (\<lambda>data config. case data_int8 data of None \<Rightarrow> None
          | Some v \<Rightarrow> Some (upd_acceleration (lorawan_priority_update (\<lambda>_. v)) config)),
     required_setting id_acceleration_trigger_write_to_lora
       (node_child (node_child acceleration_node ''write-to'') ''lora'')
       (bitspan_make 138 1)
       (validate T_bool [])
       (\<lambda>data config. case data_flag data of None \<Rightarrow> None
          | Some v \<Rightarrow> Some (upd_acceleration (write_to_update (lora_update (\<lambda>_. v))) config)),
     required_setting id_acceleration_trigger_write_to_sd
       (node_child (node_child acceleration_node ''write-to'') ''sd'')
       (bitspan_make 139 1)
       (validate T_bool [])
       (\<lambda>data config. case data_flag data of None \<Rightarrow> None
          | Some v \<Rightarrow> Some (upd_acceleration (write_to_update (sd_update (\<lambda>_. v))) config)),
     required_setting id_orientation_trigger_enabled
       (node_child orientation_node ''enabled'')
       (bitspan_make 29 1)
       (validate T_bool [])
       (\<lambda>data config. case data_flag data of None \<Rightarrow> None
          | Some v \<Rightarrow> Some (upd_orientation (enable_update (\<lambda>_. v)) config)),
     required_setting id_orientation_trigger_thp
       (node_child orien_sensors ''thp'')
       (bitspan_make 20 1)
       (validate T_bool [])
       (\<lambda>data config.
          if enable (orientation (trigger (framework config))) then
            (case data_flag data of None \<Rightarrow> None
             | Some v \<Rightarrow> Some (upd_orientation (measure_update (thp_update (\<lambda>_. v))) (config)))
          else Some (upd_orientation (measure_update (thp_update (\<lambda>_. False))) (config))),
     required_setting id_orientation_trigger_acc_gyro
       (node_child orien_sensors ''accel-gyro'')
       (bitspan_make 21 1)
       (validate T_bool [])
       (\<lambda>data config.
          if enable (orientation (trigger (framework config))) then
            (case data_flag data of None \<Rightarrow> None
             | Some v \<Rightarrow> Some (upd_orientation (measure_update (accel_gyro_update (\<lambda>_. v))) (config)))
          else Some (upd_orientation (measure_update (accel_gyro_update (\<lambda>_. False))) (config))),
     required_setting id_orientation_trigger_magnetometer
       (node_child orien_sensors ''magnet'')
       (bitspan_make 22 1)
       (validate T_bool [])
       (\<lambda>data config.
          if enable (orientation (trigger (framework config))) then
            (case data_flag data of None \<Rightarrow> None
             | Some v \<Rightarrow> Some (upd_orientation (measure_update (magnet_update (\<lambda>_. v))) (config)))
          else Some (upd_orientation (measure_update (magnet_update (\<lambda>_. False))) (config))),
     required_setting id_orientation_trigger_light_intensity
       (node_child orien_sensors ''light'')
       (bitspan_make 23 1)
       (validate T_bool [])
       (\<lambda>data config.
          if enable (orientation (trigger (framework config))) then
            (case data_flag data of None \<Rightarrow> None
             | Some v \<Rightarrow> Some (upd_orientation (measure_update (light_intensity_update (\<lambda>_. v))) (config)))
          else Some (upd_orientation (measure_update (light_intensity_update (\<lambda>_. False))) (config))),
     required_setting id_orientation_trigger_lora_priority
       (node_child (node_child orientation_node ''write-to'') ''lorawan-priority'')
       (bitspan_make 140 2)
       (validate T_int8 [0, 3])
       (\<lambda>data config. case data_int8 data of None \<Rightarrow> None
          | Some v \<Rightarrow> Some (upd_orientation (lorawan_priority_update (\<lambda>_. v)) config)),
     required_setting id_orientation_trigger_write_to_lora
       (node_child (node_child orientation_node ''write-to'') ''lora'')
       (bitspan_make 142 1)
       (validate T_bool [])
       (\<lambda>data config. case data_flag data of None \<Rightarrow> None
          | Some v \<Rightarrow> Some (upd_orientation (write_to_update (lora_update (\<lambda>_. v))) config)),
     required_setting id_orientation_trigger_write_to_sd
       (node_child (node_child orientation_node ''write-to'') ''sd'')
       (bitspan_make 143 1)
       (validate T_bool [])
       (\<lambda>data config. case data_flag data of None \<Rightarrow> None
          | Some v \<Rightarrow> Some (upd_orientation (write_to_update (sd_update (\<lambda>_. v))) config))]"

definition get_default_settings :: "(USB_DETECTION \<Rightarrow> int) \<Rightarrow> setting list" where
  "get_default_settings usb = make_settings (default_settings_list usb)"

section \<open>Setting handler (setting-handler.h)\<close>

text \<open>The settings themselves belong to the configuration handler; the setting handler
  holds a range over them, so the functions below take them as an argument and return
  them. \<open>MaxSettings\<close> is the capacity of the two error buffers.\<close>

record setting_handler =
  unset_setting_errors :: error_handler
  invalid_value_errors :: error_handler
  mode_of :: validation_mode

definition new_setting_handler :: "nat \<Rightarrow> validation_mode \<Rightarrow> setting_handler" where
  "new_setting_handler max_settings mode =
     \<lparr>unset_setting_errors = new_error_handler max_settings,
      invalid_value_errors = new_error_handler max_settings,
      mode_of = mode\<rparr>"

definition handle_invalid_setting ::
  "setting \<Rightarrow> validation_error \<Rightarrow> setting_handler \<Rightarrow> setting_handler option" where
  "handle_invalid_setting setting_obj error_id h =
     (if error_id = setting_unset then
        (if stype setting_obj = optional then Some h
         else (case add_validation_error error_id
                      (word_of_int (setting_underlying (ident setting_obj)))
                      (unset_setting_errors h) of
                 None \<Rightarrow> None
               | Some e \<Rightarrow> Some (h\<lparr>unset_setting_errors := e\<rparr>)))
      else (case add_validation_error error_id
                   (word_of_int (setting_underlying (ident setting_obj)))
                   (invalid_value_errors h) of
              None \<Rightarrow> None
            | Some e \<Rightarrow> Some (h\<lparr>invalid_value_errors := e\<rparr>)))"

text \<open>The body of the loop of \<open>apply_valid_settings\<close>, for one setting.\<close>

definition apply_valid_setting ::
  "setting \<Rightarrow> main_config \<times> setting_handler \<Rightarrow> (setting \<times> main_config \<times> setting_handler) option" where
  "apply_valid_setting setting_obj st =
     (let (config, h) = st;
          (s1, error) = setting_validate (mode_of h) setting_obj
      in case error of
           Some e \<Rightarrow> (case handle_invalid_setting s1 e h of
                         None \<Rightarrow> None
                       | Some h1 \<Rightarrow> Some (s1, config, h1))
         | None \<Rightarrow> (case setting_apply s1 config of
                       None \<Rightarrow> None
                     | Some config1 \<Rightarrow> Some (s1, config1, h)))"

fun apply_valid_settings ::
  "setting list \<Rightarrow> main_config \<times> setting_handler
     \<Rightarrow> (setting list \<times> main_config \<times> setting_handler) option" where
  "apply_valid_settings [] st = Some ([], st)"
| "apply_valid_settings (setting_obj # rest) st =
     (case apply_valid_setting setting_obj st of
        None \<Rightarrow> None
      | Some (s1, st1) \<Rightarrow>
          (case apply_valid_settings rest st1 of
             None \<Rightarrow> None
           | Some (rest1, st2) \<Rightarrow> Some (s1 # rest1, st2)))"

text \<open>\<open>validate_settings\<close>: the same loop without the application.\<close>

fun validate_settings ::
  "setting list \<Rightarrow> setting_handler \<Rightarrow> (setting list \<times> setting_handler) option" where
  "validate_settings [] h = Some ([], h)"
| "validate_settings (setting_obj # rest) h =
     (let (s1, error) = setting_validate (mode_of h) setting_obj in
      case (case error of None \<Rightarrow> Some h | Some e \<Rightarrow> handle_invalid_setting s1 e h) of
        None \<Rightarrow> None
      | Some h1 \<Rightarrow>
          (case validate_settings rest h1 of
             None \<Rightarrow> None
           | Some (rest1, h2) \<Rightarrow> Some (s1 # rest1, h2)))"

definition has_validation_errors :: "setting_handler \<Rightarrow> bool" where
  "has_validation_errors h \<longleftrightarrow>
     contains_errors (unset_setting_errors h) \<or> contains_errors (invalid_value_errors h)"

definition clear_validation_errors :: "setting_handler \<Rightarrow> setting_handler" where
  "clear_validation_errors h =
     h\<lparr>unset_setting_errors := clear_errors (unset_setting_errors h),
       invalid_value_errors := clear_errors (invalid_value_errors h)\<rparr>"

section \<open>Message parser (message-parser.h)\<close>

text \<open>\<open>message_data\<close>: a pointer to bytes, \<open>None\<close> for the null pointer and otherwise the
  bytes it points to, and the size the caller gives, a \<open>uint_least8_t\<close>.\<close>

record message_data =
  data_ptr :: "8 word list option"
  data_size :: nat

text \<open>The error handler of a message parser has room for two codes. The settings belong
  to the configuration handler and are passed in and returned.\<close>

record message_parser =
  msg_err_handler :: error_handler



definition msg_has_parsing_errors :: "message_parser \<Rightarrow> bool" where
  "msg_has_parsing_errors p \<longleftrightarrow> contains_errors (msg_err_handler p)"

definition validate_config_message :: "message_data \<Rightarrow> error_handler \<Rightarrow> error_handler option" where
  "validate_config_message config h =
     (case (if data_ptr config = None
            then add_parsing_error invalid_message_pointer 0 h else Some h) of
        None \<Rightarrow> None
      | Some h1 \<Rightarrow>
          if data_size config < byte_boundary
          then add_parsing_error insufficient_message_size (of_nat (data_size config)) h1
          else Some h1)"

text \<open>The codes the two checks of \<open>validate_config_message\<close> add, in order.\<close>

definition config_message_errors :: "message_data \<Rightarrow> code list" where
  "config_message_errors config =
     (if data_ptr config = None then [code_parsing invalid_message_pointer 0] else [])
     @ (if data_size config < byte_boundary
        then [code_parsing insufficient_message_size (of_nat (data_size config))] else [])"

text \<open>The loop of \<open>parse_config_impl\<close> over the settings.\<close>

fun extract_settings :: "8 word list \<Rightarrow> setting list \<Rightarrow> setting list option" where
  "extract_settings source [] = Some []"
| "extract_settings source (setting_obj # rest) =
     (case (if span_size (cfg_bits setting_obj) \<noteq> 0
            then (case extract_bits source (cfg_bits setting_obj) of
                    None \<Rightarrow> None
                  | Some v \<Rightarrow> Some (set_value_u64 v setting_obj))
            else Some setting_obj) of
        None \<Rightarrow> None
      | Some s1 \<Rightarrow>
          (case extract_settings source rest of
             None \<Rightarrow> None
           | Some rest1 \<Rightarrow> Some (s1 # rest1)))"

text \<open>\<open>message_parser::parse_config_impl\<close>. When the checks leave the error handler
  empty, the pointer is not null.\<close>

definition msg_parse_config ::
  "message_data \<Rightarrow> message_parser \<times> setting list \<Rightarrow> (message_parser \<times> setting list) option" where
  "msg_parse_config config st =
     (let (p, settings) = st in
      case validate_config_message config (msg_err_handler p) of
        None \<Rightarrow> None
      | Some h \<Rightarrow>
          if contains_errors h then Some (p\<lparr>msg_err_handler := h\<rparr>, settings)
          else (case data_ptr config of
                  None \<Rightarrow> None
                | Some source \<Rightarrow>
                    (case extract_settings source settings of
                       None \<Rightarrow> None
                     | Some settings1 \<Rightarrow> Some (p\<lparr>msg_err_handler := h\<rparr>, settings1))))"

section \<open>XML parser (xml-parser.h)\<close>

text \<open>The events of the SAXML library that the parser handles: an opening tag, a closing
  tag and the content of a tag, each with the zero-terminated string the library passes.
  The library itself is an external collaborator: it is represented by its initial state
  and by the events \<open>saxml_HandleCharacter\<close> raises for one character.\<close>

datatype sax_event = sax_tag string | sax_tag_end string | sax_content string

type_synonym 't saxml = "'t \<times> ('t \<Rightarrow> char \<Rightarrow> 't \<times> sax_event list)"

text \<open>\<open>xml_parser<SettingIter, MaxSettings>\<close>. The range \<open>settings_\<close> refers to settings
  that live outside the parser, so every function that uses them works on the pair of
  the parser and the settings. \<open>max_tag_depth\<close> is the constant of the class, \<open>tag_levels\<close>
  has \<open>MaxSettings\<close> elements of type \<open>int8_t\<close>, \<open>tag_depth\<close> is an \<open>int_least8_t\<close>.\<close>

record xml_parser =
  position :: file_ptr
  err_handler :: error_handler
  tag_levels :: "int list"
  target_setting :: nat
  tag_depth :: int
  handle_tag_called :: bool
  max_tag_depth :: int

type_synonym xml_state = "xml_parser \<times> setting list"

text \<open>The value an \<open>int8_t\<close> keeps of an \<open>int\<close>.\<close>

definition int8 :: "int \<Rightarrow> int" where
  "int8 i = (i + 128) mod 256 - 128"

definition new_xml_parser :: "nat \<Rightarrow> int \<Rightarrow> xml_parser" where
  "new_xml_parser max_settings depth =
     \<lparr>position = new_file_ptr, err_handler = new_error_handler max_settings,
      tag_levels = replicate max_settings 0, target_setting = 0, tag_depth = 0,
      handle_tag_called = False, max_tag_depth = depth\<rparr>"

definition xml_clear_parsing_errors :: "xml_parser \<Rightarrow> xml_parser" where
  "xml_clear_parsing_errors x = x\<lparr>err_handler := clear_errors (err_handler x)\<rparr>"

text \<open>\<open>reset_parsing\<close>: the position, the errors, the tag levels of the settings and the
  flag \<open>handle_tag_called\<close>. \<open>tag_depth\<close> and \<open>target_setting\<close> are not assigned.\<close>

definition reset_parsing :: "xml_state \<Rightarrow> xml_state option" where
  "reset_parsing st =
     (let (x, settings) = st in
      case fill_n (tag_levels x) (length settings) 0 of
        None \<Rightarrow> None
      | Some levels \<Rightarrow>
          Some (x\<lparr>position := reset_file_ptr (position x),
                  err_handler := clear_errors (err_handler x),
                  tag_levels := levels,
                  handle_tag_called := False\<rparr>, settings))"

definition update_position :: "char \<Rightarrow> xml_parser \<Rightarrow> xml_parser" where
  "update_position character x =
     (if character = CHR 0x0A then x\<lparr>position := next_line (position x)\<rparr>
      else if character \<noteq> CHR 0x0D then x\<lparr>position := next_column (position x)\<rparr>
      else x)"

definition tag_depth_matches :: "xml_parser \<Rightarrow> nat \<Rightarrow> bool option" where
  "tag_depth_matches x index =
     (if index < length (tag_levels x) then Some (tag_levels x ! index = tag_depth x) else None)"

text \<open>\<open>tag_name_matches\<close> compares \<open>settings_[index].tag(tag_depth)\<close>, a \<open>char const*\<close>,
  with a \<open>std::string_view\<close>; a null pointer has no string view.\<close>

definition tag_name_matches :: "string \<Rightarrow> nat \<Rightarrow> xml_state \<Rightarrow> bool option" where
  "tag_name_matches tag index st =
     (let (x, settings) = st in
      if index < length settings \<and> 0 \<le> tag_depth x
         \<and> nat (tag_depth x) < length (tags (settings ! index))
      then (case tags (settings ! index) ! nat (tag_depth x) of
              None \<Rightarrow> None
            | Some t \<Rightarrow> Some (t = tag))
      else None)"

definition increase_tag_level :: "nat \<Rightarrow> xml_parser \<Rightarrow> xml_parser" where
  "increase_tag_level index x = x\<lparr>tag_levels := (tag_levels x)[index := int8 (tag_depth x + 1)]\<rparr>"

definition select_setting :: "nat \<Rightarrow> xml_parser \<Rightarrow> xml_parser" where
  "select_setting index x = x\<lparr>target_setting := index\<rparr>"

definition reset_tag_level :: "nat \<Rightarrow> xml_parser \<Rightarrow> xml_parser" where
  "reset_tag_level index x = x\<lparr>tag_levels := (tag_levels x)[index := 0]\<rparr>"

text \<open>The loop of \<open>handle_tag\<close> over the indices of the settings.\<close>

fun handle_tag_loop :: "string \<Rightarrow> nat list \<Rightarrow> xml_state \<Rightarrow> xml_state option" where
  "handle_tag_loop tag [] st = Some st"
| "handle_tag_loop tag (idx # rest) st =
     (case tag_depth_matches (fst st) idx of
        None \<Rightarrow> None
      | Some False \<Rightarrow> handle_tag_loop tag rest st
      | Some True \<Rightarrow>
          (case tag_name_matches tag idx st of
             None \<Rightarrow> None
           | Some False \<Rightarrow> handle_tag_loop tag rest st
           | Some True \<Rightarrow>
               handle_tag_loop tag rest
                 (select_setting idx (increase_tag_level idx (fst st)), snd st)))"

definition handle_tag :: "string \<Rightarrow> xml_state \<Rightarrow> xml_state option" where
  "handle_tag tag st =
     (case (if tag_depth (fst st) < max_tag_depth (fst st)
            then handle_tag_loop tag [0..<length (snd st)] st else Some st) of
        None \<Rightarrow> None
      | Some (x, settings) \<Rightarrow>
          Some (x\<lparr>tag_depth := int8 (tag_depth x + 1), handle_tag_called := True\<rparr>, settings))"

definition handle_tag_end :: "xml_state \<Rightarrow> xml_state" where
  "handle_tag_end st = (let (x, settings) = st in (x\<lparr>tag_depth := int8 (tag_depth x - 1)\<rparr>, settings))"

definition is_final_tag_reached :: "nat \<Rightarrow> xml_state \<Rightarrow> bool option" where
  "is_final_tag_reached index st =
     (let (x, settings) = st in
      if tag_depth x = max_tag_depth x then Some True
      else if tag_depth x < max_tag_depth x then
        (if index < length settings \<and> 0 \<le> tag_depth x
            \<and> nat (tag_depth x) < length (tags (settings ! index))
         then Some (is_tag_empty (settings ! index) (nat (tag_depth x))) else None)
      else Some False)"

definition handle_content :: "string \<Rightarrow> xml_state \<Rightarrow> xml_state option" where
  "handle_content content st =
     (let (x, settings) = st; t = target_setting x in
      case tag_depth_matches x t of
        None \<Rightarrow> None
      | Some False \<Rightarrow> Some st
      | Some True \<Rightarrow>
          (case is_final_tag_reached t st of
             None \<Rightarrow> None
           | Some False \<Rightarrow> Some st
           | Some True \<Rightarrow>
               (case (if max_value_size < length content
                      then add_parsing_error_at exceeds_max_value_length (position x)
                             (err_handler x)
                      else Some (err_handler x)) of
                  None \<Rightarrow> None
                | Some h \<Rightarrow>
                    if t < length settings
                    then Some (reset_tag_level t (x\<lparr>err_handler := h\<rparr>),
                               settings[t := set_value content (settings ! t)])
                    else None)))"

fun handle_event :: "sax_event \<Rightarrow> xml_state \<Rightarrow> xml_state option" where
  "handle_event (sax_tag tag) st = handle_tag tag st"
| "handle_event (sax_tag_end tag) st = Some (handle_tag_end st)"
| "handle_event (sax_content content) st = handle_content content st"

fun handle_events :: "sax_event list \<Rightarrow> xml_state \<Rightarrow> xml_state option" where
  "handle_events [] st = Some st"
| "handle_events (e # es) st =
     (case handle_event e st of None \<Rightarrow> None | Some st1 \<Rightarrow> handle_events es st1)"

text \<open>\<open>execute_parsing\<close>: every character goes to the library, whose events are handled
  before the position moves on.\<close>

fun execute_parsing_loop ::
  "('t \<Rightarrow> char \<Rightarrow> 't \<times> sax_event list) \<Rightarrow> string \<Rightarrow> 't \<Rightarrow> xml_state \<Rightarrow> xml_state option" where
  "execute_parsing_loop handle_character [] sax st = Some st"
| "execute_parsing_loop handle_character (character # rest) sax st =
     (case handle_events (snd (handle_character sax character)) st of
        None \<Rightarrow> None
      | Some (x, settings) \<Rightarrow>
          execute_parsing_loop handle_character rest (fst (handle_character sax character))
            (update_position character x, settings))"

definition execute_parsing :: "'t saxml \<Rightarrow> string \<Rightarrow> xml_state \<Rightarrow> xml_state option" where
  "execute_parsing library config st = execute_parsing_loop (snd library) config (fst library) st"

definition verify_parsing :: "xml_parser \<Rightarrow> xml_parser option" where
  "verify_parsing x =
     (case (if 0 < tag_depth x
            then add_parsing_error missing_closing_tag (word_of_int (tag_depth x)) (err_handler x)
            else if tag_depth x < 0
            then add_parsing_error missing_opening_tag (word_of_int (- tag_depth x))
                   (err_handler x)
            else Some (err_handler x)) of
        None \<Rightarrow> None
      | Some h \<Rightarrow>
          (case (if \<not> handle_tag_called x
                 then add_parsing_error_at no_tags_found (position x) h else Some h) of
             None \<Rightarrow> None
           | Some h1 \<Rightarrow> Some (x\<lparr>err_handler := h1\<rparr>)))"

text \<open>\<open>xml_parser::parse_config_impl\<close>. The empty configuration adds its error and
  returns before \<open>reset_parsing\<close>.\<close>

definition xml_parse_config :: "'t saxml \<Rightarrow> string \<Rightarrow> xml_state \<Rightarrow> xml_state option" where
  "xml_parse_config library config st =
     (if config = [] then
        (case add_parsing_error_at empty_config (position (fst st)) (err_handler (fst st)) of
           None \<Rightarrow> None
         | Some h \<Rightarrow> Some ((fst st)\<lparr>err_handler := h\<rparr>, snd st))
      else
        (case reset_parsing st of
           None \<Rightarrow> None
         | Some st1 \<Rightarrow>
             (case execute_parsing library config st1 of
                None \<Rightarrow> None
              | Some (x, settings) \<Rightarrow>
                  (case verify_parsing x of
                     None \<Rightarrow> None
                   | Some x1 \<Rightarrow> Some (x1, settings)))))"

section \<open>Verification (default-verification-ids.h, verification-rule.h, default-verification-rules.h)\<close>

datatype verification_identifier =
    vid_unspecified | trigger_requirement | time_trigger | light_trigger
  | acceleration_trigger | orientation_trigger

fun verification_id_underlying :: "verification_identifier \<Rightarrow> int" where
  "verification_id_underlying vid_unspecified = 0"
| "verification_id_underlying trigger_requirement = 1"
| "verification_id_underlying time_trigger = 2"
| "verification_id_underlying light_trigger = 3"
| "verification_id_underlying acceleration_trigger = 4"
| "verification_id_underlying orientation_trigger = 5"

text \<open>A verification rule: its identifier and its verifier function.\<close>

record verification_rule =
  rule_id :: verification_identifier
  verifier_fn :: "main_config \<Rightarrow> verification_error option"

definition verify :: "verification_rule \<Rightarrow> main_config \<Rightarrow> verification_error option" where
  "verify rule config = verifier_fn rule config"

text \<open>\<open>verify_data_destination\<close>, for the configuration of any trigger.\<close>

definition verify_data_destination :: "'a trigger_config_scheme \<Rightarrow> verification_error option" where
  "verify_data_destination config =
     (if \<not> enable config then None
      else if lora (write_to config) then None
      else if sd (write_to config) then None
      else Some no_data_destination_enabled)"

definition is_any_trigger_enabled :: "trigger_set \<Rightarrow> bool" where
  "is_any_trigger_enabled config \<longleftrightarrow>
     enable (time config) \<or> enable (light config)
     \<or> enable (acceleration config) \<or> enable (orientation config)"

definition get_default_verification_rules :: "verification_rule list" where
  "get_default_verification_rules =
     [\<lparr>rule_id = trigger_requirement,
       verifier_fn = (\<lambda>config. if is_any_trigger_enabled (trigger (framework config))
                                then None else Some no_trigger_enabled)\<rparr>,
      \<lparr>rule_id = time_trigger,
       verifier_fn = (\<lambda>config. verify_data_destination (time (trigger (framework config))))\<rparr>,
      \<lparr>rule_id = light_trigger,
       verifier_fn = (\<lambda>config. verify_data_destination (light (trigger (framework config))))\<rparr>,
      \<lparr>rule_id = acceleration_trigger,
       verifier_fn = (\<lambda>config. verify_data_destination
                                  (acceleration (trigger (framework config))))\<rparr>,
      \<lparr>rule_id = orientation_trigger,
       verifier_fn = (\<lambda>config. verify_data_destination
                                  (orientation (trigger (framework config))))\<rparr>]"

text \<open>The four triggers, to state a property of any one of them: whether the trigger is
  enabled in a configuration, its data destinations, and the identifier of its
  verification rule.\<close>

datatype trigger_kind = Time_trigger | Light_trigger | Acceleration_trigger | Orientation_trigger

fun trigger_enabled :: "trigger_kind \<Rightarrow> main_config \<Rightarrow> bool" where
  "trigger_enabled Time_trigger config = enable (time (trigger (framework config)))"
| "trigger_enabled Light_trigger config = enable (light (trigger (framework config)))"
| "trigger_enabled Acceleration_trigger config = enable (acceleration (trigger (framework config)))"
| "trigger_enabled Orientation_trigger config = enable (orientation (trigger (framework config)))"

fun trigger_write_to :: "trigger_kind \<Rightarrow> main_config \<Rightarrow> write_to_config" where
  "trigger_write_to Time_trigger config = write_to (time (trigger (framework config)))"
| "trigger_write_to Light_trigger config = write_to (light (trigger (framework config)))"
| "trigger_write_to Acceleration_trigger config = write_to (acceleration (trigger (framework config)))"
| "trigger_write_to Orientation_trigger config = write_to (orientation (trigger (framework config)))"

fun trigger_rule_id :: "trigger_kind \<Rightarrow> verification_identifier" where
  "trigger_rule_id Time_trigger = time_trigger"
| "trigger_rule_id Light_trigger = light_trigger"
| "trigger_rule_id Acceleration_trigger = acceleration_trigger"
| "trigger_rule_id Orientation_trigger = orientation_trigger"

text \<open>The sensor settings of a trigger (\<open>thp\<close>, \<open>accel-gyro\<close>, \<open>magnet\<close>, \<open>light\<close> below
  \<open>activate-sensors\<close>): the position in \<open>get_default_settings\<close> of the \<open>enabled\<close> setting of a
  trigger and of each of its sensor settings, and the members of the configuration that
  the action of a sensor setting assigns. The actions of the time trigger also assign the
  measurement flags of the sensor drivers.\<close>

datatype sensor_kind = Thp | Accel_gyro | Magnet | Light_intensity

fun trigger_enabled_index :: "trigger_kind \<Rightarrow> nat" where
  "trigger_enabled_index Time_trigger = 3"
| "trigger_enabled_index Light_trigger = 12"
| "trigger_enabled_index Acceleration_trigger = 22"
| "trigger_enabled_index Orientation_trigger = 30"

fun sensor_index :: "trigger_kind \<Rightarrow> sensor_kind \<Rightarrow> nat" where
  "sensor_index Time_trigger Thp = 5"
| "sensor_index Time_trigger Accel_gyro = 6"
| "sensor_index Time_trigger Magnet = 7"
| "sensor_index Time_trigger Light_intensity = 8"
| "sensor_index Light_trigger Thp = 15"
| "sensor_index Light_trigger Accel_gyro = 16"
| "sensor_index Light_trigger Magnet = 17"
| "sensor_index Light_trigger Light_intensity = 18"
| "sensor_index Acceleration_trigger Thp = 23"
| "sensor_index Acceleration_trigger Accel_gyro = 24"
| "sensor_index Acceleration_trigger Magnet = 25"
| "sensor_index Acceleration_trigger Light_intensity = 26"
| "sensor_index Orientation_trigger Thp = 31"
| "sensor_index Orientation_trigger Accel_gyro = 32"
| "sensor_index Orientation_trigger Magnet = 33"
| "sensor_index Orientation_trigger Light_intensity = 34"

fun trigger_measure :: "trigger_kind \<Rightarrow> main_config \<Rightarrow> measure_config" where
  "trigger_measure Time_trigger config = measure (time (trigger (framework config)))"
| "trigger_measure Light_trigger config = measure (light (trigger (framework config)))"
| "trigger_measure Acceleration_trigger config = measure (acceleration (trigger (framework config)))"
| "trigger_measure Orientation_trigger config = measure (orientation (trigger (framework config)))"

fun sensor_flag :: "sensor_kind \<Rightarrow> measure_config \<Rightarrow> bool" where
  "sensor_flag Thp m = thp m"
| "sensor_flag Accel_gyro m = accel_gyro m"
| "sensor_flag Magnet m = magnet m"
| "sensor_flag Light_intensity m = light_intensity m"

fun sensor_mask_fields :: "trigger_kind \<Rightarrow> sensor_kind \<Rightarrow> main_config \<Rightarrow> bool list" where
  "sensor_mask_fields Time_trigger Thp config =
     [measure_temperature (bme280 (framework config)),
      measure_humidity (bme280 (framework config)),
      measure_pressure (bme280 (framework config)),
      thp (measure (time (trigger (framework config))))]"
| "sensor_mask_fields Time_trigger Accel_gyro config =
     [measure_accelerometer (bmx160 (framework config)),
      measure_gyroscope (bmx160 (framework config)),
      accel_gyro (measure (time (trigger (framework config))))]"
| "sensor_mask_fields Time_trigger Magnet config =
     [measure_magnetometer (bmx160 (framework config)),
      magnet (measure (time (trigger (framework config))))]"
| "sensor_mask_fields Time_trigger Light_intensity config =
     [measure_light (veml6030 (framework config)),
      light_intensity (measure (time (trigger (framework config))))]"
| "sensor_mask_fields t k config = [sensor_flag k (trigger_measure t config)]"

section \<open>Configuration handler (config-handler.h)\<close>

text \<open>The loop of \<open>verify_main_config\<close> over the rules, on the error handler
  \<open>verification\<close>.\<close>

fun verify_rules :: "verification_rule list \<Rightarrow> main_config \<Rightarrow> error_handler \<Rightarrow> error_handler option" where
  "verify_rules [] config verification = Some verification"
| "verify_rules (rule # rules) config verification =
     (case verify rule config of
        None \<Rightarrow> verify_rules rules config verification
      | Some error_id \<Rightarrow>
          (case add_verification_error error_id
                  (word_of_int (verification_id_underlying (rule_id rule))) verification of
             None \<Rightarrow> None
           | Some v \<Rightarrow> verify_rules rules config v))"

text \<open>\<open>verify_main_config\<close>: the error handler has one slot for each rule.\<close>

definition verify_main_config :: "verification_rule list \<Rightarrow> main_config \<Rightarrow> error_handler option" where
  "verify_main_config rules config =
     verify_rules rules config (new_error_handler (length rules))"

text \<open>The codes that the loop body adds to the two error buffers for one setting: the
  \<open>setting_unset\<close> code of a required setting goes to the unset-setting buffer, the code
  of every other validation error to the invalid-value buffer.\<close>

definition unset_codes :: "validation_mode \<Rightarrow> setting \<Rightarrow> code list" where
  "unset_codes mode s =
     (if snd (setting_validate mode s) = Some setting_unset \<and> stype s = required
      then [code_validation setting_unset (word_of_int (setting_underlying (ident s)))] else [])"

definition invalid_codes :: "validation_mode \<Rightarrow> setting \<Rightarrow> code list" where
  "invalid_codes mode s =
     (case snd (setting_validate mode s) of
        None \<Rightarrow> []
      | Some e \<Rightarrow> if e = setting_unset then []
                  else [code_validation e (word_of_int (setting_underlying (ident s)))])"

section \<open>Verified properties\<close>

subsection \<open>Error code packing\<close>

lemma make_bitmask_mask: "make_bitmask n = mask n"
  unfolding make_bitmask_def by (rule bit_word_eqI) (auto simp add: bit_simps)

lemma segment_masks:
  "segment_mask_category = mask 3" "segment_mask_type = mask 5" "segment_mask_data = mask 24"
  by (simp_all add: segment_mask_category_def segment_mask_type_def segment_mask_data_def
      make_bitmask_mask segment_size_category_def segment_size_type_def segment_size_data_def)

lemma data_masks: "data_mask_byte = mask 8" "data_mask_half = mask 12"
  by (simp_all add: data_mask_byte_def data_mask_half_def make_bitmask_mask
      data_size_byte_def data_size_half_def)

lemma bit_code_with_data:
  "bit (code_with_data c k d) n \<longleftrightarrow>
     (n < 24 \<and> bit d n) \<or> (24 \<le> n \<and> n < 29 \<and> bit k (n - 24))
     \<or> (29 \<le> n \<and> n < 32 \<and> bit c (n - 29))"
  unfolding code_with_data_def code_ctor_def segment_masks Let_def
    segment_size_type_def segment_size_data_def
  by (auto simp add: bit_simps)

lemma word32_below_take_bit:
  fixes w :: "32 word"
  assumes "w < 2 ^ n" "n < 32"
  shows "take_bit n w = w"
  using assms by (simp add: take_bit_eq_mask mask_eq_iff_w2p word_size)

lemma code_with_data_fields:
  fixes c k d :: "32 word"
  assumes "c \<le> 7" "k \<le> 31" "d < 2 ^ 24"
  shows "code_category (code_with_data c k d) = c
       \<and> code_kind (code_with_data c k d) = k
       \<and> code_data (code_with_data c k d) = d"
proof -
  have "c < 2 ^ 3" "k < 2 ^ 5"
    using assms(1,2) by (simp_all add: word_less_nat_alt word_le_nat_alt)
  then have c: "take_bit 3 c = c" and k: "take_bit 5 k = k" and d: "take_bit 24 d = d"
    using assms(3) by (simp_all add: word32_below_take_bit)
  have bc: "\<And>n. bit c n \<Longrightarrow> n < 3" by (metis c bit_take_bit_iff)
  have bk: "\<And>n. bit k n \<Longrightarrow> n < 5" by (metis k bit_take_bit_iff)
  have bd: "\<And>n. bit d n \<Longrightarrow> n < 24" by (metis d bit_take_bit_iff)
  have m31: "(31::32 word) = mask 5" and m24: "(16777215::32 word) = mask 24"
    by (simp_all add: mask_eq_exp_minus_1)
  have 1: "code_category (code_with_data c k d) = c"
    unfolding code_category_def
    by (rule bit_word_eqI) (auto simp add: bit_simps bit_code_with_data dest: bc)
  have 2: "code_kind (code_with_data c k d) = k"
    unfolding code_kind_def m31
    by (rule bit_word_eqI) (auto simp add: bit_simps bit_code_with_data dest: bk)
  have 3: "code_data (code_with_data c k d) = d"
    unfolding code_data_def m24
    by (rule bit_word_eqI) (auto simp add: bit_simps bit_code_with_data dest: bd bk bc)
  show ?thesis using 1 2 3 by simp
qed


text \<open>
  C8. For every category in [0,7], kind in [0,31] and data in [0, 2^24), the code built
  from (category, kind, data) decodes, by the wire layout (bits 31..29, bits 28..24,
  bits 23..0), to the same triple.
\<close>

theorem error_code_roundtrip:
  fixes c k d :: "32 word"
  assumes "c \<le> 7" "k \<le> 31" "d < 2 ^ 24"
  shows "code_category (code_with_data c k d) = c
       \<and> code_kind (code_with_data c k d) = k
       \<and> code_data (code_with_data c k d) = d"
  using assms by (rule code_with_data_fields)

theorem error_code_roundtrip_witness:
  "(3::32 word) \<le> 7 \<and> (2::32 word) \<le> 31 \<and> (1234::32 word) < 2 ^ 24
   \<and> code_category (code_with_data 3 2 1234) = 3
   \<and> code_kind (code_with_data 3 2 1234) = 2
   \<and> code_data (code_with_data 3 2 1234) = 1234"
  using error_code_roundtrip [of 3 2 1234] by simp

subsection \<open>Error buffer saturation\<close>

lemma add_error_in_bounds:
  "top_error h < length (errors h) \<Longrightarrow>
   add_error c h = Some \<lparr>errors = (errors h)[top_error h := c], top_error = Suc (top_error h)\<rparr>"
  by (simp add: add_error_def is_error_limit_reached_def Let_def)

lemma add_error_at_limit:
  "\<not> top_error h < length (errors h) \<Longrightarrow> add_error c h = None"
  by (simp add: add_error_def)

lemma add_errors_fill:
  "length cs + top_error h \<le> length (errors h) \<Longrightarrow>
   add_errors cs h =
     Some \<lparr>errors = take (top_error h) (errors h) @ cs
                      @ drop (top_error h + length cs) (errors h),
           top_error = top_error h + length cs\<rparr>"
proof (induction cs arbitrary: h)
  case Nil
  then show ?case by simp
next
  case (Cons c cs)
  let ?h1 = "\<lparr>errors = (errors h)[top_error h := c], top_error = Suc (top_error h)\<rparr>"
  from Cons.prems have lt: "top_error h < length (errors h)" by simp
  have step: "add_error c h = Some ?h1" using lt by (rule add_error_in_bounds)
  have "add_errors cs ?h1 =
          Some \<lparr>errors = take (top_error ?h1) (errors ?h1) @ cs
                           @ drop (top_error ?h1 + length cs) (errors ?h1),
                top_error = top_error ?h1 + length cs\<rparr>"
    using Cons.prems by (intro Cons.IH) simp
  moreover have "take (Suc (top_error h)) ((errors h)[top_error h := c])
                   = take (top_error h) (errors h) @ [c]"
    using lt by (simp add: take_Suc_conv_app_nth)
  ultimately show ?case using step by simp
qed

lemma add_errors_append:
  "add_errors (xs @ ys) h =
     (case add_errors xs h of None \<Rightarrow> None | Some h1 \<Rightarrow> add_errors ys h1)"
  by (induction xs arbitrary: h) (auto split: option.splits)

text \<open>
  C2. A handler of capacity N receives N+1 codes, starting empty. The first N calls fill
  the N slots with the first N codes and leave \<open>top_error\<close> at \<open>errors.end()\<close>; the call
  number N+1 then writes through \<open>top_error\<close> before it tests the limit, which is a write
  one past the last slot. The last slot keeps the N-th code, it does not receive the
  (N+1)-th.
\<close>

theorem add_error_overflow_writes_past_end:
  assumes "length cs = Suc n"
  shows "add_errors (butlast cs) (new_error_handler n)
           = Some \<lparr>errors = butlast cs, top_error = n\<rparr>
       \<and> add_error (last cs) \<lparr>errors = butlast cs, top_error = n\<rparr> = None
       \<and> add_errors cs (new_error_handler n) = None"
proof -
  obtain xs c where cs: "cs = xs @ [c]" and len: "length xs = n"
    using assms by (metis length_Suc_conv_rev)
  have fill: "add_errors xs (new_error_handler n) = Some \<lparr>errors = xs, top_error = n\<rparr>"
    using add_errors_fill [of xs "new_error_handler n"] len
    by (simp add: new_error_handler_def)
  have past: "add_error c \<lparr>errors = xs, top_error = n\<rparr> = None"
    using len by (simp add: add_error_at_limit)
  have "add_errors (xs @ [c]) (new_error_handler n) = None"
    unfolding add_errors_append using fill past by simp
  then show ?thesis using fill past by (simp add: cs)
qed

theorem add_error_overflow_writes_past_end_witness:
  "length [code_parsing empty_config 0, code_parsing no_tags_found 0,
           code_parsing missing_closing_tag 1] = Suc 2
   \<and> add_errors [code_parsing empty_config 0, code_parsing no_tags_found 0]
        (new_error_handler 2)
       = Some \<lparr>errors = [code_parsing empty_config 0, code_parsing no_tags_found 0],
               top_error = 2\<rparr>
   \<and> add_error (code_parsing missing_closing_tag 1)
        \<lparr>errors = [code_parsing empty_config 0, code_parsing no_tags_found 0],
         top_error = 2\<rparr> = None
   \<and> add_errors [code_parsing empty_config 0, code_parsing no_tags_found 0,
                  code_parsing missing_closing_tag 1] (new_error_handler 2) = None"
  using add_error_overflow_writes_past_end
    [of "[code_parsing empty_config 0, code_parsing no_tags_found 0,
          code_parsing missing_closing_tag 1]" 2]
  by simp

subsection \<open>Bit extraction\<close>

lemma bit_255_int: "bit (255 :: int) n \<longleftrightarrow> n < 8"
proof -
  have e: "(255 :: int) = mask 8" by (simp add: mask_eq_exp_minus_1)
  show ?thesis unfolding e by (auto simp add: bit_simps)
qed

lemma bit_masked_byte:
  "bit (ucast (B :: 8 word) AND drop_bit off (255 :: 64 word)) j \<longleftrightarrow> bit B j \<and> j + off < 8"
  by (auto simp add: bit_and_iff bit_ucast_iff bit_drop_bit_eq bit_255_int dest: bit_imp_le_length)

lemma bit_shifted_acc:
  "bit (push_bit m ((r :: 64 word) OR (ucast (B :: 8 word) AND drop_bit off 255))) q \<longleftrightarrow>
     q < 64 \<and> m \<le> q \<and> (bit r (q - m) \<or> (bit B (q - m) \<and> q - m + off < 8))"
  unfolding bit_push_bit_iff bit_or_iff bit_masked_byte
  by (auto simp add: possible_bit_word dest: bit_imp_le_length)

lemma u32_nat_sub: "b \<le> a \<Longrightarrow> a < 4294967296 \<Longrightarrow> u32 (int a - int b) = a - b"
  by (simp add: u32_def)

lemma u32_nat_add: "a + b < 4294967296 \<Longrightarrow> u32 (int a + int b) = a + b"
  by (simp add: u32_def)

lemma u32_8_sub: "off \<le> 8 \<Longrightarrow> u32 (8 - int off) = 8 - off"
  using u32_nat_sub[of off 8] by simp

lemma stream_bit_byte:
  assumes "i < 8"
  shows "stream_bit src (8 * a + 7 - i) \<longleftrightarrow> bit (src ! a) i"
proof -
  define d where "d = 7 - i"
  have d: "d < 8" "7 - d = i" using assms by (simp_all add: d_def)
  have k: "8 * a + 7 - i = a * 8 + d" using assms by (simp add: d_def)
  have "(a * 8 + d) div 8 = a" using d(1) by simp
  moreover have "(a * 8 + d) mod 8 = d" using d(1) by simp
  ultimately show ?thesis unfolding stream_bit_def k using d(2) by simp
qed

lemma loop_step_aligned:
  assumes "start + idx < length src" "8 \<le> sz" "sz < 2147483648" "8 * (start + idx) < 2147483648"
  shows "extract_bits_loop src start (Suc n) idx (r, 8 * (start + idx), sz, 0)
      = extract_bits_loop src start n (Suc idx)
          (push_bit (min (sz - 8) 8) (r OR (ucast (src ! (start + idx)) AND drop_bit 0 255)),
           8 * (start + Suc idx), sz - 8, 0)"
proof -
  have d: "u32 (8 - int 0) = 8" using u32_8_sub[of 0] by simp
  have p: "u32 (int (8 * (start + idx)) + int 8) = 8 * (start + Suc idx)"
    using assms u32_nat_add[of "8 * (start + idx)" 8] by simp
  have z: "u32 (int sz - int 8) = sz - 8"
    using assms u32_nat_sub[of 8 sz] by simp
  show ?thesis
    using assms(1) by (simp only: extract_bits_loop.simps Let_def d p z if_True mod_mult_self1_is_0)
qed

lemma acc_bits_one:
  assumes "8 < sz"
  shows "acc_bits src a (Suc 0) sz r
           (push_bit (min (sz - 8) 8) (r OR (ucast (src ! a) AND drop_bit 0 255)))"
  unfolding acc_bits_def bit_shifted_acc
proof (intro allI)
  fix j
  let ?m = "min (sz - 8) 8"
  have "bit (src ! a) (j - ?m) \<and> j - ?m + 0 < 8 \<longleftrightarrow>
        j - ?m < 8 \<and> stream_bit src (8 * (a + 1) - 1 - (j - ?m))"
  proof (cases "j - ?m < 8")
    case True
    have "8 * (a + 1) - 1 - (j - ?m) = 8 * a + 7 - (j - ?m)" by simp
    then show ?thesis using True stream_bit_byte[of "j - ?m" src a] by simp
  next
    case False
    then show ?thesis by simp
  qed
  then show "(j < 64 \<and> ?m \<le> j \<and> (bit r (j - ?m) \<or> bit (src ! a) (j - ?m) \<and> j - ?m + 0 < 8)) =
         (j < 64 \<and> min (sz - 8 * Suc 0) 8 \<le> j \<and>
          (j - min (sz - 8 * Suc 0) 8 < 8 * Suc 0 \<and>
           stream_bit src (8 * (a + Suc 0) - 1 - (j - min (sz - 8 * Suc 0) 8)) \<or>
           8 * (Suc 0 - 1) \<le> j - min (sz - 8 * Suc 0) 8 \<and>
           bit r (j - min (sz - 8 * Suc 0) 8 - 8 * (Suc 0 - 1))))"
    by auto
qed

lemma acc_bits_step:
  assumes "0 < n" "8 * Suc n < sz"
    and R: "acc_bits src (Suc a) n (sz - 8)
              (push_bit (min (sz - 8) 8) (r OR (ucast (src ! a) AND drop_bit 0 255))) R"
  shows "acc_bits src a (Suc n) sz r R"
  unfolding acc_bits_def
proof (intro allI)
  fix j
  define m where "m = min (sz - 8 * Suc n) 8"
  define i where "i = j - m"
  define S where "S = stream_bit src (8 * (a + Suc n) - 1 - i)"
  have e1: "sz - 8 - 8 * n = sz - 8 * Suc n" by simp
  have e2: "8 * (Suc a + n) = 8 * (a + Suc n)" by simp
  have m8: "min (sz - 8) 8 = 8" using assms by simp
  have Rj: "bit R j \<longleftrightarrow> j < 64 \<and> m \<le> j
        \<and> ((i < 8 * n \<and> S)
            \<or> (8 * (n - 1) \<le> i
               \<and> bit (push_bit 8 (r OR (ucast (src ! a) AND drop_bit 0 255))) (i - 8 * (n - 1))))"
    unfolding m_def i_def S_def
    using R[unfolded acc_bits_def e1 e2 m8, rule_format, of j] .
  have sh: "bit (push_bit 8 (r OR (ucast (src ! a) AND drop_bit 0 255))) (i - 8 * (n - 1))
        \<longleftrightarrow> i - 8 * (n - 1) < 64 \<and> 8 \<le> i - 8 * (n - 1)
            \<and> (bit r (i - 8 * (n - 1) - 8) \<or> (bit (src ! a) (i - 8 * (n - 1) - 8) \<and> i - 8 * (n - 1) - 8 + 0 < 8))"
    by (rule bit_shifted_acc)
  have small: "j < 64 \<Longrightarrow> i - 8 * (n - 1) < 64" unfolding i_def by simp
  show "bit R j \<longleftrightarrow> j < 64 \<and> min (sz - 8 * Suc n) 8 \<le> j
        \<and> ((j - min (sz - 8 * Suc n) 8 < 8 * Suc n
               \<and> stream_bit src (8 * (a + Suc n) - 1 - (j - min (sz - 8 * Suc n) 8)))
            \<or> (8 * (Suc n - 1) \<le> j - min (sz - 8 * Suc n) 8
               \<and> bit r (j - min (sz - 8 * Suc n) 8 - 8 * (Suc n - 1))))"
    unfolding m_def[symmetric] i_def[symmetric] S_def[symmetric]
  proof (cases "8 * n \<le> i")
    case True
    have a1: "i - 8 * (n - 1) - 8 = i - 8 * n" using assms(1) by simp
    have a2: "8 * (n - 1) \<le> i" "8 \<le> i - 8 * (n - 1)" using True assms(1) by simp_all
    have a3: "i - 8 * n + 0 < 8 \<longleftrightarrow> i < 8 * Suc n" using True by auto
    have a5: "\<not> i < 8 * n" using True by simp
    have a6: "8 * (Suc n - 1) \<le> i" "i - 8 * (Suc n - 1) = i - 8 * n" using True by simp_all
    have a4: "i < 8 * Suc n \<Longrightarrow> bit (src ! a) (i - 8 * n) \<longleftrightarrow> S"
    proof -
      assume lt: "i < 8 * Suc n"
      define e where "e = i - 8 * n"
      have ie: "i = 8 * n + e" using True by (simp add: e_def)
      have e8: "e < 8" using lt unfolding ie by simp
      have "8 * (a + Suc n) - 1 - (8 * n + e) = 8 * a + 7 - e" by simp
      then have "S \<longleftrightarrow> stream_bit src (8 * a + 7 - e)" unfolding S_def ie by simp
      then show ?thesis using stream_bit_byte[OF e8, of src a] by (simp add: e_def)
    qed
    show "bit R j \<longleftrightarrow> j < 64 \<and> m \<le> j
        \<and> ((i < 8 * Suc n \<and> S) \<or> (8 * (Suc n - 1) \<le> i \<and> bit r (i - 8 * (Suc n - 1))))"
      unfolding Rj sh a1 a3 a6(2) using a2 a5 a6(1) a4 small by blast
  next
    case False
    have b1: "i < 8 * n" "i < 8 * Suc n" using False by simp_all
    have b2: "\<not> 8 \<le> i - 8 * (n - 1)" using False assms(1) by simp
    have b3: "\<not> 8 * (Suc n - 1) \<le> i" using False by simp
    show "bit R j \<longleftrightarrow> j < 64 \<and> m \<le> j
        \<and> ((i < 8 * Suc n \<and> S) \<or> (8 * (Suc n - 1) \<le> i \<and> bit r (i - 8 * (Suc n - 1))))"
      unfolding Rj sh using b1 b2 b3 by blast
  qed
qed

lemma loop_aligned:
  assumes "start + idx + n \<le> length src" "8 * n < sz" "sz < 2147483648"
    "8 * (start + idx + n) < 2147483648" "0 < n"
  shows "\<exists>R. extract_bits_loop src start n idx (r, 8 * (start + idx), sz, 0)
              = Some (R, 8 * (start + idx + n), sz - 8 * n, 0)
            \<and> acc_bits src (start + idx) n sz r R"
  using assms
proof (induction n arbitrary: r idx sz)
  case 0
  then show ?case by simp
next
  case (Suc n)
  let ?a = "start + idx"
  let ?r1 = "push_bit (min (sz - 8) 8) (r OR (ucast (src ! ?a) AND drop_bit 0 (255 :: 64 word)))"
  have step: "extract_bits_loop src start (Suc n) idx (r, 8 * ?a, sz, 0)
      = extract_bits_loop src start n (Suc idx) (?r1, 8 * (start + Suc idx), sz - 8, 0)"
    using Suc.prems by (intro loop_step_aligned) simp_all
  show ?case
  proof (cases "n = 0")
    case True
    have "acc_bits src ?a (Suc 0) sz r ?r1" using Suc.prems by (intro acc_bits_one) simp
    then show ?thesis using step True by simp
  next
    case False
    then have n: "0 < n" by simp
    have "\<exists>R. extract_bits_loop src start n (Suc idx) (?r1, 8 * (start + Suc idx), sz - 8, 0)
              = Some (R, 8 * (start + Suc idx + n), sz - 8 - 8 * n, 0)
            \<and> acc_bits src (start + Suc idx) n (sz - 8) ?r1 R"
      using Suc.prems n by (intro Suc.IH) simp_all
    then obtain R where
      run: "extract_bits_loop src start n (Suc idx) (?r1, 8 * (start + Suc idx), sz - 8, 0)
              = Some (R, 8 * (start + Suc idx + n), sz - 8 - 8 * n, 0)"
      and R: "acc_bits src (start + Suc idx) n (sz - 8) ?r1 R"
      by blast
    have "acc_bits src ?a (Suc n) sz r R"
      using n Suc.prems(2) R by (intro acc_bits_step) simp_all
    moreover have "sz - 8 - 8 * n = sz - 8 * Suc n" "8 * (start + Suc idx + n) = 8 * (start + idx + Suc n)"
      by simp_all
    ultimately show ?thesis using step run by simp
  qed
qed


lemma bit_last_byte:
  "bit (drop_bit sp (ucast (B :: 8 word) AND drop_bit off (255 :: 64 word))) j
     \<longleftrightarrow> bit B (sp + j) \<and> sp + j + off < 8"
  unfolding bit_drop_bit_eq bit_masked_byte by simp

lemma u32_of_nat: "n < 4294967296 \<Longrightarrow> u32 (int n) = n"
  by (simp add: u32_def)

lemma extract_count:
  fixes w o8 :: nat
  assumes "o8 < 8" "1 \<le> w" "w \<le> 64"
  shows "u32 (int w + int o8 - 1) = w + o8 - 1"
proof -
  have "int w + int o8 - 1 = int (w + o8 - 1)" using assms(2) by simp
  moreover have "w + o8 - 1 < 4294967296" using assms by simp
  ultimately show ?thesis by (simp only: u32_of_nat)
qed

lemma extract_bits_unfold:
  assumes "o8 < 8" "1 \<le> w" "w \<le> 64"
  shows "extract_bits src \<lparr>span_pos = 8 * s + o8, span_size = w\<rparr> =
     (case extract_bits_loop src s ((w + o8 - 1) div 8) 0 (0, 8 * s + o8, w, o8) of
           None \<Rightarrow> None
         | Some (result, pos, sz, offset) \<Rightarrow>
             (let span = u32 (8 - (int offset + int sz)) in
              if s + (w + o8 - 1) div 8 < length src then
                (let last = ucast (src ! (s + (w + o8 - 1) div 8)) AND drop_bit offset (255 :: 64 word)
                 in Some (result OR drop_bit span last))
              else None))"
proof -
  have m: "(8 * s + o8) mod 8 = o8" using assms(1) by simp
  have d: "(8 * s + o8) div 8 = s" using assms(1) by simp
  have c: "u32 (int w + int o8 - 1) = w + o8 - 1" using assms by (rule extract_count)
  show ?thesis
    unfolding extract_bits_def by (simp only: Let_def bitspan.simps m d c)
qed

lemma extract_bits_case0:
  assumes "o8 < 8" "1 \<le> w" "w + o8 \<le> 8" "s < length src" "s < 268435456"
  shows "\<exists>r. extract_bits src \<lparr>span_pos = 8 * s + o8, span_size = w\<rparr> = Some r
     \<and> (\<forall>j. bit r j \<longleftrightarrow> j < w \<and> stream_bit src (8 * s + o8 + w - 1 - j))"
proof -
  have c0: "(w + o8 - 1) div 8 = 0" using assms by simp
  have sp: "u32 (8 - (int o8 + int w)) = 8 - (o8 + w)"
    using u32_nat_sub[of "o8 + w" 8] assms by simp
  have w64: "w \<le> 64" using assms by simp
  have run: "extract_bits src \<lparr>span_pos = 8 * s + o8, span_size = w\<rparr>
      = Some (0 OR drop_bit (8 - (o8 + w)) (ucast (src ! s) AND drop_bit o8 (255 :: 64 word)))"
    unfolding extract_bits_unfold[OF assms(1,2) w64] c0
    using assms(4) by (simp only: extract_bits_loop.simps option.case prod.case Let_def sp add_0_right if_True)
  have bits: "\<And>j. bit (0 OR drop_bit (8 - (o8 + w)) (ucast (src ! s) AND drop_bit o8 (255 :: 64 word))) j
      \<longleftrightarrow> j < w \<and> stream_bit src (8 * s + o8 + w - 1 - j)"
    unfolding bit_or_iff bit_last_byte
  proof -
    fix j
    define e where "e = 8 - (o8 + w) + j"
    show "bit (0 :: 64 word) j \<or> bit (src ! s) (8 - (o8 + w) + j) \<and> 8 - (o8 + w) + j + o8 < 8
      \<longleftrightarrow> j < w \<and> stream_bit src (8 * s + o8 + w - 1 - j)"
      unfolding e_def[symmetric]
    proof (cases "j < w")
      case True
      have e8: "e < 8" using True assms by (simp add: e_def)
      have "8 * s + o8 + w - 1 - j = 8 * s + 7 - e" using True assms by (simp add: e_def)
      then have "stream_bit src (8 * s + o8 + w - 1 - j) \<longleftrightarrow> bit (src ! s) e"
        using stream_bit_byte[OF e8, of src s] by simp
      moreover have "e + o8 < 8" using True assms by (simp add: e_def)
      ultimately show "bit (0 :: 64 word) j \<or> bit (src ! s) e \<and> e + o8 < 8
          \<longleftrightarrow> j < w \<and> stream_bit src (8 * s + o8 + w - 1 - j)" using True by simp
    next
      case False
      then have "\<not> e + o8 < 8" using assms by (simp add: e_def)
      then show "bit (0 :: 64 word) j \<or> bit (src ! s) e \<and> e + o8 < 8
          \<longleftrightarrow> j < w \<and> stream_bit src (8 * s + o8 + w - 1 - j)" using False by simp
    qed
  qed
  show ?thesis
    by (intro exI conjI allI) (rule run, rule bits)
qed


lemma loop_step_first:
  assumes "o8 < 8" "s < length src" "8 \<le> w + o8" "w \<le> 64" "s < 64"
  shows "extract_bits_loop src s (Suc n) 0 (0, 8 * s + o8, w, o8)
      = extract_bits_loop src s n (Suc 0)
          (push_bit (min (w + o8 - 8) 8) (0 OR (ucast (src ! s) AND drop_bit o8 255)),
           8 * (s + Suc 0), w + o8 - 8, 0)"
proof -
  have o: "o8 \<le> 8" using assms(1) by simp
  have d: "u32 (8 - int o8) = 8 - o8" using o by (rule u32_8_sub)
  have "8 * s + o8 + (8 - o8) < 4294967296" using assms(1,5) by simp
  then have "u32 (int (8 * s + o8) + int (8 - o8)) = 8 * s + o8 + (8 - o8)"
    by (rule u32_nat_add)
  moreover have "8 * s + o8 + (8 - o8) = 8 * (s + Suc 0)" using o by simp
  ultimately have p: "u32 (int (8 * s + o8) + int (8 - o8)) = 8 * (s + Suc 0)" by simp
  have "8 - o8 \<le> w" using assms(3) by simp
  moreover have "w < 4294967296" using assms(4) by simp
  ultimately have "u32 (int w - int (8 - o8)) = w - (8 - o8)" by (rule u32_nat_sub)
  moreover have "w - (8 - o8) = w + o8 - 8" using o by simp
  ultimately have z: "u32 (int w - int (8 - o8)) = w + o8 - 8" by simp
  have a: "s + 0 = s" by simp
  show ?thesis
    using assms(2)
    by (simp only: extract_bits_loop.simps Let_def d p z a if_True mod_mult_self1_is_0)
qed

lemma final_byte_bits:
  assumes "1 \<le> f" "f \<le> 8" "w + o8 = 8 * c + f"
  shows "bit (src ! (s + c)) (8 - f + j) \<and> 8 - f + j + 0 < 8
         \<longleftrightarrow> j < f \<and> stream_bit src (8 * s + o8 + w - 1 - j)"
proof (cases "j < f")
  case True
  define e where "e = 8 - f + j"
  have e8: "e < 8" using True assms(2) by (simp add: e_def)
  have "8 * s + (8 * c + f) - 1 - j = 8 * (s + c) + 7 - e"
    using True assms(2) by (simp add: e_def)
  then have "8 * s + o8 + w - 1 - j = 8 * (s + c) + 7 - e"
    using assms(3) by (simp add: add.assoc add.commute)
  then show ?thesis
    using stream_bit_byte[OF e8, of src "s + c"] True e8 by (simp add: e_def)
next
  case False
  then have "\<not> 8 - f + j + 0 < 8" using assms(1,2) by simp
  then show ?thesis using False by simp
qed


lemma first_byte_bits:
  assumes "o8 < 8" "1 \<le> c" "w + o8 = 8 * c + f" "f + 8 * (c - 1) \<le> j"
  shows "bit (src ! s) (j - f - 8 * (c - 1)) \<and> j - f - 8 * (c - 1) + o8 < 8
         \<longleftrightarrow> j < w \<and> stream_bit src (8 * s + o8 + w - 1 - j)"
proof -
  define e where "e = j - f - 8 * (c - 1)"
  have je: "j = e + f + 8 * (c - 1)" using assms(4) by (simp add: e_def)
  have c8: "8 * c = 8 * (c - 1) + 8" using assms(2) by simp
  have wo: "w + o8 = 8 * (c - 1) + 8 + f" using assms(3) c8 by simp
  have lt: "e + o8 < 8 \<longleftrightarrow> j < w" unfolding je using wo by auto
  show ?thesis unfolding e_def[symmetric]
  proof (cases "j < w")
    case True
    have e8: "e < 8" using True lt by simp
    have "8 * s + (w + o8) - 1 - j = 8 * s + 7 - e" unfolding wo je using e8 by simp
    then have "8 * s + o8 + w - 1 - j = 8 * s + 7 - e" by (simp add: add.assoc add.commute)
    then show "bit (src ! s) e \<and> e + o8 < 8 \<longleftrightarrow> j < w \<and> stream_bit src (8 * s + o8 + w - 1 - j)"
      using stream_bit_byte[OF e8, of src s] True lt by simp
  next
    case False
    then show "bit (src ! s) e \<and> e + o8 < 8 \<longleftrightarrow> j < w \<and> stream_bit src (8 * s + o8 + w - 1 - j)"
      using lt by simp
  qed
qed

lemma extract_bits_finish:
  assumes o8: "o8 < 8" and w: "1 \<le> w" "w \<le> 64" and c: "1 \<le> c" and f: "1 \<le> f" "f \<le> 8"
    and wo: "w + o8 = 8 * c + f" and len: "s + c < length src"
    and run: "extract_bits_loop src s c 0 (0, 8 * s + o8, w, o8) = Some (R, q, f, 0)"
    and R: "\<And>j. bit R j \<longleftrightarrow> f \<le> j \<and> j < w \<and> stream_bit src (8 * s + o8 + w - 1 - j)"
  shows "\<exists>r. extract_bits src \<lparr>span_pos = 8 * s + o8, span_size = w\<rparr> = Some r
     \<and> (\<forall>j. bit r j \<longleftrightarrow> j < w \<and> stream_bit src (8 * s + o8 + w - 1 - j))"
proof -
  have "w + o8 - 1 = c * 8 + (f - 1)" using wo f(1) by simp
  moreover have "(c * 8 + (f - 1)) div 8 = c" using f by simp
  ultimately have cnt: "(w + o8 - 1) div 8 = c" by simp
  have "u32 (int 8 - int f) = 8 - f" using f(2) by (intro u32_nat_sub) simp_all
  then have sp: "u32 (8 - (int 0 + int f)) = 8 - f" by simp
  have res: "extract_bits src \<lparr>span_pos = 8 * s + o8, span_size = w\<rparr>
      = Some (R OR drop_bit (8 - f) (ucast (src ! (s + c)) AND drop_bit 0 (255 :: 64 word)))"
    unfolding extract_bits_unfold[OF o8 w] cnt run
    using len by (simp only: option.case prod.case Let_def sp if_True)
  have fw: "f \<le> w" using wo o8 c by simp
  have bits: "\<And>j. bit (R OR drop_bit (8 - f) (ucast (src ! (s + c)) AND drop_bit 0 (255 :: 64 word))) j
      \<longleftrightarrow> j < w \<and> stream_bit src (8 * s + o8 + w - 1 - j)"
    unfolding bit_or_iff bit_last_byte R final_byte_bits[OF f wo]
    using fw by auto
  show ?thesis
    by (intro exI conjI allI) (rule res, rule bits)
qed

lemma extract_bits_one_iteration:
  assumes o8: "o8 < 8" and w: "1 \<le> w" "w \<le> 64" and f: "1 \<le> f" "f \<le> 8"
    and wo: "w + o8 = 8 + f" and len: "s + 1 < length src" and s: "s < 64"
  shows "\<exists>r. extract_bits src \<lparr>span_pos = 8 * s + o8, span_size = w\<rparr> = Some r
     \<and> (\<forall>j. bit r j \<longleftrightarrow> j < w \<and> stream_bit src (8 * s + o8 + w - 1 - j))"
proof -
  let ?r1 = "push_bit (min (w + o8 - 8) 8) (0 OR (ucast (src ! s) AND drop_bit o8 (255 :: 64 word)))"
  have s_in: "s < length src" using len by simp
  have ge: "8 \<le> w + o8" using wo by simp
  have run: "extract_bits_loop src s 1 0 (0, 8 * s + o8, w, o8)
               = Some (?r1, 8 * (s + Suc 0), f, 0)"
    using loop_step_first[OF o8 s_in ge w(2) s, of 0] wo by simp
  have wo1: "w + o8 = 8 * 1 + f" using wo by simp
  have zf: "w + o8 - 8 = f" "min f 8 = f" using wo f by simp_all
  have R: "\<And>j. bit ?r1 j \<longleftrightarrow> f \<le> j \<and> j < w \<and> stream_bit src (8 * s + o8 + w - 1 - j)"
  proof -
    fix j
    show "bit ?r1 j \<longleftrightarrow> f \<le> j \<and> j < w \<and> stream_bit src (8 * s + o8 + w - 1 - j)"
    proof (cases "f \<le> j")
      case True
      have fb: "bit (src ! s) (j - f - 8 * (1 - 1)) \<and> j - f - 8 * (1 - 1) + o8 < 8
         \<longleftrightarrow> j < w \<and> stream_bit src (8 * s + o8 + w - 1 - j)"
        using True by (intro first_byte_bits[OF o8 _ wo1]) simp_all
      have "j < w \<Longrightarrow> j < 64" using w(2) by simp
      then show ?thesis unfolding bit_shifted_acc zf using True fb by auto
    next
      case False
      then show ?thesis unfolding bit_shifted_acc zf by simp
    qed
  qed
  have len1: "s + 1 < length src" using len .
  show ?thesis
    using extract_bits_finish[OF o8 w _ f wo1 len1 run R] by simp
qed


lemma extract_bits_more_iterations:
  assumes o8: "o8 < 8" and w: "1 \<le> w" "w \<le> 64" and c: "2 \<le> c" and f: "1 \<le> f" "f \<le> 8"
    and wo: "w + o8 = 8 * c + f" and len: "s + c < length src" and s: "s + c < 64"
  shows "\<exists>r. extract_bits src \<lparr>span_pos = 8 * s + o8, span_size = w\<rparr> = Some r
     \<and> (\<forall>j. bit r j \<longleftrightarrow> j < w \<and> stream_bit src (8 * s + o8 + w - 1 - j))"
proof -
  define n where "n = c - 1"
  define z where "z = w + o8 - 8"
  define r1 where "r1 = push_bit (min z 8) (0 OR (ucast (src ! s) AND drop_bit o8 (255 :: 64 word)))"
  have cn: "c = Suc n" "0 < n" using c by (simp_all add: n_def)
  have zn: "z = 8 * n + f" using wo cn by (simp add: z_def)
  have s_in: "s < length src" using len by simp
  have s64: "s < 64" using s by simp
  have ge: "8 \<le> w + o8" using wo c by simp
  have first: "extract_bits_loop src s c 0 (0, 8 * s + o8, w, o8)
      = extract_bits_loop src s n (Suc 0) (r1, 8 * (s + Suc 0), z, 0)"
    unfolding cn(1) r1_def z_def by (rule loop_step_first[OF o8 s_in ge w(2) s64])
  have b1: "s + Suc 0 + n \<le> length src" using len cn by simp
  have b2: "8 * n < z" using zn f by simp
  have "z < 80" using w(2) o8 by (simp add: z_def)
  then have b3: "z < 2147483648" by simp
  have "s + Suc 0 + n < 64" using s cn by simp
  then have b4: "8 * (s + Suc 0 + n) < 2147483648" by simp
  obtain R where
    run: "extract_bits_loop src s n (Suc 0) (r1, 8 * (s + Suc 0), z, 0)
              = Some (R, 8 * (s + Suc 0 + n), z - 8 * n, 0)"
    and acc: "acc_bits src (s + Suc 0) n z r1 R"
    using loop_aligned[OF b1 b2 b3 b4 cn(2), of r1] by blast
  have zf: "z - 8 * n = f" "min f 8 = f" using zn f by simp_all
  have z8: "min z 8 = 8" using zn cn(2) by simp
  have run': "extract_bits_loop src s c 0 (0, 8 * s + o8, w, o8)
              = Some (R, 8 * (s + Suc 0 + n), f, 0)"
    using first run zf by simp
  have R: "\<And>j. bit R j \<longleftrightarrow> f \<le> j \<and> j < w \<and> stream_bit src (8 * s + o8 + w - 1 - j)"
  proof -
    fix j
    define S where "S = stream_bit src (8 * s + o8 + w - 1 - j)"
    have Rj: "bit R j \<longleftrightarrow> j < 64 \<and> f \<le> j
        \<and> ((j - f < 8 * n \<and> stream_bit src (8 * (s + Suc 0 + n) - 1 - (j - f)))
            \<or> (8 * (n - 1) \<le> j - f \<and> bit r1 (j - f - 8 * (n - 1))))"
      using acc[unfolded acc_bits_def zf, rule_format, of j] .
    have w64: "j < w \<Longrightarrow> j < 64" using w(2) by simp
    show "bit R j \<longleftrightarrow> f \<le> j \<and> j < w \<and> S"
    proof (cases "f \<le> j")
      case False
      then show ?thesis unfolding Rj by simp
    next
      case fj: True
      show ?thesis
      proof (cases "j - f < 8 * n")
        case True
        have "\<not> 8 \<le> j - f - 8 * (n - 1)" using True cn(2) by simp
        then have nr: "\<not> bit r1 (j - f - 8 * (n - 1))"
          unfolding r1_def bit_shifted_acc z8 by simp
        have jw: "j < w" using True fj wo cn(1) o8 by simp
        have "8 * (s + Suc 0 + n) - 1 - (j - f) = 8 * s + (8 * c + f) - 1 - j"
          using fj True cn(1) by simp
        also have "\<dots> = 8 * s + o8 + w - 1 - j" using wo by (simp add: add.assoc add.commute)
        finally have "stream_bit src (8 * (s + Suc 0 + n) - 1 - (j - f)) \<longleftrightarrow> S"
          unfolding S_def by simp
        then show ?thesis unfolding Rj using True fj nr jw w64 by simp
      next
        case False
        have a1: "8 * (n - 1) \<le> j - f" "8 \<le> j - f - 8 * (n - 1)" using False cn(2) by simp_all
        have a2: "j - f - 8 * (n - 1) - 8 = j - f - 8 * (c - 1)" using cn by simp
        have a3: "f + 8 * (c - 1) \<le> j" using False fj cn(1) by simp
        have c1: "1 \<le> c" using c by simp
        have fb: "bit (src ! s) (j - f - 8 * (c - 1)) \<and> j - f - 8 * (c - 1) + o8 < 8
                    \<longleftrightarrow> j < w \<and> S"
          unfolding S_def by (rule first_byte_bits[OF o8 c1 wo a3])
        have a4: "j < 64 \<Longrightarrow> j - f - 8 * (n - 1) < 64" by simp
        have "bit r1 (j - f - 8 * (n - 1)) \<longleftrightarrow> j - f - 8 * (n - 1) < 64 \<and> j < w \<and> S"
          unfolding r1_def bit_shifted_acc z8 a2 using a1(2) fb by simp
        then show ?thesis unfolding Rj using False fj a1(1) a4 w64 by auto
      qed
    qed
  qed
  have c1: "1 \<le> c" using c by simp
  show ?thesis
    by (rule extract_bits_finish[OF o8 w c1 f wo len run' R])
qed

lemma extract_bits_stream:
  assumes w: "1 \<le> w" "w \<le> 64" and pw: "p + w \<le> 512" and len: "(p + w - 1) div 8 < length src"
  shows "\<exists>r. extract_bits src \<lparr>span_pos = p, span_size = w\<rparr> = Some r
     \<and> (\<forall>j. bit r j \<longleftrightarrow> j < w \<and> stream_bit src (p + w - 1 - j))"
proof -
  define s where "s = p div 8"
  define o8 where "o8 = p mod 8"
  define c where "c = (w + o8 - 1) div 8"
  define f where "f = Suc ((w + o8 - 1) mod 8)"
  have p: "p = 8 * s + o8" by (simp add: s_def o8_def)
  have o8: "o8 < 8" by (simp add: o8_def)
  have f: "1 \<le> f" "f \<le> 8" by (simp_all add: f_def Suc_le_eq)
  have "w + o8 - 1 = 8 * c + (w + o8 - 1) mod 8" by (simp add: c_def)
  then have "Suc (w + o8 - 1) = 8 * c + f" by (simp add: f_def)
  then have wo: "w + o8 = 8 * c + f" using w(1) by simp
  have "p + w - 1 = 8 * s + (w + o8 - 1)" using w(1) by (simp add: p)
  then have "(p + w - 1) div 8 = s + c" by (simp add: c_def)
  then have len': "s + c < length src" using len by simp
  have "8 * (s + c) \<le> p + w - 1" using \<open>(p + w - 1) div 8 = s + c\<close>
    by (metis div_mult_mod_eq le_add1 mult.commute)
  then have sc: "s + c < 64" using pw w(1) by simp
  consider "c = 0" | "c = 1" | "2 \<le> c" by linarith
  then have "\<exists>r. extract_bits src \<lparr>span_pos = 8 * s + o8, span_size = w\<rparr> = Some r
     \<and> (\<forall>j. bit r j \<longleftrightarrow> j < w \<and> stream_bit src (8 * s + o8 + w - 1 - j))"
  proof cases
    case 1
    have "w + o8 \<le> 8" using wo f 1 by simp
    moreover have "s < length src" "s < 268435456" using len' sc by simp_all
    ultimately show ?thesis using o8 w(1) by (intro extract_bits_case0)
  next
    case 2
    have "w + o8 = 8 + f" using wo 2 by simp
    moreover have "s + 1 < length src" "s < 64" using len' sc 2 by simp_all
    ultimately show ?thesis using o8 w f by (intro extract_bits_one_iteration)
  next
    case 3
    then show ?thesis using o8 w f wo len' sc by (intro extract_bits_more_iterations)
  qed
  then show ?thesis unfolding p .
qed


lemma length_write_bits: "length (write_bits v p w) = 64"
  by (simp add: write_bits_def)

lemma stream_bit_write_bits:
  assumes "k < 512"
  shows "stream_bit (write_bits v p w) k \<longleftrightarrow>
           p \<le> k \<and> k < p + w \<and> bit (v AND mask w) (p + w - 1 - k)"
proof -
  define i where "i = k div 8"
  define b where "b = 7 - k mod 8"
  have i: "i < 64" using assms by (simp add: i_def)
  have b: "b < 8" by (simp add: b_def)
  have k: "8 * i + (7 - b) = k" by (simp add: i_def b_def)
  have "write_bits v p w ! i = horner_sum of_bool 2
          (map (\<lambda>b. p \<le> 8 * i + (7 - b) \<and> 8 * i + (7 - b) < p + w
                      \<and> bit (v AND mask w) (p + w - 1 - (8 * i + (7 - b)))) [0..<8])"
    using i by (simp add: write_bits_def)
  then have "bit (write_bits v p w ! i) b \<longleftrightarrow>
      p \<le> 8 * i + (7 - b) \<and> 8 * i + (7 - b) < p + w
                      \<and> bit (v AND mask w) (p + w - 1 - (8 * i + (7 - b)))"
    using b by (simp add: bit_horner_sum_bit_word_iff)
  then show ?thesis unfolding stream_bit_def i_def[symmetric] b_def[symmetric] k .
qed

text \<open>
  C7. For every bit position \<open>p\<close> and width \<open>w\<close> with \<open>w\<close> in [1,64] and
  \<open>p + w \<le> 512\<close>, and every 64-bit value \<open>v\<close>: writing the low \<open>w\<close> bits of \<open>v\<close> at
  \<open>(p, w)\<close> into a zeroed buffer of 64 bytes and extracting the span \<open>(p, w)\<close> from that
  buffer returns the low \<open>w\<close> bits of \<open>v\<close>.
\<close>

theorem extract_bits_roundtrip:
  assumes "1 \<le> w" "w \<le> 64" "p + w \<le> 512"
  shows "extract_bits (write_bits v p w) \<lparr>span_pos = p, span_size = w\<rparr> = Some (v AND mask w)"
proof -
  have "(p + w - 1) div 8 < 64" using assms by simp
  then have len: "(p + w - 1) div 8 < length (write_bits v p w)" by (simp add: length_write_bits)
  obtain r where
    run: "extract_bits (write_bits v p w) \<lparr>span_pos = p, span_size = w\<rparr> = Some r"
    and bits: "\<And>j. bit r j \<longleftrightarrow> j < w \<and> stream_bit (write_bits v p w) (p + w - 1 - j)"
    using extract_bits_stream[OF assms len] by blast
  have "r = v AND mask w"
  proof (rule bit_word_eqI)
    fix j
    assume "j < LENGTH(64)"
    show "bit r j \<longleftrightarrow> bit (v AND mask w) j"
    proof (cases "j < w")
      case True
      have k: "p + w - 1 - j < 512" using assms by simp
      have "p + w - 1 - (p + w - 1 - j) = j" using True by simp
      moreover have "p \<le> p + w - 1 - j" "p + w - 1 - j < p + w" using True by simp_all
      ultimately show ?thesis
        unfolding bits stream_bit_write_bits[OF k] using True by simp
    next
      case False
      then have "\<not> bit (v AND mask w) j" by (simp add: bit_and_iff bit_mask_iff)
      then show ?thesis unfolding bits using False by simp
    qed
  qed
  then show ?thesis using run by simp
qed

theorem extract_bits_roundtrip_witness:
  "(1::nat) \<le> 9 \<and> (9::nat) \<le> 64 \<and> (4::nat) + 9 \<le> 512
   \<and> extract_bits (write_bits 1023 4 9) \<lparr>span_pos = 4, span_size = 9\<rparr> = Some (1023 AND mask 9)"
  using extract_bits_roundtrip[of 9 4 1023] by simp

subsection \<open>Validation of buffered values\<close>

lemma validator_fn_make_settings:
  "map validator_fn (make_settings ss) = map validator_fn ss"
  by (simp add: make_settings_def Let_def)

lemma default_validators:
  "map validator_fn (get_default_settings usb) =
     [dispatch_validate_name, dispatch_validate_usb usb, validate T_uint32 [1000],
      validate T_bool [], validate T_uint32 [1000],
      validate T_bool [], validate T_bool [], validate T_bool [], validate T_bool [],
      validate T_int8 [0, 3], validate T_bool [], validate T_bool [],
      validate T_bool [], validate T_uint16 [], validate T_uint16 [],
      validate T_bool [], validate T_bool [], validate T_bool [], validate T_bool [],
      validate T_int8 [0, 3], validate T_bool [], validate T_bool [],
      validate T_bool [],
      validate T_bool [], validate T_bool [], validate T_bool [], validate T_bool [],
      validate T_int8 [0, 3], validate T_bool [], validate T_bool [],
      validate T_bool [],
      validate T_bool [], validate T_bool [], validate T_bool [], validate T_bool [],
      validate T_int8 [0, 3], validate T_bool [], validate T_bool []]"
  unfolding get_default_settings_def validator_fn_make_settings
  by (simp add: default_settings_list_def required_setting_def file_only_setting_def make_setting_def)

lemma length_default: "length (get_default_settings usb) = 38"
  using arg_cong[OF default_validators, of length usb] by simp

lemma view_value_set_value_u64: "view_value (set_value_u64 content s) = u64_bytes content"
  by (simp add: view_value_def set_value_u64_def u64_bytes_def)

lemma sizeof_le_4: "sizeof T \<le> 4"
  by (cases T) simp_all

text \<open>
  C1. The bit-frame parser fills a buffer through \<open>set_value(std::uint_fast64_t)\<close>, which
  always leaves a view of eight bytes. In message mode the range validator converts the
  view with \<open>convert_bits<T>\<close>, which returns \<open>T{}\<close> for every view longer than
  \<open>sizeof(T)\<close>; every admissible \<open>T\<close> has at most four bytes. The value that is checked
  against the thresholds, and cached, is therefore zero whatever the frame held, not the
  integer formed from the first \<open>sizeof(T)\<close> stored bytes.
\<close>

theorem message_value_read_as_zero:
  "convert_bits T (view_value (set_value_u64 content s)) = 0
   \<and> validate T minmax (view_value (set_value_u64 content s)) config_message
       = convert_result (to_setting_data T)
           (validate_value_range T 0
              (if 0 < length minmax then minmax ! 0 else type_min T)
              (if 1 < length minmax then minmax ! 1 else type_max T))"
proof -
  have "length (u64_bytes content) = 8" by (simp add: u64_bytes_def)
  then have "sizeof T < length (view_value (set_value_u64 content s))"
    using sizeof_le_4[of T] by (simp add: view_value_set_value_u64)
  then have z: "convert_bits T (view_value (set_value_u64 content s)) = 0"
    by (simp add: convert_bits_def)
  show ?thesis
    using z by (simp add: validate_def invoke_validator_def Let_def)
qed

lemma set_value_u64_fields:
  "validator_fn (set_value_u64 content s) = validator_fn s"
  "cache (set_value_u64 content s) = cache s"
  by (simp_all add: set_value_u64_def)

lemma is_set_set_value_u64: "is_set (set_value_u64 content s)"
  by (simp add: is_set_def view_value_set_value_u64 u64_bytes_def)

theorem message_value_read_as_zero_witness:
  "snd (setting_validate config_message
          (set_value_u64 5000 (get_default_settings (\<lambda>_. 0) ! 2))) = Some below_min_threshold
   \<and> cache (fst (setting_validate config_message
          (set_value_u64 5000 (get_default_settings (\<lambda>_. 0) ! 2)))) = Some (SD_uint32 0)"
proof -
  have v: "validator_fn (get_default_settings (\<lambda>_. 0) ! 2) = validate T_uint32 [1000]"
    using arg_cong[OF default_validators, of "\<lambda>xs. xs ! 2" "\<lambda>_. 0"]
    by (simp add: length_default)
  show ?thesis
    using message_value_read_as_zero[of T_uint32 5000 "get_default_settings (\<lambda>_. 0) ! 2" "[1000]"]
    by (simp add: setting_validate_def is_set_set_value_u64 set_value_u64_fields v
        convert_result_def validate_value_range_def)
qed


lemma validate_value_range_data: "fst (validate_value_range T v mn mx) = Some v"
  by (simp add: validate_value_range_def)

lemma validate_value_range_status:
  "snd (validate_value_range T v mn mx) \<in> {None, Some below_min_threshold, Some above_max_threshold}"
  by (simp add: validate_value_range_def)

lemma validate_value_data_iff:
  "fst (validate_value T v mn mx) \<noteq> None \<longleftrightarrow>
     snd (validate_value T v mn mx) \<in> {None, Some below_min_threshold, Some above_max_threshold}"
  using validate_value_range_data[of T "fst (from_chars (if T = T_bool then T_uint8 else T) v)" mn mx]
    validate_value_range_status[of T "fst (from_chars (if T = T_bool then T_uint8 else T) v)" mn mx]
  by (auto simp add: validate_value_def Let_def split: prod.splits)

lemma validate_data_iff:
  "fst (validate T minmax v mode) \<noteq> None \<longleftrightarrow>
     snd (validate T minmax v mode) \<in> {None, Some below_min_threshold, Some above_max_threshold}"
proof (cases mode)
  case config_file
  then show ?thesis
    using validate_value_data_iff
    by (simp add: validate_def Let_def invoke_validator_def convert_result_def)
next
  case config_message
  then show ?thesis
    using validate_value_range_data validate_value_range_status
    by (simp add: validate_def Let_def invoke_validator_def convert_result_def)
qed

lemma dispatch_validate_name_data_iff:
  "fst (dispatch_validate_name v mode) \<noteq> None \<longleftrightarrow> snd (dispatch_validate_name v mode) = None"
  by (simp add: dispatch_validate_name_def convert_result_def validate_name_def)

lemma dispatch_validate_name_status:
  "snd (dispatch_validate_name v mode) \<notin> {Some below_min_threshold, Some above_max_threshold}"
  by (simp add: dispatch_validate_name_def convert_result_def validate_name_def)

lemma dispatch_validate_usb_data_iff:
  "fst (dispatch_validate_usb usb v mode) \<noteq> None \<longleftrightarrow> snd (dispatch_validate_usb usb v mode) = None"
  by (simp add: dispatch_validate_usb_def convert_result_def validate_usb_def)

lemma dispatch_validate_usb_status:
  "snd (dispatch_validate_usb usb v mode) \<notin> {Some below_min_threshold, Some above_max_threshold}"
  by (simp add: dispatch_validate_usb_def convert_result_def validate_usb_def)

lemma default_validator_cases:
  assumes "i < length (get_default_settings usb)"
  shows "validator_fn (get_default_settings usb ! i) = dispatch_validate_name
       \<or> validator_fn (get_default_settings usb ! i) = dispatch_validate_usb usb
       \<or> (\<exists>T minmax. validator_fn (get_default_settings usb ! i) = validate T minmax)"
proof -
  have "validator_fn (get_default_settings usb ! i)
          \<in> set (map validator_fn (get_default_settings usb))"
    using assms by (metis length_map nth_map nth_mem)
  then show ?thesis unfolding default_validators by auto
qed

lemma default_validator_data_iff:
  assumes "i < length (get_default_settings usb)"
  shows "fst (validator_fn (get_default_settings usb ! i) v mode) \<noteq> None \<longleftrightarrow>
         snd (validator_fn (get_default_settings usb ! i) v mode)
           \<in> {None, Some below_min_threshold, Some above_max_threshold}"
  using default_validator_cases[OF assms]
    validate_data_iff dispatch_validate_name_data_iff[of v mode] dispatch_validate_name_status[of v mode]
    dispatch_validate_usb_data_iff[of usb v mode] dispatch_validate_usb_status[of usb v mode]
  by (elim disjE exE) auto

lemma setting_validate_unset: "\<not> is_set s \<Longrightarrow> setting_validate mode s = (s, Some setting_unset)"
  by (simp add: setting_validate_def)

lemma setting_validate_set:
  "is_set s \<Longrightarrow> setting_validate mode s
      = (s\<lparr>cache := fst (validator_fn s (view_value s) mode)\<rparr>,
         snd (validator_fn s (view_value s) mode))"
  by (simp add: setting_validate_def split: prod.splits)

text \<open>
  C3, as amended. For every setting with a validator of the default schema: a
  \<open>validate\<close> call on an unset buffer returns \<open>setting_unset\<close> and leaves the setting, and
  so its cache, as it was; a \<open>validate\<close> call on a set buffer stores the data member of the
  validator's result in the cache and returns its status, and the cache is then populated
  exactly when the status is Ok, \<open>below_min_threshold\<close> or \<open>above_max_threshold\<close>.
\<close>

theorem validate_cache_contents:
  assumes "i < length (get_default_settings usb)"
    and "validator_fn s = validator_fn (get_default_settings usb ! i)"
  shows "(\<not> is_set s \<longrightarrow> setting_validate mode s = (s, Some setting_unset))
       \<and> (is_set s \<longrightarrow>
            cache (fst (setting_validate mode s)) = fst (validator_fn s (view_value s) mode)
          \<and> snd (setting_validate mode s) = snd (validator_fn s (view_value s) mode)
          \<and> (cache (fst (setting_validate mode s)) \<noteq> None \<longleftrightarrow>
               snd (setting_validate mode s)
                 \<in> {None, Some below_min_threshold, Some above_max_threshold}))"
  using default_validator_data_iff[OF assms(1), of "view_value s" mode] assms(2)
  by (simp add: setting_validate_unset setting_validate_set)

lemma set_value_fields:
  "validator_fn (set_value content s) = validator_fn s"
  "cache (set_value content s) = cache s"
  "ident (set_value content s) = ident s"
  "action_fn (set_value content s) = action_fn s"
  "stype (set_value content s) = stype s"
  by (simp_all add: set_value_def Let_def)

lemma view_value_set_value:
  "view_value (set_value content s) = take max_value_size content"
  by (simp add: view_value_def set_value_def Let_def min_def)

lemma from_chars_7: "from_chars T_int8 ''7'' = (7, errc_none)"
  by (simp add: from_chars_def is_digit_def digits_value_def Let_def)

lemma validate_int8_7: "validate T_int8 [0, 3] ''7'' config_file = (Some (SD_int8 7), Some above_max_threshold)"
  by (simp add: validate_def invoke_validator_def validate_value_def from_chars_7
      validate_value_range_def convert_result_def)

text \<open>
  C3, as stated, fails: the value 7 for the LoRaWAN priority of the time trigger (range
  0..3) is rejected with \<open>above_max_threshold\<close>, and the cache is populated with 7.
\<close>

theorem validate_cache_populated_on_range_error:
  "snd (setting_validate config_file (set_value ''7'' (get_default_settings (\<lambda>_. 0) ! 9)))
     = Some above_max_threshold
   \<and> cache (fst (setting_validate config_file
                   (set_value ''7'' (get_default_settings (\<lambda>_. 0) ! 9))))
     = Some (SD_int8 7)"
proof -
  have v: "validator_fn (get_default_settings (\<lambda>_. 0) ! 9) = validate T_int8 [0, 3]"
    using arg_cong[OF default_validators, of "\<lambda>xs. xs ! 9" "\<lambda>_. 0"]
    by (simp add: length_default)
  have set: "is_set (set_value ''7'' (get_default_settings (\<lambda>_. 0) ! 9))"
    by (simp add: is_set_def view_value_set_value max_value_size_def)
  show ?thesis
    by (simp add: setting_validate_set[OF set] set_value_fields v view_value_set_value
        max_value_size_def validate_int8_7)
qed

theorem validate_cache_contents_witness:
  "9 < length (get_default_settings (\<lambda>_. 0))
   \<and> validator_fn (set_value ''7'' (get_default_settings (\<lambda>_. 0) ! 9))
       = validator_fn (get_default_settings (\<lambda>_. 0) ! 9)
   \<and> is_set (set_value ''7'' (get_default_settings (\<lambda>_. 0) ! 9))
   \<and> (cache (fst (setting_validate config_file
                     (set_value ''7'' (get_default_settings (\<lambda>_. 0) ! 9)))) \<noteq> None \<longleftrightarrow>
        snd (setting_validate config_file (set_value ''7'' (get_default_settings (\<lambda>_. 0) ! 9)))
          \<in> {None, Some below_min_threshold, Some above_max_threshold})"
proof -
  have l: "9 < length (get_default_settings (\<lambda>_. 0))" by (simp add: length_default)
  have v: "validator_fn (set_value ''7'' (get_default_settings (\<lambda>_. 0) ! 9))
       = validator_fn (get_default_settings (\<lambda>_. 0) ! 9)" by (simp add: set_value_fields)
  have set: "is_set (set_value ''7'' (get_default_settings (\<lambda>_. 0) ! 9))"
    by (simp add: is_set_def view_value_set_value max_value_size_def)
  show ?thesis
    using validate_cache_contents[OF l v, of config_file] l v set by blast
qed

subsection \<open>Setting handler\<close>

lemma add_error_stored:
  assumes "add_error c h = Some h1"
  shows "stored_errors h1 = stored_errors h @ [c]"
proof -
  have lt: "top_error h < length (errors h)"
    using assms by (auto simp add: add_error_def split: if_splits)
  then have "h1 = \<lparr>errors = (errors h)[top_error h := c], top_error = Suc (top_error h)\<rparr>"
    using assms add_error_in_bounds[OF lt, of c] by simp
  then show ?thesis using lt by (simp add: stored_errors_def take_Suc_conv_app_nth)
qed

lemma setting_validate_fields:
  "ident (fst (setting_validate mode s)) = ident s"
  "stype (fst (setting_validate mode s)) = stype s"
  "action_fn (fst (setting_validate mode s)) = action_fn s"
  by (simp_all add: setting_validate_def split: prod.splits)

lemma handle_invalid_setting_stored:
  assumes "handle_invalid_setting s e h = Some h1"
  shows "stored_errors (unset_setting_errors h1) = stored_errors (unset_setting_errors h)
            @ (if e = setting_unset \<and> stype s = required
               then [code_validation e (word_of_int (setting_underlying (ident s)))] else [])"
    and "stored_errors (invalid_value_errors h1) = stored_errors (invalid_value_errors h)
            @ (if e = setting_unset then []
               else [code_validation e (word_of_int (setting_underlying (ident s)))])"
    and "mode_of h1 = mode_of h"
  using assms
  by (auto simp add: handle_invalid_setting_def add_validation_error_def
      dest: add_error_stored split: if_splits option.splits intro: setting_type.exhaust)

lemma apply_valid_setting_stored:
  assumes "apply_valid_setting s (config, h) = Some (s1, config1, h1)"
  shows "stored_errors (unset_setting_errors h1)
           = stored_errors (unset_setting_errors h) @ unset_codes (mode_of h) s"
    and "stored_errors (invalid_value_errors h1)
           = stored_errors (invalid_value_errors h) @ invalid_codes (mode_of h) s"
    and "mode_of h1 = mode_of h"
proof -
  obtain s' st where v: "setting_validate (mode_of h) s = (s', st)" by (cases "setting_validate (mode_of h) s")
  have f: "ident s' = ident s" "stype s' = stype s"
    using setting_validate_fields[of "mode_of h" s] v by simp_all
  show "stored_errors (unset_setting_errors h1)
           = stored_errors (unset_setting_errors h) @ unset_codes (mode_of h) s"
    and "stored_errors (invalid_value_errors h1)
           = stored_errors (invalid_value_errors h) @ invalid_codes (mode_of h) s"
    and "mode_of h1 = mode_of h"
    using assms v f handle_invalid_setting_stored[of s' _ h h1]
    by (auto simp add: apply_valid_setting_def unset_codes_def invalid_codes_def
        split: option.splits)
qed

lemma apply_valid_settings_stored:
  assumes "apply_valid_settings ss (config, h) = Some (ss1, config1, h1)"
  shows "stored_errors (unset_setting_errors h1)
           = stored_errors (unset_setting_errors h) @ concat (map (unset_codes (mode_of h)) ss)
       \<and> stored_errors (invalid_value_errors h1)
           = stored_errors (invalid_value_errors h) @ concat (map (invalid_codes (mode_of h)) ss)
       \<and> mode_of h1 = mode_of h"
  using assms
proof (induction ss arbitrary: config h ss1)
  case Nil
  then show ?case by simp
next
  case (Cons s ss)
  from Cons.prems obtain s' c2 h2 rest where
    step: "apply_valid_setting s (config, h) = Some (s', c2, h2)"
    and rest: "apply_valid_settings ss (c2, h2) = Some (rest, config1, h1)"
    by (auto split: option.splits)
  note a = apply_valid_setting_stored[OF step]
  note b = Cons.IH[OF rest]
  show ?case using a b by simp
qed


lemma make_settings_fields:
  "map ident (make_settings ss) = map ident ss"
  "map stype (make_settings ss) = map stype ss"
  "map value_size (make_settings ss) = map value_size ss"
  "map action_fn (make_settings ss) = map action_fn ss"
  "map cfg_bits (make_settings ss) = map cfg_bits ss"
  "map cache (make_settings ss) = map cache ss"
  by (simp_all add: make_settings_def Let_def)

lemma default_idents:
  "map ident (get_default_settings usb) =
     [id_device_name, id_usb_detection, id_usb_interval_ms,
      id_time_trigger_enabled, id_time_trigger_interval, id_time_trigger_thp,
      id_time_trigger_acc_gyro, id_time_trigger_magnetometer, id_time_trigger_light_intensity,
      id_time_trigger_lora_priority, id_time_trigger_write_to_lora, id_time_trigger_write_to_sd,
      id_light_trigger_enabled, id_light_trigger_low_threshold, id_light_trigger_high_threshold,
      id_light_trigger_thp, id_light_trigger_acc_gyro, id_light_trigger_magnetometer,
      id_light_trigger_light_intensity, id_light_trigger_lora_priority, id_light_trigger_write_to_lora,
      id_light_trigger_write_to_sd, id_acceleration_trigger_enabled, id_acceleration_trigger_thp,
      id_acceleration_trigger_acc_gyro, id_acceleration_trigger_magnetometer, id_acceleration_trigger_light_intensity,
      id_acceleration_trigger_lora_priority, id_acceleration_trigger_write_to_lora, id_acceleration_trigger_write_to_sd,
      id_orientation_trigger_enabled, id_orientation_trigger_thp, id_orientation_trigger_acc_gyro,
      id_orientation_trigger_magnetometer, id_orientation_trigger_light_intensity, id_orientation_trigger_lora_priority,
      id_orientation_trigger_write_to_lora, id_orientation_trigger_write_to_sd]"
  unfolding get_default_settings_def make_settings_fields
  by (simp add: default_settings_list_def required_setting_def file_only_setting_def make_setting_def)

lemma default_stypes:
  "map stype (get_default_settings usb) = optional # replicate 37 required"
  unfolding get_default_settings_def make_settings_fields
  by (simp add: default_settings_list_def required_setting_def file_only_setting_def make_setting_def
      eval_nat_numeral)

lemma default_value_sizes:
  "map value_size (get_default_settings usb) = replicate 38 0"
  unfolding get_default_settings_def make_settings_fields
  by (simp add: default_settings_list_def required_setting_def file_only_setting_def make_setting_def
      eval_nat_numeral)

lemma default_nth_field:
  assumes "map f (get_default_settings usb) = xs" "i < 38"
  shows "f (get_default_settings usb ! i) = xs ! i"
  using assms length_default[of usb] by (metis nth_map)

lemma setting_underlying_range: "0 \<le> setting_underlying i \<and> setting_underlying i \<le> 38"
  by (cases i) simp_all

lemma setting_id_word_small:
  "(word_of_int (setting_underlying i) :: 32 word) < 2 ^ 24"
proof -
  have "uint (word_of_int (setting_underlying i) :: 32 word) = setting_underlying i"
    using setting_underlying_range[of i] by (simp add: uint_word_of_int take_bit_int_eq_self)
  then show ?thesis using setting_underlying_range[of i] by (simp add: word_less_def)
qed

lemma validation_code_fields:
  "code_data (code_validation e (word_of_int (setting_underlying i))) = word_of_int (setting_underlying i)"
  "code_kind (code_validation e (word_of_int (setting_underlying i))) = validation_underlying e"
  "code_category (code_validation e (word_of_int (setting_underlying i))) = category_underlying cat_validation"
proof -
  have k: "validation_underlying e \<le> 31" by (cases e) simp_all
  have c: "category_underlying cat_validation \<le> 7" by simp
  note f = code_with_data_fields[OF c k setting_id_word_small[of i]]
  show "code_data (code_validation e (word_of_int (setting_underlying i))) = word_of_int (setting_underlying i)"
  "code_kind (code_validation e (word_of_int (setting_underlying i))) = validation_underlying e"
  "code_category (code_validation e (word_of_int (setting_underlying i))) = category_underlying cat_validation"
    using f by (simp_all add: code_validation_def)
qed

lemma unset_setting_codes:
  assumes "\<not> is_set s"
  shows "invalid_codes mode s = []"
    and "stype s = optional \<Longrightarrow> unset_codes mode s = []"
    and "stype s = required \<Longrightarrow> unset_codes mode s
            = [code_validation setting_unset (word_of_int (setting_underlying (ident s)))]"
  using assms by (simp_all add: invalid_codes_def unset_codes_def setting_validate_unset)

lemma stored_new: "stored_errors (new_error_handler n) = []"
  by (simp add: stored_errors_def new_error_handler_def)

text \<open>
  C9. The setting handler processes a schema from freshly constructed error buffers.
  Afterwards the unset-setting buffer holds the codes \<open>unset_codes\<close> of the settings, in
  schema order, and the invalid-value buffer the codes \<open>invalid_codes\<close>. A setting whose
  buffer was never written adds nothing to the invalid-value buffer; when it is optional
  it adds nothing to the unset-setting buffer either, and when it is required it adds
  exactly one code there, of category validation and type \<open>setting_unset\<close>, whose data
  is the identifier of the setting.
\<close>

theorem unset_settings_errors:
  assumes "apply_valid_settings ss (config, new_setting_handler n mode) = Some (ss1, config1, h1)"
  shows "stored_errors (unset_setting_errors h1) = concat (map (unset_codes mode) ss)
       \<and> stored_errors (invalid_value_errors h1) = concat (map (invalid_codes mode) ss)
       \<and> (\<forall>s \<in> set ss. \<not> is_set s \<longrightarrow>
             invalid_codes mode s = []
           \<and> (stype s = optional \<longrightarrow> unset_codes mode s = [])
           \<and> (stype s = required \<longrightarrow>
                 unset_codes mode s
                   = [code_validation setting_unset (word_of_int (setting_underlying (ident s)))]
               \<and> code_category (code_validation setting_unset
                                   (word_of_int (setting_underlying (ident s))))
                   = category_underlying cat_validation
               \<and> code_kind (code_validation setting_unset
                               (word_of_int (setting_underlying (ident s))))
                   = validation_underlying setting_unset
               \<and> code_data (code_validation setting_unset
                               (word_of_int (setting_underlying (ident s))))
                   = word_of_int (setting_underlying (ident s))))"
proof -
  have m: "mode_of (new_setting_handler n mode) = mode" by (simp add: new_setting_handler_def)
  have "stored_errors (unset_setting_errors (new_setting_handler n mode)) = []"
    "stored_errors (invalid_value_errors (new_setting_handler n mode)) = []"
    by (simp_all add: new_setting_handler_def stored_new)
  then have "stored_errors (unset_setting_errors h1) = concat (map (unset_codes mode) ss)"
    "stored_errors (invalid_value_errors h1) = concat (map (invalid_codes mode) ss)"
    using apply_valid_settings_stored[OF assms] m by simp_all
  then show ?thesis
    using unset_setting_codes validation_code_fields by simp
qed

lemma default_unset: "i < 38 \<Longrightarrow> \<not> is_set (get_default_settings usb ! i)"
  using default_nth_field[OF default_value_sizes, of i usb]
  by (simp add: is_set_def view_value_def)

theorem unset_settings_errors_witness:
  "apply_valid_settings
     [get_default_settings (\<lambda>_. 0) ! 0, get_default_settings (\<lambda>_. 0) ! 3]
     (main_configuration (\<lambda>_. 0) [], new_setting_handler 2 config_file)
   = Some ([get_default_settings (\<lambda>_. 0) ! 0, get_default_settings (\<lambda>_. 0) ! 3],
           main_configuration (\<lambda>_. 0) [],
           \<lparr>unset_setting_errors =
              \<lparr>errors = [code_validation setting_unset 4, 0], top_error = 1\<rparr>,
            invalid_value_errors = new_error_handler 2,
            mode_of = config_file\<rparr>)
   \<and> unset_codes config_file (get_default_settings (\<lambda>_. 0) ! 0) = []
   \<and> unset_codes config_file (get_default_settings (\<lambda>_. 0) ! 3)
       = [code_validation setting_unset 4]
   \<and> stored_errors \<lparr>errors = [code_validation setting_unset 4, 0], top_error = 1\<rparr>
       = [code_validation setting_unset 4]
   \<and> stored_errors (new_error_handler 2) = []
   \<and> code_data (code_validation setting_unset 4) = 4"
proof -
  let ?d0 = "get_default_settings (\<lambda>_. 0) ! 0"
  let ?d3 = "get_default_settings (\<lambda>_. 0) ! 3"
  let ?h1 = "\<lparr>unset_setting_errors =
              \<lparr>errors = [code_validation setting_unset 4, 0], top_error = 1\<rparr>,
            invalid_value_errors = new_error_handler 2,
            mode_of = config_file\<rparr>"
  have u: "\<not> is_set ?d0" "\<not> is_set ?d3" by (simp_all add: default_unset)
  have t: "stype ?d0 = optional" "stype ?d3 = required"
    using default_nth_field[OF default_stypes, of 0 "\<lambda>_. 0"]
      default_nth_field[OF default_stypes, of 3 "\<lambda>_. 0"] by (simp_all add: eval_nat_numeral)
  have i: "ident ?d3 = id_time_trigger_enabled"
    using default_nth_field[OF default_idents, of 3 "\<lambda>_. 0"] by simp
  have new2: "new_error_handler 2 = \<lparr>errors = [0, 0], top_error = 0\<rparr>"
    by (simp add: new_error_handler_def numeral_2_eq_2)
  have run: "apply_valid_settings [?d0, ?d3]
     (main_configuration (\<lambda>_. 0) [], new_setting_handler 2 config_file)
   = Some ([?d0, ?d3], main_configuration (\<lambda>_. 0) [], ?h1)"
    by (simp add: apply_valid_setting_def setting_validate_unset u t i handle_invalid_setting_def
        add_validation_error_def add_error_def new_setting_handler_def new2
        is_error_limit_reached_def)
  note main = unset_settings_errors[OF run]
  have c2: "unset_codes config_file ?d0 = []"
    using main u(1) t(1) by simp
  have c3: "unset_codes config_file ?d3 = [code_validation setting_unset 4]"
    using main u(2) t(2) i by simp
  have c4: "stored_errors \<lparr>errors = [code_validation setting_unset 4, 0], top_error = 1\<rparr>
       = [code_validation setting_unset 4]"
    by (simp add: stored_errors_def)
  have c5: "stored_errors (new_error_handler 2) = []" by (rule stored_new)
  have c6: "code_data (code_validation setting_unset 4) = 4"
    using main u(2) t(2) i by simp
  show ?thesis
    by (intro conjI) (rule run, rule c2, rule c3, rule c4, rule c5, rule c6)
qed

subsection \<open>Verification rules\<close>

lemma new5: "new_error_handler 5 = \<lparr>errors = [0, 0, 0, 0, 0], top_error = 0\<rparr>"
  by (simp add: new_error_handler_def eval_nat_numeral)

lemma length_rules: "length get_default_verification_rules = 5"
  by (simp add: get_default_verification_rules_def)

lemma verify_main_config_default:
  "verify_main_config get_default_verification_rules config
     = verify_rules get_default_verification_rules config
         \<lparr>errors = [0, 0, 0, 0, 0], top_error = 0\<rparr>"
  by (simp only: verify_main_config_def length_rules new5)

lemma add_first_verification_error:
  "add_verification_error e i \<lparr>errors = [0, 0, 0, 0, 0], top_error = 0\<rparr>
     = Some \<lparr>errors = [code_verification e i, 0, 0, 0, 0], top_error = 1\<rparr>"
  by (simp add: add_verification_error_def add_error_def is_error_limit_reached_def)

lemma verify_all_disabled:
  assumes "\<not> enable (time (trigger (framework config)))"
    "\<not> enable (light (trigger (framework config)))"
    "\<not> enable (acceleration (trigger (framework config)))"
    "\<not> enable (orientation (trigger (framework config)))"
  shows "verify_main_config get_default_verification_rules config
           = Some \<lparr>errors = [code_verification no_trigger_enabled 1, 0, 0, 0, 0], top_error = 1\<rparr>"
  unfolding verify_main_config_default
  using assms
  by (simp add: get_default_verification_rules_def
      verify_def is_any_trigger_enabled_def verify_data_destination_def
      add_first_verification_error)

lemma verify_one_enabled_no_destination:
  assumes "\<forall>u. trigger_enabled u config \<longleftrightarrow> u = t"
    "\<not> lora (trigger_write_to t config)" "\<not> sd (trigger_write_to t config)"
  shows "verify_main_config get_default_verification_rules config
           = Some \<lparr>errors = [code_verification no_data_destination_enabled
                                (word_of_int (verification_id_underlying (trigger_rule_id t))),
                              0, 0, 0, 0], top_error = 1\<rparr>"
proof -
  have e: "trigger_enabled Time_trigger config \<longleftrightarrow> Time_trigger = t"
    "trigger_enabled Light_trigger config \<longleftrightarrow> Light_trigger = t"
    "trigger_enabled Acceleration_trigger config \<longleftrightarrow> Acceleration_trigger = t"
    "trigger_enabled Orientation_trigger config \<longleftrightarrow> Orientation_trigger = t"
    using assms(1) by blast+
  show ?thesis
    unfolding verify_main_config_default
    using e assms(2,3)
    by (cases t)
       (simp_all add: get_default_verification_rules_def
          verify_def is_any_trigger_enabled_def verify_data_destination_def
          add_first_verification_error)
qed


lemma verification_code_fields:
  "code_data (code_verification e (word_of_int (verification_id_underlying i)))
     = word_of_int (verification_id_underlying i)"
  "code_kind (code_verification e (word_of_int (verification_id_underlying i)))
     = verification_underlying e"
  "code_category (code_verification e (word_of_int (verification_id_underlying i)))
     = category_underlying cat_verification"
proof -
  have k: "verification_underlying e \<le> 31" by (cases e) simp_all
  have c: "category_underlying cat_verification \<le> 7" by simp
  have d: "(word_of_int (verification_id_underlying i) :: 32 word) < 2 ^ 24" by (cases i) simp_all
  note f = code_with_data_fields[OF c k d]
  show "code_data (code_verification e (word_of_int (verification_id_underlying i)))
     = word_of_int (verification_id_underlying i)"
  "code_kind (code_verification e (word_of_int (verification_id_underlying i)))
     = verification_underlying e"
  "code_category (code_verification e (word_of_int (verification_id_underlying i)))
     = category_underlying cat_verification"
    using f by (simp_all add: code_verification_def)
qed

text \<open>
  C5. For every configuration in which all four triggers are disabled, the default
  verification rules report exactly one error, \<open>no_trigger_enabled\<close> for the rule
  \<open>trigger_requirement\<close>. For every configuration in which exactly one trigger is enabled
  and that trigger writes neither to LoRa nor to the SD card, they report exactly one
  error, \<open>no_data_destination_enabled\<close>, whose data is the identifier of the rule of that
  trigger.
\<close>

theorem verification_totality:
  "((\<forall>u. \<not> trigger_enabled u config) \<longrightarrow>
      (\<exists>h. verify_main_config get_default_verification_rules config = Some h
         \<and> stored_errors h
             = [code_verification no_trigger_enabled
                  (word_of_int (verification_id_underlying trigger_requirement))]))
   \<and> ((\<forall>u. trigger_enabled u config \<longleftrightarrow> u = t)
        \<and> \<not> lora (trigger_write_to t config) \<and> \<not> sd (trigger_write_to t config) \<longrightarrow>
      (\<exists>h. verify_main_config get_default_verification_rules config = Some h
         \<and> stored_errors h
             = [code_verification no_data_destination_enabled
                  (word_of_int (verification_id_underlying (trigger_rule_id t)))]
         \<and> code_data (code_verification no_data_destination_enabled
                         (word_of_int (verification_id_underlying (trigger_rule_id t))))
             = word_of_int (verification_id_underlying (trigger_rule_id t))))"
proof (intro conjI impI)
  assume a: "\<forall>u. \<not> trigger_enabled u config"
  have "\<not> trigger_enabled Time_trigger config" "\<not> trigger_enabled Light_trigger config"
    "\<not> trigger_enabled Acceleration_trigger config" "\<not> trigger_enabled Orientation_trigger config"
    using a by blast+
  then have "verify_main_config get_default_verification_rules config
           = Some \<lparr>errors = [code_verification no_trigger_enabled 1, 0, 0, 0, 0], top_error = 1\<rparr>"
    by (intro verify_all_disabled) simp_all
  then show "\<exists>h. verify_main_config get_default_verification_rules config = Some h
         \<and> stored_errors h
             = [code_verification no_trigger_enabled
                  (word_of_int (verification_id_underlying trigger_requirement))]"
    by (simp add: stored_errors_def)
next
  assume b: "(\<forall>u. trigger_enabled u config \<longleftrightarrow> u = t)
        \<and> \<not> lora (trigger_write_to t config) \<and> \<not> sd (trigger_write_to t config)"
  then have "verify_main_config get_default_verification_rules config
           = Some \<lparr>errors = [code_verification no_data_destination_enabled
                                (word_of_int (verification_id_underlying (trigger_rule_id t))),
                              0, 0, 0, 0], top_error = 1\<rparr>"
    by (intro verify_one_enabled_no_destination) simp_all
  then show "\<exists>h. verify_main_config get_default_verification_rules config = Some h
         \<and> stored_errors h
             = [code_verification no_data_destination_enabled
                  (word_of_int (verification_id_underlying (trigger_rule_id t)))]
         \<and> code_data (code_verification no_data_destination_enabled
                         (word_of_int (verification_id_underlying (trigger_rule_id t))))
             = word_of_int (verification_id_underlying (trigger_rule_id t))"
    by (simp add: stored_errors_def verification_code_fields)
qed

lemma upd_enable_simps:
  "enable (time (trigger (framework (upd_time f c)))) = enable (f (time (trigger (framework c))))"
  "enable (light (trigger (framework (upd_time f c)))) = enable (light (trigger (framework c)))"
  "enable (acceleration (trigger (framework (upd_time f c)))) = enable (acceleration (trigger (framework c)))"
  "enable (orientation (trigger (framework (upd_time f c)))) = enable (orientation (trigger (framework c)))"
  by (simp_all add: upd_time_def upd_trigger_def)


theorem verification_totality_witness:
  "(\<forall>u. \<not> trigger_enabled u
      (upd_orientation (enable_update (\<lambda>_. False))
        (upd_acceleration (enable_update (\<lambda>_. False))
          (upd_light (enable_update (\<lambda>_. False))
            (upd_time (enable_update (\<lambda>_. False)) (main_configuration (\<lambda>_. 0) []))))))
   \<and> (\<exists>h. verify_main_config get_default_verification_rules
      (upd_orientation (enable_update (\<lambda>_. False))
        (upd_acceleration (enable_update (\<lambda>_. False))
          (upd_light (enable_update (\<lambda>_. False))
            (upd_time (enable_update (\<lambda>_. False)) (main_configuration (\<lambda>_. 0) []))))) = Some h
         \<and> stored_errors h
             = [code_verification no_trigger_enabled
                  (word_of_int (verification_id_underlying trigger_requirement))])
   \<and> (\<forall>u. trigger_enabled u
      (upd_time (write_to_update (\<lambda>_. \<lparr>lora = False, sd = False\<rparr>))
        (upd_orientation (enable_update (\<lambda>_. False))
          (upd_acceleration (enable_update (\<lambda>_. False))
            (upd_light (enable_update (\<lambda>_. False)) (main_configuration (\<lambda>_. 0) []))))) \<longleftrightarrow> u = Time_trigger)
   \<and> \<not> lora (trigger_write_to Time_trigger
      (upd_time (write_to_update (\<lambda>_. \<lparr>lora = False, sd = False\<rparr>))
        (upd_orientation (enable_update (\<lambda>_. False))
          (upd_acceleration (enable_update (\<lambda>_. False))
            (upd_light (enable_update (\<lambda>_. False)) (main_configuration (\<lambda>_. 0) []))))))
   \<and> \<not> sd (trigger_write_to Time_trigger
      (upd_time (write_to_update (\<lambda>_. \<lparr>lora = False, sd = False\<rparr>))
        (upd_orientation (enable_update (\<lambda>_. False))
          (upd_acceleration (enable_update (\<lambda>_. False))
            (upd_light (enable_update (\<lambda>_. False)) (main_configuration (\<lambda>_. 0) []))))))
   \<and> (\<exists>h. verify_main_config get_default_verification_rules
      (upd_time (write_to_update (\<lambda>_. \<lparr>lora = False, sd = False\<rparr>))
        (upd_orientation (enable_update (\<lambda>_. False))
          (upd_acceleration (enable_update (\<lambda>_. False))
            (upd_light (enable_update (\<lambda>_. False)) (main_configuration (\<lambda>_. 0) []))))) = Some h
         \<and> stored_errors h
             = [code_verification no_data_destination_enabled
                  (word_of_int (verification_id_underlying (trigger_rule_id Time_trigger)))])"
proof -
  let ?off = "(upd_orientation (enable_update (\<lambda>_. False))
        (upd_acceleration (enable_update (\<lambda>_. False))
          (upd_light (enable_update (\<lambda>_. False))
            (upd_time (enable_update (\<lambda>_. False)) (main_configuration (\<lambda>_. 0) [])))))"
  let ?one = "(upd_time (write_to_update (\<lambda>_. \<lparr>lora = False, sd = False\<rparr>))
        (upd_orientation (enable_update (\<lambda>_. False))
          (upd_acceleration (enable_update (\<lambda>_. False))
            (upd_light (enable_update (\<lambda>_. False)) (main_configuration (\<lambda>_. 0) [])))))"
  have off: "\<forall>u. \<not> trigger_enabled u ?off"
  proof
    fix u show "\<not> trigger_enabled u ?off"
      by (cases u)
         (simp_all add: main_configuration_def upd_time_def upd_light_def upd_acceleration_def
            upd_orientation_def upd_trigger_def)
  qed
  have one: "\<forall>u. trigger_enabled u ?one \<longleftrightarrow> u = Time_trigger"
  proof
    fix u show "trigger_enabled u ?one \<longleftrightarrow> u = Time_trigger"
      by (cases u)
         (simp_all add: main_configuration_def upd_time_def upd_light_def upd_acceleration_def
            upd_orientation_def upd_trigger_def)
  qed
  have w: "\<not> lora (trigger_write_to Time_trigger ?one)" "\<not> sd (trigger_write_to Time_trigger ?one)"
    by (simp_all add: main_configuration_def upd_time_def upd_light_def upd_acceleration_def
            upd_orientation_def upd_trigger_def)
  show ?thesis
    using verification_totality[of ?off Time_trigger] verification_totality[of ?one Time_trigger]
      off one w
    by blast
qed

subsection \<open>Message parser\<close>

lemma add_error_count:
  assumes "add_error c h = Some h1"
  shows "top_error h1 = Suc (top_error h)"
proof -
  have lt: "top_error h < length (errors h)"
    using assms by (auto simp add: add_error_def split: if_splits)
  show ?thesis using assms add_error_in_bounds[OF lt, of c] by auto
qed







lemma add_error_length:
  assumes "add_error c h = Some h1"
  shows "length (errors h1) = length (errors h)" "top_error h < length (errors h)"
proof -
  show lt: "top_error h < length (errors h)"
    using assms by (auto simp add: add_error_def split: if_splits)
  show "length (errors h1) = length (errors h)"
    using assms add_error_in_bounds[OF lt, of c] by auto
qed

lemma add_errors_stored:
  assumes "add_errors cs h = Some h1"
  shows "stored_errors h1 = stored_errors h @ cs \<and> top_error h1 = top_error h + length cs
       \<and> length (errors h1) = length (errors h)
       \<and> (cs \<noteq> [] \<longrightarrow> top_error h + length cs \<le> length (errors h))"
  using assms
proof (induction cs arbitrary: h)
  case Nil
  then show ?case by simp
next
  case (Cons c cs)
  then obtain h0 where a: "add_error c h = Some h0" and b: "add_errors cs h0 = Some h1"
    by (auto split: option.splits)
  note ih = Cons.IH[OF b]
  note l = add_error_length[OF a]
  have t: "top_error h0 = Suc (top_error h)" using a by (rule add_error_count)
  have s: "stored_errors h0 = stored_errors h @ [c]" using a by (rule add_error_stored)
  have "top_error h + length (c # cs) \<le> length (errors h)"
  proof (cases "cs = []")
    case True
    then show ?thesis using l(2) by simp
  next
    case False
    then show ?thesis using ih t l(1) by simp
  qed
  then show ?case using ih t s l(1) by simp
qed

lemma add_errors_no_room:
  assumes "cs \<noteq> []" "length (errors h) < top_error h + length cs"
  shows "add_errors cs h = None"
proof (cases "add_errors cs h")
  case None
  then show ?thesis .
next
  case (Some h1)
  then show ?thesis using add_errors_stored[OF Some] assms by simp
qed


lemma validate_config_message_add_errors:
  "validate_config_message config h = add_errors (config_message_errors config) h"
  by (simp add: validate_config_message_def config_message_errors_def add_parsing_error_def
      split: option.splits)

lemma config_message_errors_Nil:
  "config_message_errors config = [] \<longleftrightarrow>
     data_ptr config \<noteq> None \<and> byte_boundary \<le> data_size config"
  by (auto simp add: config_message_errors_def)


lemma msg_parse_config_no_room:
  assumes "config_message_errors config \<noteq> []"
    "length (errors (msg_err_handler p))
       < top_error (msg_err_handler p) + length (config_message_errors config)"
  shows "msg_parse_config config (p, ss) = None"
  using add_errors_no_room[OF assms]
  by (simp add: msg_parse_config_def validate_config_message_add_errors)








subsection \<open>XML parser\<close>

lemma code_at_empty_config_begin: "code_at empty_config new_file_ptr = 603983873"
  by code_simp

text \<open>
  C4. Parsing the empty document twice in succession with the same parser does not leave
  the error buffer of the first parse. \<open>parse_config_impl\<close> adds \<open>empty_config\<close> with the
  current position and returns before \<open>reset_parsing\<close>, so nothing is cleared: whenever the
  error buffer has room for two more codes, the first parse appends the code to the stored
  errors, the second parse appends the same code once more, and the error count after the
  second parse is one more than after the first. The settings are not touched by either
  parse.
\<close>

theorem xml_parse_empty_twice_accumulates:
  assumes "top_error (err_handler x) + 2 \<le> length (errors (err_handler x))"
  shows "\<exists>x1 x2.
           xml_parse_config library [] (x, settings) = Some (x1, settings)
         \<and> xml_parse_config library [] (x1, settings) = Some (x2, settings)
         \<and> stored_errors (err_handler x1)
             = stored_errors (err_handler x) @ [code_at empty_config (position x)]
         \<and> stored_errors (err_handler x2)
             = stored_errors (err_handler x1) @ [code_at empty_config (position x)]
         \<and> error_count (err_handler x1) = Suc (error_count (err_handler x))
         \<and> error_count (err_handler x2) = Suc (error_count (err_handler x1))
         \<and> stored_errors (err_handler x2) \<noteq> stored_errors (err_handler x1)"
proof -
  define h where "h = err_handler x"
  define n where "n = top_error h"
  define c where "c = code_at empty_config (position x)"
  have n: "n < length (errors h)" "Suc n < length (errors h)"
    using assms by (simp_all add: h_def n_def)
  define h1 where "h1 = \<lparr>errors = (errors h)[n := c], top_error = Suc n\<rparr>"
  define x1 where "x1 = x\<lparr>err_handler := h1\<rparr>"
  have a1: "add_error c h = Some h1"
    using add_error_in_bounds[of h c] n(1) by (simp add: h1_def n_def)
  then have p1: "xml_parse_config library [] (x, settings) = Some (x1, settings)"
    by (simp add: xml_parse_config_def add_parsing_error_at_def x1_def h_def c_def)
  have lt1: "top_error h1 < length (errors h1)" using n(2) by (simp add: h1_def)
  define h2 where "h2 = \<lparr>errors = (errors h1)[top_error h1 := c], top_error = Suc (top_error h1)\<rparr>"
  define x2 where "x2 = x1\<lparr>err_handler := h2\<rparr>"
  have a2: "add_error c h1 = Some h2"
    using add_error_in_bounds[OF lt1, of c] by (simp add: h2_def)
  then have p2: "xml_parse_config library [] (x1, settings) = Some (x2, settings)"
    by (simp add: xml_parse_config_def add_parsing_error_at_def x2_def x1_def c_def)
  have s1: "stored_errors (err_handler x1) = stored_errors (err_handler x) @ [c]"
    using add_error_stored[OF a1] by (simp add: x1_def h_def)
  have s2: "stored_errors (err_handler x2) = stored_errors (err_handler x1) @ [c]"
    using add_error_stored[OF a2] by (simp add: x2_def x1_def)
  have cnt1: "error_count (err_handler x1) = Suc (error_count (err_handler x))"
    by (simp add: x1_def h1_def error_count_def n_def h_def)
  have cnt: "error_count (err_handler x2) = Suc (error_count (err_handler x1))"
    by (simp add: x2_def x1_def h2_def error_count_def)
  have ne: "stored_errors (err_handler x2) \<noteq> stored_errors (err_handler x1)"
    using s2 by simp
  show ?thesis using p1 p2 s1 s2 cnt1 cnt ne unfolding c_def by blast
qed

theorem xml_parse_empty_twice_accumulates_witness:
  "top_error (err_handler (new_xml_parser 38 3)) + 2
     \<le> length (errors (err_handler (new_xml_parser 38 3)))
   \<and> (\<exists>x1 x2.
         xml_parse_config ((), \<lambda>_ _. ((), [])) [] (new_xml_parser 38 3, get_default_settings (\<lambda>_. 0))
           = Some (x1, get_default_settings (\<lambda>_. 0))
       \<and> xml_parse_config ((), \<lambda>_ _. ((), [])) [] (x1, get_default_settings (\<lambda>_. 0))
           = Some (x2, get_default_settings (\<lambda>_. 0))
       \<and> stored_errors (err_handler x1) = [603983873]
       \<and> stored_errors (err_handler x2) = [603983873, 603983873]
       \<and> error_count (err_handler x1) = 1 \<and> error_count (err_handler x2) = 2)"
proof -
  let ?x = "new_xml_parser 38 3"
  let ?L = "((), \<lambda>(_::unit) (_::char). ((), [] :: sax_event list))"
  let ?S = "get_default_settings (\<lambda>_. 0)"
  have hyp: "top_error (err_handler ?x) + 2 \<le> length (errors (err_handler ?x))"
    by (simp add: new_xml_parser_def new_error_handler_def)
  have s0: "stored_errors (err_handler ?x) = []"
    by (simp add: stored_errors_def new_xml_parser_def new_error_handler_def)
  have c0: "code_at empty_config (position ?x) = 603983873"
    using code_at_empty_config_begin by (simp add: new_xml_parser_def)
  obtain x1 x2 where r:
    "xml_parse_config ?L [] (?x, ?S) = Some (x1, ?S)"
    "xml_parse_config ?L [] (x1, ?S) = Some (x2, ?S)"
    "stored_errors (err_handler x1) = [603983873]"
    "stored_errors (err_handler x2) = stored_errors (err_handler x1) @ [603983873]"
    "error_count (err_handler x1) = Suc (error_count (err_handler ?x))"
    "error_count (err_handler x2) = Suc (error_count (err_handler x1))"
    using xml_parse_empty_twice_accumulates[OF hyp, of ?L ?S] unfolding s0 c0 by auto
  have e0: "error_count (err_handler ?x) = 0"
    by (simp add: error_count_def new_xml_parser_def new_error_handler_def)
  have cnt: "error_count (err_handler x1) = 1" "error_count (err_handler x2) = 2"
    using r(5,6) e0 by simp_all
  show ?thesis using hyp r cnt by auto
qed

text \<open>\<open>reset_parsing\<close> does not assign \<open>tag_depth\<close> either. With a library that raises one
  opening-tag event for the character \<open><\<close>, the document \<open><a>\<close> leaves \<open>tag_depth = 1\<close> and
  the error \<open>missing_closing_tag\<close> with data 1; the second parse of the same document starts
  at depth 1 and reports \<open>missing_closing_tag\<close> with data 2.\<close>

lemma xml_parse_unclosed_tag_twice:
  "map_option (\<lambda>st. (stored_errors (err_handler (fst st)), tag_depth (fst st)))
     (xml_parse_config ((), \<lambda>_ c. ((), if c = CHR ''<'' then [sax_tag ''a''] else [])) ''<a>''
        (new_xml_parser 2 3, []))
   = Some ([code_parsing missing_closing_tag 1], 1)
   \<and> map_option (\<lambda>st. (stored_errors (err_handler (fst st)), tag_depth (fst st)))
     (Option.bind
        (xml_parse_config ((), \<lambda>_ c. ((), if c = CHR ''<'' then [sax_tag ''a''] else []))
           ''<a>'' (new_xml_parser 2 3, []))
        (xml_parse_config ((), \<lambda>_ c. ((), if c = CHR ''<'' then [sax_tag ''a''] else []))
           ''<a>''))
   = Some ([code_parsing missing_closing_tag 2], 2)"
  by code_simp

subsection \<open>Order of application\<close>

lemmas upd_defs = upd_trigger_def upd_time_def upd_light_def upd_acceleration_def
  upd_orientation_def upd_bme280_def upd_bmx160_def upd_veml6030_def

lemma actions_keep_enable:
  "list_all (\<lambda>(j, a). \<forall>t d c c'. j \<noteq> trigger_enabled_index t \<longrightarrow> a d c = Some c'
        \<longrightarrow> trigger_enabled t c' = trigger_enabled t c)
     (enumerate 0 (map action_fn (default_settings_list usb)))"
  unfolding default_settings_list_def required_setting_def file_only_setting_def
    make_setting_def
  apply (simp only: list.map setting.simps enumerate_simps list.pred_inject prod.case simp_thms)
  apply (intro conjI allI impI; case_tac t;
      auto simp add: upd_defs split: option.splits if_splits)
  done

lemma actions_set_enable:
  "list_all (\<lambda>(j, a). \<forall>t c c'. j = trigger_enabled_index t \<longrightarrow> a (SD_flag False) c = Some c'
        \<longrightarrow> \<not> trigger_enabled t c')
     (enumerate 0 (map action_fn (default_settings_list usb)))"
  unfolding default_settings_list_def required_setting_def file_only_setting_def
    make_setting_def
  apply (simp only: list.map setting.simps enumerate_simps list.pred_inject prod.case simp_thms)
  apply (intro conjI allI impI; case_tac t;
      auto simp add: upd_defs split: option.splits if_splits)
  done

lemma actions_clear_masks:
  "list_all (\<lambda>(j, a). \<forall>t k d c c'. j = sensor_index t k \<longrightarrow> \<not> trigger_enabled t c
        \<longrightarrow> a d c = Some c' \<longrightarrow> (\<forall>f \<in> set (sensor_mask_fields t k c'). \<not> f))
     (enumerate 0 (map action_fn (default_settings_list usb)))"
  unfolding default_settings_list_def required_setting_def file_only_setting_def
    make_setting_def
  apply (simp only: list.map setting.simps enumerate_simps list.pred_inject prod.case simp_thms)
  apply (intro conjI allI impI; case_tac t; case_tac k;
      auto simp add: upd_defs split: option.splits if_splits)
  done

lemma actions_keep_masks:
  "list_all (\<lambda>(j, a). \<forall>t k d c c'. j \<noteq> sensor_index t k \<longrightarrow> a d c = Some c'
        \<longrightarrow> sensor_mask_fields t k c' = sensor_mask_fields t k c)
     (enumerate 0 (map action_fn (default_settings_list usb)))"
  unfolding default_settings_list_def required_setting_def file_only_setting_def
    make_setting_def
  apply (simp only: list.map setting.simps enumerate_simps list.pred_inject prod.case simp_thms)
  apply (intro conjI allI impI; case_tac t; case_tac k;
      auto simp add: upd_defs split: option.splits if_splits)
  done

lemma list_all_enumerate_nth:
  assumes "list_all (\<lambda>(j, a). Q j a) (enumerate 0 xs)" "j < length xs"
  shows "Q j (xs ! j)"
proof -
  have "(\<lambda>(j, a). Q j a) (enumerate 0 xs ! j)"
    using assms by (simp add: list_all_length)
  then show ?thesis using assms(2) by (simp add: nth_enumerate_eq)
qed

lemma length_default_list: "length (default_settings_list usb) = 38"
  by (simp add: default_settings_list_def)

lemma default_action_nth:
  assumes "map action_fn ss = map action_fn (get_default_settings usb)" "j < 38"
  shows "action_fn (ss ! j) = map action_fn (default_settings_list usb) ! j"
    and "length ss = 38"
proof -
  have m: "map action_fn ss = map action_fn (default_settings_list usb)"
    using assms(1) by (simp add: get_default_settings_def make_settings_fields)
  show l: "length ss = 38"
    using arg_cong[OF m, of length] by (simp add: length_default_list)
  have "action_fn (ss ! j) = map action_fn ss ! j" using l assms(2) by simp
  then show "action_fn (ss ! j) = map action_fn (default_settings_list usb) ! j"
    using m by simp
qed

lemma apply_valid_setting_cases:
  assumes "apply_valid_setting s (c, h) = Some (s1, c1, h1)"
  shows "mode_of h1 = mode_of h"
    and "snd (setting_validate (mode_of h) s) \<noteq> None \<Longrightarrow> c1 = c"
    and "snd (setting_validate (mode_of h) s) = None \<Longrightarrow>
           \<exists>d. cache (fst (setting_validate (mode_of h) s)) = Some d \<and> action_fn s d c = Some c1"
proof -
  obtain s' st where v: "setting_validate (mode_of h) s = (s', st)"
    by (cases "setting_validate (mode_of h) s")
  have a: "action_fn s' = action_fn s"
    using setting_validate_fields(3)[of "mode_of h" s] v by simp
  show "mode_of h1 = mode_of h"
    using assms v
    by (auto simp add: apply_valid_setting_def handle_invalid_setting_def
        split: option.splits if_splits)
  show "snd (setting_validate (mode_of h) s) \<noteq> None \<Longrightarrow> c1 = c"
    using assms v by (auto simp add: apply_valid_setting_def split: option.splits)
  show "snd (setting_validate (mode_of h) s) = None \<Longrightarrow>
           \<exists>d. cache (fst (setting_validate (mode_of h) s)) = Some d \<and> action_fn s d c = Some c1"
    using assms v a
    by (auto simp add: apply_valid_setting_def setting_apply_def split: option.splits)
qed

lemma apply_valid_settings_append:
  "apply_valid_settings (xs @ ys) st =
     (case apply_valid_settings xs st of
        None \<Rightarrow> None
      | Some (xs1, st1) \<Rightarrow>
          (case apply_valid_settings ys st1 of
             None \<Rightarrow> None
           | Some (ys1, st2) \<Rightarrow> Some (xs1 @ ys1, st2)))"
  by (induction xs arbitrary: st) (auto split: option.splits)

lemma apply_valid_settings_split:
  assumes "apply_valid_settings ss st = Some (ss1, st1)" "k < length ss"
  shows "\<exists>sa ca ha sb cb hb rest.
           apply_valid_settings (take k ss) st = Some (sa, ca, ha)
         \<and> apply_valid_setting (ss ! k) (ca, ha) = Some (sb, cb, hb)
         \<and> apply_valid_settings (drop (Suc k) ss) (cb, hb) = Some (rest, st1)"
proof -
  have "ss = take k ss @ (ss ! k # drop (Suc k) ss)"
    using assms(2) by (simp add: id_take_nth_drop[symmetric])
  then have "apply_valid_settings (take k ss @ (ss ! k # drop (Suc k) ss)) st = Some (ss1, st1)"
    using assms(1) by simp
  then show ?thesis
    by (auto simp add: apply_valid_settings_append split: option.splits)
qed

lemma apply_valid_settings_invariant:
  assumes "apply_valid_settings xs (c, h) = Some (xs1, c1, h1)" "P c"
    and "\<And>s c h s1 c1 h1. s \<in> set xs \<Longrightarrow> apply_valid_setting s (c, h) = Some (s1, c1, h1)
           \<Longrightarrow> P c \<Longrightarrow> P c1"
  shows "P c1"
  using assms
proof (induction xs arbitrary: c h xs1)
  case Nil
  then show ?case by simp
next
  case (Cons s xs)
  from Cons.prems(1) obtain s' c2 h2 rest where
    step: "apply_valid_setting s (c, h) = Some (s', c2, h2)"
    and rest: "apply_valid_settings xs (c2, h2) = Some (rest, c1, h1)"
    by (auto split: option.splits)
  have p2: "P c2" using Cons.prems(3)[OF _ step Cons.prems(2)] by simp
  show ?case
  proof (rule Cons.IH[OF rest p2])
    fix s0 c h s1 c1 h1
    assume "s0 \<in> set xs" "apply_valid_setting s0 (c, h) = Some (s1, c1, h1)" "P c"
    then show "P c1" using Cons.prems(3)[of s0 c h s1 c1 h1] by simp
  qed
qed

lemma apply_valid_settings_mode:
  assumes "apply_valid_settings xs (c, h) = Some (xs1, c1, h1)"
  shows "mode_of h1 = mode_of h"
  using assms
proof (induction xs arbitrary: c h xs1)
  case Nil
  then show ?case by simp
next
  case (Cons s xs)
  from Cons.prems(1) obtain s' c2 h2 rest where
    step: "apply_valid_setting s (c, h) = Some (s', c2, h2)"
    and rest: "apply_valid_settings xs (c2, h2) = Some (rest, c1, h1)"
    by (auto split: option.splits)
  show ?case using Cons.IH[OF rest] apply_valid_setting_cases(1)[OF step] by simp
qed

lemma index_order: "trigger_enabled_index t < sensor_index t k" "sensor_index t k < 38"
  by (cases t; cases k; simp)+

text \<open>
  C6. The setting handler validates and applies the settings in the order of the schema.
  For every list of settings with the actions of the default schema, every trigger and
  every sensor setting of that trigger: when the pass returns, the \<open>enabled\<close> setting of the
  trigger validates without error to the value false, and the sensor setting validates
  without error (so that its action runs), then the configuration on which the action of
  the sensor setting runs has the trigger disabled, the configuration it leaves has every
  member the action assigns set to false, whatever value the sensor setting itself
  validated to, and these members are still false, and the trigger still disabled, in
  the configuration at the end of the pass.
\<close>

theorem enabled_false_clears_sensor_masks:
  assumes schema: "map action_fn ss = map action_fn (get_default_settings usb)"
    and run: "apply_valid_settings ss (config, h) = Some (ss1, config1, h1)"
    and en: "setting_validate (mode_of h) (ss ! trigger_enabled_index t) = (se, None)"
      "cache se = Some (SD_flag False)"
    and sv: "snd (setting_validate (mode_of h) (ss ! sensor_index t k)) = None"
  shows "\<exists>sa ca ha sb cb hb.
           apply_valid_settings (take (sensor_index t k) ss) (config, h) = Some (sa, ca, ha)
         \<and> \<not> trigger_enabled t ca
         \<and> apply_valid_setting (ss ! sensor_index t k) (ca, ha) = Some (sb, cb, hb)
         \<and> (\<forall>f \<in> set (sensor_mask_fields t k cb). \<not> f)
         \<and> (\<forall>f \<in> set (sensor_mask_fields t k config1). \<not> f)
         \<and> \<not> trigger_enabled t config1"
proof -
  define e where "e = trigger_enabled_index t"
  define n where "n = sensor_index t k"
  define A where "A = map action_fn (default_settings_list usb)"
  have en': "e < n" "n < 38" unfolding e_def n_def by (rule index_order)+
  have len: "length ss = 38" using default_action_nth(2)[OF schema, of 0] by simp
  have lenA: "length A = 38" by (simp add: A_def length_default_list)
  have act: "action_fn (ss ! j) = A ! j" if "j < 38" for j
    unfolding A_def using default_action_nth(1)[OF schema that] .
  have inA: "j < length (map action_fn (default_settings_list usb))" if "j < 38" for j
    using that by (simp add: length_default_list)
  have keep_enable: "trigger_enabled t c' = trigger_enabled t c"
    if "j < 38" "j \<noteq> e" "(A ! j) d c = Some c'" for j d c c'
    using list_all_enumerate_nth[OF actions_keep_enable inA[OF that(1)]] that(2,3)
    unfolding A_def e_def by blast
  have set_enable: "\<not> trigger_enabled t c'" if "(A ! e) (SD_flag False) c = Some c'" for c c'
    using list_all_enumerate_nth[OF actions_set_enable inA[of e]] that en'
    unfolding A_def e_def by force
  have clear_masks: "\<forall>f \<in> set (sensor_mask_fields t k c'). \<not> f"
    if "\<not> trigger_enabled t c" "(A ! n) d c = Some c'" for d c c'
    using list_all_enumerate_nth[OF actions_clear_masks inA[OF en'(2)]] that
    unfolding A_def n_def by blast
  have keep_masks: "sensor_mask_fields t k c' = sensor_mask_fields t k c"
    if "j < 38" "j \<noteq> n" "(A ! j) d c = Some c'" for j d c c'
    using list_all_enumerate_nth[OF actions_keep_masks inA[OF that(1)]] that(2,3)
    unfolding A_def n_def by blast
  have step_enable: "trigger_enabled t c1 = trigger_enabled t c"
    if j: "j < 38" "j \<noteq> e" and st: "apply_valid_setting (ss ! j) (c, h') = Some (s1, c1, h1')"
    for j c h' s1 c1 h1'
  proof (cases "snd (setting_validate (mode_of h') (ss ! j)) = None")
    case True
    then obtain d where "action_fn (ss ! j) d c = Some c1"
      using apply_valid_setting_cases(3)[OF st] by blast
    then show ?thesis using keep_enable[OF j] act[OF j(1)] by simp
  next
    case False
    then show ?thesis using apply_valid_setting_cases(2)[OF st] by simp
  qed
  have step_masks: "sensor_mask_fields t k c1 = sensor_mask_fields t k c"
    if j: "j < 38" "j \<noteq> n" and st: "apply_valid_setting (ss ! j) (c, h') = Some (s1, c1, h1')"
    for j c h' s1 c1 h1'
  proof (cases "snd (setting_validate (mode_of h') (ss ! j)) = None")
    case True
    then obtain d where "action_fn (ss ! j) d c = Some c1"
      using apply_valid_setting_cases(3)[OF st] by blast
    then show ?thesis using keep_masks[OF j] act[OF j(1)] by simp
  next
    case False
    then show ?thesis using apply_valid_setting_cases(2)[OF st] by simp
  qed
  have e_len: "e < length ss" using en' len by simp
  obtain sa0 c0 h0 sb0 c0' h0' rest0 where
    pre_e: "apply_valid_settings (take e ss) (config, h) = Some (sa0, c0, h0)"
    and at_e: "apply_valid_setting (ss ! e) (c0, h0) = Some (sb0, c0', h0')"
    using apply_valid_settings_split[OF run e_len] by blast
  have m0: "mode_of h0 = mode_of h" using apply_valid_settings_mode[OF pre_e] .
  have "snd (setting_validate (mode_of h0) (ss ! e)) = None"
    "cache (fst (setting_validate (mode_of h0) (ss ! e))) = Some (SD_flag False)"
    using en unfolding m0 e_def by simp_all
  then have "action_fn (ss ! e) (SD_flag False) c0 = Some c0'"
    using apply_valid_setting_cases(3)[OF at_e] by auto
  then have off0: "\<not> trigger_enabled t c0'"
    using set_enable act[of e] en' by simp
  have n_len: "n < length ss" using en' len by simp
  obtain sa ca ha sb cb hb rest where
    pre_n: "apply_valid_settings (take n ss) (config, h) = Some (sa, ca, ha)"
    and at_n: "apply_valid_setting (ss ! n) (ca, ha) = Some (sb, cb, hb)"
    and post_n: "apply_valid_settings (drop (Suc n) ss) (cb, hb) = Some (rest, config1, h1)"
    using apply_valid_settings_split[OF run n_len] by blast
  have tk: "take n ss = take e ss @ (ss ! e # drop (Suc e) (take n ss))"
  proof -
    have "take n ss = take e (take n ss) @ (take n ss ! e # drop (Suc e) (take n ss))"
      using en' len by (intro id_take_nth_drop) simp
    then show ?thesis using en' by (simp add: min_def)
  qed
  obtain mid where
    mid: "apply_valid_settings (drop (Suc e) (take n ss)) (c0', h0') = Some (mid, ca, ha)"
    using pre_n pre_e at_e
    by (subst (asm) tk) (auto simp add: apply_valid_settings_append split: option.splits)
  have in_mid: "\<exists>j. j < 38 \<and> j \<noteq> e \<and> s = ss ! j" if mem: "s \<in> set (drop (Suc e) (take n ss))" for s
  proof -
    obtain i where i: "i < length (drop (Suc e) (take n ss))"
      "s = drop (Suc e) (take n ss) ! i"
      using mem unfolding in_set_conv_nth by blast
    have b: "Suc e + i < n" using i(1) en' len by simp
    then have "s = ss ! (Suc e + i)" using i(2) en' len by simp
    then show ?thesis using b en' by (intro exI[of _ "Suc e + i"]) simp
  qed
  have off: "\<not> trigger_enabled t ca"
  proof (rule apply_valid_settings_invariant[OF mid,
        where P = "\<lambda>c. \<not> trigger_enabled t c"])
    show "\<not> trigger_enabled t c0'" by (rule off0)
  next
    fix s c h' s1 c1 h1'
    assume s: "s \<in> set (drop (Suc e) (take n ss))"
      and st: "apply_valid_setting s (c, h') = Some (s1, c1, h1')"
      and p: "\<not> trigger_enabled t c"
    obtain j where j: "j < 38" "j \<noteq> e" "s = ss ! j" using in_mid[OF s] by blast
    show "\<not> trigger_enabled t c1" using step_enable[OF j(1,2)] st p unfolding j(3) by blast
  qed
  have mn: "mode_of ha = mode_of h" using apply_valid_settings_mode[OF pre_n] .
  have "snd (setting_validate (mode_of ha) (ss ! n)) = None"
    using sv unfolding mn n_def .
  then obtain d where d: "action_fn (ss ! n) d ca = Some cb"
    using apply_valid_setting_cases(3)[OF at_n] by blast
  then have cleared: "\<forall>f \<in> set (sensor_mask_fields t k cb). \<not> f"
    using clear_masks[OF off] act[of n] en' by simp
  have off_b: "\<not> trigger_enabled t cb"
    using step_enable[OF en'(2) _ at_n] en'(1) off by simp
  have in_post: "\<exists>j. j < 38 \<and> j \<noteq> e \<and> j \<noteq> n \<and> s = ss ! j" if mem: "s \<in> set (drop (Suc n) ss)" for s
  proof -
    obtain i where i: "i < length (drop (Suc n) ss)" "s = drop (Suc n) ss ! i"
      using mem unfolding in_set_conv_nth by blast
    have b: "Suc n + i < 38" using i(1) len by simp
    have "s = ss ! (Suc n + i)" using i(2) len en' by simp
    then show ?thesis using b en' by (intro exI[of _ "Suc n + i"]) simp
  qed
  have final: "sensor_mask_fields t k config1 = sensor_mask_fields t k cb
      \<and> \<not> trigger_enabled t config1"
  proof (rule apply_valid_settings_invariant[OF post_n,
        where P = "\<lambda>c. sensor_mask_fields t k c = sensor_mask_fields t k cb
                      \<and> \<not> trigger_enabled t c"])
    show "sensor_mask_fields t k cb = sensor_mask_fields t k cb \<and> \<not> trigger_enabled t cb"
      using off_b by simp
  next
    fix s c h' s1 c1 h1'
    assume s: "s \<in> set (drop (Suc n) ss)"
      and st: "apply_valid_setting s (c, h') = Some (s1, c1, h1')"
      and p: "sensor_mask_fields t k c = sensor_mask_fields t k cb \<and> \<not> trigger_enabled t c"
    obtain j where j: "j < 38" "j \<noteq> e" "j \<noteq> n" "s = ss ! j" using in_post[OF s] by blast
    show "sensor_mask_fields t k c1 = sensor_mask_fields t k cb \<and> \<not> trigger_enabled t c1"
      using step_enable[OF j(1,2)] step_masks[OF j(1,3)] st p unfolding j(4) by metis
  qed
  have "apply_valid_settings (take n ss) (config, h) = Some (sa, ca, ha)
         \<and> \<not> trigger_enabled t ca
         \<and> apply_valid_setting (ss ! n) (ca, ha) = Some (sb, cb, hb)
         \<and> (\<forall>f \<in> set (sensor_mask_fields t k cb). \<not> f)
         \<and> (\<forall>f \<in> set (sensor_mask_fields t k config1). \<not> f)
         \<and> \<not> trigger_enabled t config1"
    using pre_n off at_n cleared final by simp
  then show ?thesis unfolding n_def by blast
qed

(*PROOFS*)

end
